(* ===== verification/Prelude.thy ===== *)
theory Prelude
  imports Main
begin

text \<open>
  What every component of the panel shares: the Go run-time notions the sources use
  (instants and durations of package \<^verbatim>\<open>time\<close>, byte strings and the helpers of package
  \<^verbatim>\<open>strings\<close>, iteration over a Go map), the result type for functions that return
  \<^verbatim>\<open>error\<close>, and the generic lemmas and the contract of an object with an invariant that
  the component theories reuse.
\<close>

named_theorems go_time \<open>instants and durations\<close>
named_theorems go_string \<open>helpers of package strings\<close>

subsection \<open>Instants and durations\<close>

text \<open>
  A \<^verbatim>\<open>time.Time\<close> is an instant, counted in nanoseconds from the Unix epoch;
  \<^verbatim>\<open>time.Duration\<close> is a signed 64-bit count of nanoseconds and \<^verbatim>\<open>Time.Sub\<close> saturates
  at its bounds. \<^verbatim>\<open>Time.Before\<close>, \<^verbatim>\<open>After\<close> and \<^verbatim>\<open>Equal\<close> compare instants.
\<close>

type_synonym gotime = int
type_synonym duration = int

definition max_duration :: duration where
  "max_duration = 2 ^ 63 - 1"

definition min_duration :: duration where
  "min_duration = - (2 ^ 63)"

definition time_Sub :: "gotime \<Rightarrow> gotime \<Rightarrow> duration" where
  "time_Sub t u = max min_duration (min max_duration (t - u))"

definition Second :: duration where
  "Second = 1000000000"

definition Minute :: duration where
  "Minute = 60 * Second"

definition Hour :: duration where
  "Hour = 60 * Minute"

text \<open>The zero \<^verbatim>\<open>time.Time\<close> is January 1, year 1, 00:00:00 UTC.\<close>

definition zero_time :: gotime where
  "zero_time = - 62135596800 * Second"

definition time_IsZero :: "gotime \<Rightarrow> bool" where
  "time_IsZero t \<longleftrightarrow> t = zero_time"

lemmas duration_units = Second_def Minute_def Hour_def

lemma time_Sub_less_iff [go_time]:
  assumes "min_duration < d" and "d \<le> max_duration"
  shows "time_Sub t u < d \<longleftrightarrow> t - u < d"
  using assms by (auto simp: time_Sub_def max_def min_def)

lemma time_Sub_le_iff [go_time]:
  assumes "min_duration \<le> d" and "d < max_duration"
  shows "time_Sub t u \<le> d \<longleftrightarrow> t - u \<le> d"
  using assms by (auto simp: time_Sub_def max_def min_def)

lemma time_Sub_bounds: "min_duration \<le> time_Sub t u" "time_Sub t u \<le> max_duration"
  by (auto simp: time_Sub_def max_duration_def min_duration_def)

subsection \<open>Results\<close>

text \<open>A Go function that returns \<^verbatim>\<open>error\<close> alone: \<open>None\<close> is \<^verbatim>\<open>nil\<close>.\<close>

type_synonym 'e err = "'e option"

text \<open>The first error of a list of checks made one after the other.\<close>

fun first_err :: "'e err list \<Rightarrow> 'e err" where
  "first_err [] = None"
| "first_err (None # cs) = first_err cs"
| "first_err (Some e # cs) = Some e"

lemma first_err_None_iff [simp]: "first_err cs = None \<longleftrightarrow> (\<forall>c \<in> set cs. c = None)"
  by (induction cs rule: first_err.induct) auto

lemma first_err_SomeD: "first_err cs = Some e \<Longrightarrow> Some e \<in> set cs"
  by (induction cs rule: first_err.induct) auto

text \<open>
  \<^verbatim>\<open>for name, v := range m\<close> over a Go map visits the entries in an order the language leaves
  open. A loop that returns at the first bad entry is modelled with the visiting order as an
  argument: \<open>range_first order m bad\<close>.
\<close>

definition range_first :: "'k list \<Rightarrow> ('k \<times> 'v) list \<Rightarrow> ('k \<Rightarrow> 'v \<Rightarrow> 'e err) \<Rightarrow> 'e err" where
  "range_first order m chk =
     first_err (map (\<lambda>k. case map_of m k of None \<Rightarrow> None | Some v \<Rightarrow> chk k v) order)"

text \<open>Whether such a loop reports an error does not depend on the order of the visit.\<close>

lemma range_first_None_iff:
  assumes "set order = fst ` set m" and "distinct (map fst m)"
  shows "range_first order m chk = None \<longleftrightarrow> (\<forall>(k, v) \<in> set m. chk k v = None)"
proof -
  have "(\<forall>k \<in> fst ` set m. (case map_of m k of None \<Rightarrow> None | Some v \<Rightarrow> chk k v) = None)
        \<longleftrightarrow> (\<forall>(k, v) \<in> set m. chk k v = None)"
    using assms(2) by (force simp: split_beta)
  then show ?thesis using assms(1) by (simp add: range_first_def)
qed

lemma range_first_SomeD:
  assumes "range_first order m chk = Some e"
  shows "\<exists>(k, v) \<in> set m. chk k v = Some e"
proof -
  from first_err_SomeD [OF assms [unfolded range_first_def]] obtain k where
    "(case map_of m k of None \<Rightarrow> None | Some v \<Rightarrow> chk k v) = Some e" by auto
  then obtain v where "map_of m k = Some v" and "chk k v = Some e"
    by (auto split: option.splits)
  then show ?thesis using map_of_SomeD by fastforce
qed

subsection \<open>Objects with an invariant\<close>

text \<open>
  A Go object whose methods hold its mutex for their whole body is a state with one step per
  call; \<open>run_calls\<close> is the effect of a sequence of calls, in the order the mutex grants them.
\<close>

fun run_calls :: "('s \<Rightarrow> 'c \<Rightarrow> 'r \<times> 's) \<Rightarrow> 's \<Rightarrow> 'c list \<Rightarrow> 'r list \<times> 's" where
  "run_calls step s [] = ([], s)"
| "run_calls step s (c # cs) =
     (let (r, s') = step s c; (rs, s'') = run_calls step s' cs in (r # rs, s''))"

lemma length_run_calls [simp]: "length (fst (run_calls step s cs)) = length cs"
  by (induction cs arbitrary: s) (simp_all add: split_beta)

lemma run_calls_append:
  "run_calls step s (cs @ ds) =
     (let (rs, s') = run_calls step s cs; (qs, s'') = run_calls step s' ds in (rs @ qs, s''))"
  by (induction cs arbitrary: s) (simp_all add: split_beta)

text \<open>The contract every such object keeps: each call preserves the invariant.\<close>

locale guarded_object =
  fixes inv :: "'s \<Rightarrow> bool"
    and step :: "'s \<Rightarrow> 'c \<Rightarrow> 'r \<times> 's"
    and init :: 's
  assumes inv_init: "inv init"
    and inv_step: "inv s \<Longrightarrow> inv (snd (step s c))"
begin

lemma inv_run: "inv s \<Longrightarrow> inv (snd (run_calls step s cs))"
proof (induction cs arbitrary: s)
  case Nil
  then show ?case by simp
next
  case (Cons c cs)
  from Cons.prems have "inv (snd (step s c))" by (rule inv_step)
  from Cons.IH [OF this] show ?case by (simp add: split_beta)
qed

lemma inv_reachable: "inv (snd (run_calls step init cs))"
  by (rule inv_run) (rule inv_init)

end

text \<open>
  A contract for a component that implements a simpler one: \<open>ok\<close> says which calls the
  environment may make in a state, and every such call commutes with the abstraction. Then
  whole call sequences return the same results.
\<close>

fun admissible :: "('s \<Rightarrow> 'c \<Rightarrow> bool) \<Rightarrow> ('s \<Rightarrow> 'c \<Rightarrow> 'r \<times> 's) \<Rightarrow> 's \<Rightarrow> 'c list \<Rightarrow> bool" where
  "admissible ok step s [] = True"
| "admissible ok step s (c # cs) = (ok s c \<and> admissible ok step (snd (step s c)) cs)"

locale refined_object =
  fixes inv :: "'s \<Rightarrow> bool"
    and abs :: "'s \<Rightarrow> 'a"
    and ok :: "'s \<Rightarrow> 'c \<Rightarrow> bool"
    and step :: "'s \<Rightarrow> 'c \<Rightarrow> 'r \<times> 's"
    and astep :: "'a \<Rightarrow> 'c \<Rightarrow> 'r \<times> 'a"
  assumes keeps: "inv s \<Longrightarrow> ok s c \<Longrightarrow> inv (snd (step s c))"
    and result: "inv s \<Longrightarrow> ok s c \<Longrightarrow> fst (step s c) = fst (astep (abs s) c)"
    and simulates: "inv s \<Longrightarrow> ok s c \<Longrightarrow> abs (snd (step s c)) = snd (astep (abs s) c)"
begin

lemma run_refines:
  assumes "inv s" and "admissible ok step s cs"
  shows "fst (run_calls step s cs) = fst (run_calls astep (abs s) cs)"
    and "abs (snd (run_calls step s cs)) = snd (run_calls astep (abs s) cs)"
    and "inv (snd (run_calls step s cs))"
  using assms
proof (induction cs arbitrary: s)
  case Nil
  { case 1 then show ?case by simp next case 2 then show ?case by simp
    next case 3 then show ?case by simp }
next
  case (Cons c cs)
  { case 1 then show ?case
      using Cons.IH(1) [of "snd (step s c)"] by (simp add: split_beta result simulates keeps)
    next case 2 then show ?case
      using Cons.IH(2) [of "snd (step s c)"] by (simp add: split_beta simulates keeps)
    next case 3 then show ?case
      using Cons.IH(3) [of "snd (step s c)"] by (simp add: split_beta keeps) }
qed

text \<open>Two states with the same abstraction cannot be told apart by their results.\<close>

lemma run_equal_results:
  assumes "inv s" "inv s'" "abs s = abs s'"
    and "admissible ok step s cs" "admissible ok step s' cs"
  shows "fst (run_calls step s cs) = fst (run_calls step s' cs)"
  using run_refines(1) [OF assms(1,4)] run_refines(1) [OF assms(2,5)] assms(3) by simp

end

end
