(* ===== verification/Rate_Limit.thy ===== *)
theory Rate_Limit
  imports Prelude
begin

text \<open>
  The per-address attempt limiter of the panel's API (\<^verbatim>\<open>internal/api/ratelimit.go\<close>): a
  sliding window of recorded attempts, a block once the window overflows, and a sweep of both
  maps every \<open>pruneEvery\<close> calls. The two Go maps are partial functions; the clock reading
  \<^verbatim>\<open>l.now()\<close> of a call is its argument.
\<close>

record ip_limiter =
  l_max :: int
  l_window :: duration
  l_block :: duration
  l_attempts :: "string \<Rightarrow> gotime list option"
  l_blocked :: "string \<Rightarrow> gotime option"
  l_calls :: int

definition pruneEvery :: int where
  "pruneEvery = 1000"

definition newIPLimiter :: "int \<Rightarrow> duration \<Rightarrow> duration \<Rightarrow> ip_limiter" where
  "newIPLimiter mx window block =
     \<lparr>l_max = mx, l_window = window, l_block = block,
      l_attempts = Map.empty, l_blocked = Map.empty, l_calls = 0\<rparr>"

text \<open>
  The loops of \<^verbatim>\<open>prune\<close> delete entry by entry, so their effect is a map per address: first
  the expired blocks, then the attempts of every address that is no longer blocked and has no
  attempt left inside the window.
\<close>

definition prune_blocked :: "gotime \<Rightarrow> ip_limiter \<Rightarrow> string \<Rightarrow> gotime option" where
  "prune_blocked now l ip =
     (case l_blocked l ip of
        None \<Rightarrow> None
      | Some until \<Rightarrow> if \<not> now < until then None else Some until)"

definition prune :: "gotime \<Rightarrow> ip_limiter \<Rightarrow> ip_limiter" where
  "prune now l =
     (let blocked' = prune_blocked now l in
      l\<lparr>l_blocked := blocked',
        l_attempts := (\<lambda>ip. case l_attempts l ip of
            None \<Rightarrow> None
          | Some ts \<Rightarrow>
              if blocked' ip \<noteq> None then Some ts
              else if \<exists>t \<in> set ts. time_Sub now t < l_window l then Some ts
              else None)\<rparr>)"

definition Blocked :: "ip_limiter \<Rightarrow> string \<Rightarrow> gotime \<Rightarrow> bool" where
  "Blocked l ip now =
     (case l_blocked l ip of None \<Rightarrow> False | Some until \<Rightarrow> now < until)"

definition attempts_of :: "ip_limiter \<Rightarrow> string \<Rightarrow> gotime list" where
  "attempts_of l ip = (case l_attempts l ip of None \<Rightarrow> [] | Some ts \<Rightarrow> ts)"

text \<open>The part of \<^verbatim>\<open>Allow\<close> after the block check: record the attempt, block on overflow.\<close>

definition record_attempt :: "ip_limiter \<Rightarrow> string \<Rightarrow> gotime \<Rightarrow> bool \<times> ip_limiter" where
  "record_attempt l ip now =
     (let keep = filter (\<lambda>t. time_Sub now t < l_window l) (attempts_of l ip) @ [now];
          l' = l\<lparr>l_attempts := (l_attempts l)(ip \<mapsto> keep)\<rparr>
      in if int (length keep) > l_max l
         then (False, l'\<lparr>l_blocked := (l_blocked l')(ip \<mapsto> now + l_block l)\<rparr>)
         else (True, l'))"

definition Allow :: "ip_limiter \<Rightarrow> string \<times> gotime \<Rightarrow> bool \<times> ip_limiter" where
  "Allow l0 call =
     (let (ip, now) = call;
          l1 = l0\<lparr>l_calls := l_calls l0 + 1\<rparr>;
          l = (if l_calls l1 mod pruneEvery = 0 then prune now l1 else l1)
      in case l_blocked l ip of
           Some until \<Rightarrow>
             if now < until then (False, l)
             else record_attempt
                    (l\<lparr>l_blocked := (l_blocked l)(ip := None),
                       l_attempts := (l_attempts l)(ip := None)\<rparr>) ip now
         | None \<Rightarrow> record_attempt l ip now)"


subsection \<open>What the limiter promises, without its housekeeping\<close>

text \<open>
  The abstract state of one address is either a block that ends at an instant or the attempts
  still inside the window. \<open>lim_view now l\<close> reads it from the two maps; \<open>spec_allow\<close> is
  the promise: a blocked address is refused, any other attempt is recorded and permitted while
  the window holds at most \<open>l_max\<close> of them, and otherwise starts a block.
\<close>

type_synonym addr_view = "gotime + gotime list"

definition lim_view :: "gotime \<Rightarrow> ip_limiter \<Rightarrow> string \<Rightarrow> addr_view" where
  "lim_view now l ip =
     (if Blocked l ip now then Inl (the (l_blocked l ip))
      else Inr (filter (\<lambda>t. now - t < l_window l) (attempts_of l ip)))"

definition spec_later :: "duration \<Rightarrow> gotime \<Rightarrow> addr_view \<Rightarrow> addr_view" where
  "spec_later window now v =
     (case v of Inl until \<Rightarrow> if now < until then Inl until else Inr []
              | Inr ts \<Rightarrow> Inr (filter (\<lambda>t. now - t < window) ts))"

definition spec_allow :: "int \<Rightarrow> duration \<Rightarrow> gotime \<Rightarrow> addr_view \<Rightarrow> bool \<times> addr_view" where
  "spec_allow mx block now v =
     (case v of Inl until \<Rightarrow> (False, Inl until)
              | Inr ts \<Rightarrow> if int (length ts) + 1 > mx then (False, Inl (now + block))
                         else (True, Inr (ts @ [now])))"

text \<open>
  The invariant at the instant of the last call: attempts lie in the past, and an address with
  a block entry recorded nothing after the block began.
\<close>

definition lim_ok :: "gotime \<Rightarrow> ip_limiter \<Rightarrow> bool" where
  "lim_ok now l \<longleftrightarrow>
     0 < l_window l \<and> l_window l \<le> l_block l \<and> l_block l \<le> max_duration \<and>
     (\<forall>ip. \<forall>t \<in> set (attempts_of l ip). t \<le> now) \<and>
     (\<forall>ip until. l_blocked l ip = Some until \<longrightarrow>
        (\<forall>t \<in> set (attempts_of l ip). t + l_block l \<le> until))"

lemma lim_okD:
  assumes "lim_ok now l"
  shows "0 < l_window l" "l_window l \<le> l_block l" "l_window l \<le> max_duration"
    "\<And>ip t. t \<in> set (attempts_of l ip) \<Longrightarrow> t \<le> now"
    "\<And>ip until t. l_blocked l ip = Some until \<Longrightarrow> t \<in> set (attempts_of l ip)
        \<Longrightarrow> t + l_block l \<le> until"
  using assms by (auto simp: lim_ok_def)

lemma lim_okI:
  assumes "0 < l_window l" "l_window l \<le> l_block l" "l_block l \<le> max_duration"
    "\<And>ip t. t \<in> set (attempts_of l ip) \<Longrightarrow> t \<le> now"
    "\<And>ip until t. l_blocked l ip = Some until \<Longrightarrow> t \<in> set (attempts_of l ip)
        \<Longrightarrow> t + l_block l \<le> until"
  shows "lim_ok now l"
  using assms by (auto simp: lim_ok_def)

lemma fresh_iff:
  "lim_ok now l \<Longrightarrow> time_Sub t u < l_window l \<longleftrightarrow> t - u < l_window l"
  by (rule time_Sub_less_iff) (auto dest: lim_okD simp: min_duration_def)

text \<open>A block that has ended leaves no attempt inside the window.\<close>

lemma ended_block_stale:
  assumes "lim_ok now l" and "l_blocked l ip = Some until" and "until \<le> t"
  shows "filter (\<lambda>u. t - u < l_window l) (attempts_of l ip) = []"
  using lim_okD(2) [OF assms(1)] lim_okD(5) [OF assms(1,2)] assms(3)
  by (force simp: filter_empty_conv)

lemma lim_ok_new [simp]:
  "0 < w \<Longrightarrow> w \<le> b \<Longrightarrow> b \<le> max_duration \<Longrightarrow> lim_ok now (newIPLimiter mx w b)"
  by (simp add: lim_ok_def newIPLimiter_def attempts_of_def)

lemma lim_ok_later: "lim_ok now l \<Longrightarrow> now \<le> t \<Longrightarrow> lim_ok t l"
  by (force simp: lim_ok_def)

subsection \<open>The sweep is invisible\<close>

lemma prune_fields [simp]:
  "l_max (prune now l) = l_max l" "l_window (prune now l) = l_window l"
  "l_block (prune now l) = l_block l" "l_calls (prune now l) = l_calls l"
  "l_blocked (prune now l) = prune_blocked now l"
  by (simp_all add: prune_def Let_def)

lemma attempts_prune:
  "attempts_of (prune now l) ip =
     (if prune_blocked now l ip \<noteq> None \<or> (\<exists>t \<in> set (attempts_of l ip). time_Sub now t < l_window l)
      then attempts_of l ip else [])"
  by (auto simp: attempts_of_def prune_def Let_def split: option.splits)

lemma prune_blocked_SomeD: "prune_blocked now l ip = Some u \<Longrightarrow> l_blocked l ip = Some u \<and> now < u"
  by (auto simp: prune_blocked_def split: option.splits if_splits)

lemma Blocked_prune: "Blocked (prune now l) ip t = (Blocked l ip t \<and> Blocked l ip now)"
  by (auto simp: Blocked_def prune_blocked_def split: option.splits)

lemma lim_ok_prune: "lim_ok now l \<Longrightarrow> lim_ok now (prune now l)"
  by (rule lim_okI)
    (auto dest!: prune_blocked_SomeD simp: attempts_prune lim_ok_def split: if_splits)

lemma view_prune:
  assumes ok: "lim_ok now l"
  shows "lim_view now (prune now l) ip = lim_view now l ip"
proof (cases "Blocked l ip now")
  case True
  then obtain u where "l_blocked l ip = Some u" "now < u"
    by (auto simp: Blocked_def split: option.splits)
  then show ?thesis by (simp add: lim_view_def Blocked_prune prune_blocked_def True)
next
  case False
  then have "prune_blocked now l ip = None"
    by (auto simp: Blocked_def prune_blocked_def split: option.splits)
  with False show ?thesis
    by (auto simp: lim_view_def Blocked_prune attempts_prune fresh_iff [OF ok] filter_empty_conv)
qed

lemma view_later:
  assumes ok: "lim_ok now l" and le: "now \<le> t"
  shows "lim_view t l ip = spec_later (l_window l) t (lim_view now l ip)"
proof (cases "Blocked l ip now")
  case True
  then obtain u where u: "l_blocked l ip = Some u" "now < u"
    by (auto simp: Blocked_def split: option.splits)
  show ?thesis
    using ended_block_stale [OF ok u(1), of t]
    by (auto simp: lim_view_def spec_later_def Blocked_def u not_less)
next
  case False
  moreover from this le have "\<not> Blocked l ip t"
    by (auto simp: Blocked_def split: option.splits)
  moreover have "filter (\<lambda>u. t - u < l_window l) ts =
      filter (\<lambda>u. t - u < l_window l) (filter (\<lambda>u. now - u < l_window l) ts)" for ts
    using le by (auto simp: filter_filter intro: filter_cong)
  ultimately show ?thesis by (simp add: lim_view_def spec_later_def)
qed

subsection \<open>One call\<close>

lemma attempts_upd [simp]:
  "attempts_of (l\<lparr>l_attempts := (l_attempts l)(ip \<mapsto> ts)\<rparr>) = (attempts_of l)(ip := ts)"
  "attempts_of (l\<lparr>l_blocked := b, l_attempts := (l_attempts l)(ip := None)\<rparr>) = (attempts_of l)(ip := [])"
  "attempts_of (l\<lparr>l_blocked := b\<rparr>) = attempts_of l"
  "attempts_of (l\<lparr>l_calls := c\<rparr>) = attempts_of l"
  by (auto simp: attempts_of_def fun_eq_iff)

lemma attempts_upd_blocked [simp]:
  "attempts_of (l\<lparr>l_attempts := (l_attempts l)(ip \<mapsto> ts), l_blocked := b\<rparr>) = (attempts_of l)(ip := ts)"
  by (auto simp: attempts_of_def fun_eq_iff)

text \<open>The state an attempt is recorded in: the counter moved on, the sweep done, an ended block dropped.\<close>

definition swept :: "ip_limiter \<Rightarrow> gotime \<Rightarrow> ip_limiter" where
  "swept l now =
     (let l1 = l\<lparr>l_calls := l_calls l + 1\<rparr>
      in if l_calls l1 mod pruneEvery = 0 then prune now l1 else l1)"

definition drop_ended :: "ip_limiter \<Rightarrow> string \<Rightarrow> gotime \<Rightarrow> ip_limiter" where
  "drop_ended l ip now =
     (case l_blocked l ip of
        Some until \<Rightarrow>
          if now < until then l
          else l\<lparr>l_blocked := (l_blocked l)(ip := None), l_attempts := (l_attempts l)(ip := None)\<rparr>
      | None \<Rightarrow> l)"

definition before_record :: "ip_limiter \<Rightarrow> string \<Rightarrow> gotime \<Rightarrow> ip_limiter" where
  "before_record l ip now = drop_ended (swept l now) ip now"

lemma Allow_cases:
  "Allow l0 (ip, now) =
     (let l = before_record l0 ip now
      in if Blocked l ip now then (False, l) else record_attempt l ip now)"
  by (auto simp: Allow_def before_record_def swept_def drop_ended_def Blocked_def Let_def
      split: option.splits)

lemma lim_ok_calls [simp]: "lim_ok now (l\<lparr>l_calls := c\<rparr>) = lim_ok now l"
  by (simp add: lim_ok_def)

lemma lim_view_calls [simp]: "lim_view now (l\<lparr>l_calls := c\<rparr>) = lim_view now l"
  by (simp add: lim_view_def Blocked_def fun_eq_iff)

lemma swept_fields [simp]:
  "l_max (swept l now) = l_max l" "l_window (swept l now) = l_window l"
  "l_block (swept l now) = l_block l"
  by (simp_all add: swept_def Let_def)

lemma drop_ended_fields [simp]:
  "l_max (drop_ended l ip now) = l_max l" "l_window (drop_ended l ip now) = l_window l"
  "l_block (drop_ended l ip now) = l_block l"
  by (simp_all add: drop_ended_def split: option.splits)

lemma swept_ok: "lim_ok now l \<Longrightarrow> lim_ok now (swept l now)"
  by (simp add: swept_def Let_def lim_ok_prune)

lemma swept_view: "lim_ok now l \<Longrightarrow> lim_view now (swept l now) = lim_view now l"
  by (simp add: swept_def Let_def fun_eq_iff view_prune)

lemma drop_ended_ok: "lim_ok now l \<Longrightarrow> lim_ok now (drop_ended l ip now)"
  by (auto simp: drop_ended_def lim_ok_def split: option.splits)

lemma drop_ended_view:
  assumes ok: "lim_ok now l"
  shows "lim_view now (drop_ended l ip now) = lim_view now l"
  using ended_block_stale [OF ok, of ip _ now]
  by (auto simp: drop_ended_def lim_view_def Blocked_def fun_eq_iff split: option.splits)

lemma before_record_fields [simp]:
  "l_max (before_record l ip now) = l_max l" "l_window (before_record l ip now) = l_window l"
  "l_block (before_record l ip now) = l_block l"
  by (simp_all add: before_record_def)

lemma before_record_ok: "lim_ok now l \<Longrightarrow> lim_ok now (before_record l ip now)"
  by (simp add: before_record_def swept_ok drop_ended_ok)

lemma before_record_view:
  "lim_ok now l \<Longrightarrow> lim_view now (before_record l ip now) = lim_view now l"
  by (simp add: before_record_def swept_ok swept_view drop_ended_view)

lemma record_attempt_fields [simp]:
  "l_max (snd (record_attempt l ip now)) = l_max l"
  "l_window (snd (record_attempt l ip now)) = l_window l"
  "l_block (snd (record_attempt l ip now)) = l_block l"
  by (simp_all add: record_attempt_def Let_def)

lemma before_record_unblocked:
  "\<not> Blocked (before_record l ip now) ip now \<Longrightarrow> l_blocked (before_record l ip now) ip = None"
  by (auto simp: before_record_def drop_ended_def Blocked_def split: option.splits if_splits)

lemma record_attempt_ok:
  assumes "lim_ok now l" and "l_blocked l ip = None"
  shows "lim_ok now (snd (record_attempt l ip now))"
  using assms by (force simp: lim_ok_def record_attempt_def Let_def split: if_splits)

lemma record_attempt_view:
  assumes ok: "lim_ok now l" and nb: "l_blocked l ip = None"
  shows "fst (record_attempt l ip now) = fst (spec_allow (l_max l) (l_block l) now (lim_view now l ip))
    \<and> lim_view now (snd (record_attempt l ip now)) =
        (lim_view now l)(ip := snd (spec_allow (l_max l) (l_block l) now (lim_view now l ip)))"
proof -
  have pos: "0 < l_window l" "0 < l_block l" using lim_okD(1,2) [OF ok] by auto
  have "(\<lambda>t. time_Sub now t < l_window l) = (\<lambda>t. now - t < l_window l)"
    by (simp add: fun_eq_iff fresh_iff [OF ok])
  then show ?thesis
    using pos nb
    by (auto simp: record_attempt_def Let_def lim_view_def Blocked_def spec_allow_def fun_eq_iff)
qed

lemma Allow_ok:
  assumes "lim_ok now0 l" and "now0 \<le> now"
  shows "lim_ok now (snd (Allow l (ip, now)))"
  using before_record_ok [OF lim_ok_later [OF assms], of ip] before_record_unblocked [of l ip now]
    record_attempt_ok
  by (auto simp: Allow_cases Let_def)

lemma Allow_fields [simp]:
  "l_max (snd (Allow l c)) = l_max l" "l_window (snd (Allow l c)) = l_window l"
  "l_block (snd (Allow l c)) = l_block l"
  by (cases c, simp add: Allow_cases Let_def)+

text \<open>Functional refinement of one call.\<close>

lemma Allow_refines:
  assumes ok: "lim_ok now0 l" and le: "now0 \<le> now"
  shows "fst (Allow l (ip, now)) = fst (spec_allow (l_max l) (l_block l) now (lim_view now l ip))"
    and "lim_view now (snd (Allow l (ip, now))) =
        (lim_view now l)(ip := snd (spec_allow (l_max l) (l_block l) now (lim_view now l ip)))"
proof -
  let ?b = "before_record l ip now"
  have ok': "lim_ok now ?b" using before_record_ok [OF lim_ok_later [OF ok le]] .
  have v: "lim_view now ?b = lim_view now l"
    by (rule before_record_view [OF lim_ok_later [OF ok le]])
  have main: "fst (Allow l (ip, now)) = fst (spec_allow (l_max l) (l_block l) now (lim_view now ?b ip))
    \<and> lim_view now (snd (Allow l (ip, now))) =
        (lim_view now ?b)(ip := snd (spec_allow (l_max l) (l_block l) now (lim_view now ?b ip)))"
  proof (cases "Blocked ?b ip now")
    case True
    then show ?thesis by (auto simp: Allow_cases Let_def spec_allow_def lim_view_def fun_eq_iff)
  next
    case False
    from record_attempt_view [OF ok' before_record_unblocked [OF False]] False show ?thesis
      by (simp add: Allow_cases Let_def)
  qed
  from main show "fst (Allow l (ip, now)) = fst (spec_allow (l_max l) (l_block l) now (lim_view now l ip))"
    by (simp add: v)
  from main show "lim_view now (snd (Allow l (ip, now))) =
        (lim_view now l)(ip := snd (spec_allow (l_max l) (l_block l) now (lim_view now l ip)))"
    by (simp add: v)
qed

subsection \<open>Sequences of calls\<close>

text \<open>The limiter together with the instant of its last call, and the abstract limiter.\<close>

definition timed_Allow :: "gotime \<times> ip_limiter \<Rightarrow> string \<times> gotime \<Rightarrow> bool \<times> (gotime \<times> ip_limiter)" where
  "timed_Allow s c = (let (r, l') = Allow (snd s) c in (r, (snd c, l')))"

definition spec_step ::
  "int \<Rightarrow> duration \<Rightarrow> duration \<Rightarrow> (string \<Rightarrow> addr_view) \<Rightarrow> string \<times> gotime
     \<Rightarrow> bool \<times> (string \<Rightarrow> addr_view)" where
  "spec_step mx window block vs c =
     (let (ip, now) = c; vs' = (\<lambda>a. spec_later window now (vs a));
          (r, v') = spec_allow mx block now (vs' ip)
      in (r, vs'(ip := v')))"

definition in_order :: "gotime \<times> ip_limiter \<Rightarrow> string \<times> gotime \<Rightarrow> bool" where
  "in_order s c \<longleftrightarrow> fst s \<le> snd c"

interpretation limiter: refined_object
  "\<lambda>s. lim_ok (fst s) (snd s) \<and> l_max (snd s) = mx \<and> l_window (snd s) = w \<and> l_block (snd s) = b"
  "\<lambda>s. lim_view (fst s) (snd s)" in_order timed_Allow "spec_step mx w b"
  for mx w b
proof (unfold_locales, goal_cases)
  case (1 s c)
  then show ?case
    using Allow_ok [of "fst s" "snd s" "snd c" "fst c"]
    by (simp add: timed_Allow_def in_order_def split_beta)
next
  case (2 s c)
  then show ?case
    using Allow_refines(1) [of "fst s" "snd s" "snd c" "fst c"] view_later [of "fst s" "snd s" "snd c"]
    by (simp add: timed_Allow_def in_order_def spec_step_def split_beta)
next
  case (3 s c)
  then show ?case
    using Allow_refines(2) [of "fst s" "snd s" "snd c" "fst c"] view_later [of "fst s" "snd s" "snd c"]
    by (simp add: timed_Allow_def in_order_def spec_step_def split_beta fun_eq_iff)
qed

lemma run_timed_Allow:
  "fst (run_calls timed_Allow (now, l) cs) = fst (run_calls Allow l cs)"
  by (induction cs arbitrary: now l) (simp_all add: timed_Allow_def split_beta)

fun times_from :: "gotime \<Rightarrow> (string \<times> gotime) list \<Rightarrow> bool" where
  "times_from now [] = True"
| "times_from now (c # cs) = (now \<le> snd c \<and> times_from (snd c) cs)"

lemma admissible_times [simp]:
  "admissible in_order timed_Allow (now, l) cs = times_from now cs"
  by (induction cs arbitrary: now l) (simp_all add: in_order_def timed_Allow_def split_beta)

text \<open>Clock readings of successive calls never go backwards.\<close>

lemma run_Allow_refines:
  assumes "lim_ok now l" and "times_from now cs"
  shows "fst (run_calls Allow l cs) =
    fst (run_calls (spec_step (l_max l) (l_window l) (l_block l)) (lim_view now l) cs)"
  using limiter.run_refines(1) [of "(now, l)" "l_max l" "l_window l" "l_block l" cs] assms
  by (simp add: run_timed_Allow)

lemma prune_same_results:
  assumes ok: "lim_ok now l" and "times_from now cs"
  shows "fst (run_calls Allow (prune now l) cs) = fst (run_calls Allow l cs)"
proof -
  have "lim_view now (prune now l) = lim_view now l" by (simp add: fun_eq_iff view_prune [OF ok])
  with assms show ?thesis
    using run_Allow_refines [OF lim_ok_prune [OF ok]] run_Allow_refines [OF ok] by simp
qed

subsection \<open>At most \<open>l_max\<close> permitted attempts in any window\<close>

definition permitted :: "string \<Rightarrow> (string \<times> gotime) list \<Rightarrow> bool list \<Rightarrow> gotime list" where
  "permitted ip cs rs = map (snd \<circ> fst) (filter (\<lambda>(c, r). fst c = ip \<and> r) (zip cs rs))"

definition in_window :: "duration \<Rightarrow> gotime \<Rightarrow> gotime list \<Rightarrow> nat" where
  "in_window w t hs = length (filter (\<lambda>h. t - w < h \<and> h \<le> t) hs)"

definition since :: "duration \<Rightarrow> gotime \<Rightarrow> gotime list \<Rightarrow> nat" where
  "since w t hs = length (filter (\<lambda>h. t - h < w) hs)"

text \<open>
  What the history of permitted attempts of one address and its abstract state have in common:
  no window of the past holds too many, a block started at least \<open>b\<close> before it ends, and every
  permitted attempt that is still recent is still recorded.
\<close>

definition hist_ok :: "int \<Rightarrow> duration \<Rightarrow> duration \<Rightarrow> gotime \<Rightarrow> addr_view \<Rightarrow> gotime list \<Rightarrow> bool" where
  "hist_ok mx w b now v hs \<longleftrightarrow>
     (\<forall>h \<in> set hs. h \<le> now) \<and> (\<forall>t. int (in_window w t hs) \<le> mx) \<and>
     (case v of Inl until \<Rightarrow> \<forall>h \<in> set hs. h + b \<le> until
              | Inr ts \<Rightarrow> \<forall>t \<ge> now. since w t hs \<le> since w t ts)"

lemma since_filter:
  "now \<le> t \<Longrightarrow> since w t (filter (\<lambda>u. now - u < w) ts) = since w t ts"
  unfolding since_def filter_filter
  by (rule arg_cong [where f = length], rule filter_cong) auto

lemma hist_ok_later:
  assumes "hist_ok mx w b now0 v hs" and "now0 \<le> now" and "w \<le> b"
  shows "hist_ok mx w b now (spec_later w now v) hs"
proof (cases v)
  case (Inl until)
  have "since w t hs = 0" if "until \<le> now" "now \<le> t" for t
    using assms Inl that by (force simp: hist_ok_def since_def filter_empty_conv)
  then show ?thesis using assms Inl
    by (fastforce simp: hist_ok_def spec_later_def not_less)
next
  case (Inr ts)
  with assms show ?thesis
    by (fastforce simp: hist_ok_def spec_later_def since_filter)
qed

lemma in_window_recent:
  assumes "\<forall>h \<in> set hs. h \<le> now" and "now \<le> t"
  shows "in_window w t hs \<le> since w now hs"
  unfolding in_window_def since_def
  using assms by (induction hs) auto

lemma hist_ok_step:
  assumes ok: "hist_ok mx w b now v hs" and pos: "0 < w" "w \<le> b"
    and r: "spec_allow mx b now v = (r, v')"
  shows "hist_ok mx w b now v' (if r then hs @ [now] else hs)"
proof (cases v)
  case (Inl until)
  with r ok show ?thesis by (auto simp: spec_allow_def)
next
  case (Inr ts)
  from ok have past: "\<forall>h \<in> set hs. h \<le> now" and win: "\<And>t. int (in_window w t hs) \<le> mx"
    and rec: "\<And>t. now \<le> t \<Longrightarrow> since w t hs \<le> since w t ts"
    by (auto simp: hist_ok_def Inr)
  show ?thesis
  proof (cases r)
    case False
    with r Inr have "v' = Inl (now + b)" by (auto simp: spec_allow_def split: if_splits)
    with past win False show ?thesis by (auto simp: hist_ok_def)
  next
    case True
    with r Inr have v': "v' = Inr (ts @ [now])" and le: "int (length ts) + 1 \<le> mx"
      by (auto simp: spec_allow_def split: if_splits)
    have "int (in_window w t (hs @ [now])) \<le> mx" for t
    proof (cases "now \<le> t")
      case True
      have "in_window w t (hs @ [now]) \<le> Suc (in_window w t hs)" by (simp add: in_window_def)
      also have "\<dots> \<le> Suc (since w now ts)"
        using in_window_recent [OF past True, of w] rec [of now] by simp
      also have "\<dots> \<le> Suc (length ts)" by (simp add: since_def)
      finally show ?thesis using le by linarith
    next
      case False
      then show ?thesis using win [of t] by (simp add: in_window_def)
    qed
    moreover have "since w t (hs @ [now]) \<le> since w t (ts @ [now])" if "now \<le> t" for t
      using rec [OF that] by (simp add: since_def)
    ultimately show ?thesis using True past by (auto simp: hist_ok_def v')
  qed
qed

lemma permitted_Cons:
  "permitted ip (c # cs) (r # rs) = (if fst c = ip \<and> r then [snd c] else []) @ permitted ip cs rs"
  by (simp add: permitted_def)

lemma spec_run_hist:
  assumes "hist_ok mx w b now (vs ip) hs" and "0 < w" "w \<le> b" and "times_from now cs"
  shows "int (in_window w t (hs @ permitted ip cs (fst (run_calls (spec_step mx w b) vs cs)))) \<le> mx"
  using assms
proof (induction cs arbitrary: now vs hs)
  case Nil
  then show ?case by (simp add: permitted_def hist_ok_def)
next
  case (Cons c cs)
  obtain a u where c: "c = (a, u)" by force
  let ?v = "spec_later w u (vs ip)"
  obtain r v' where rv: "spec_allow mx b u (spec_later w u (vs a)) = (r, v')" by force
  define VS where "VS = (\<lambda>x. spec_later w u (vs x))(a := v')"
  have later: "hist_ok mx w b u ?v hs"
    using Cons.prems by (intro hist_ok_later [of _ _ _ now]) (auto simp: c)
  have "spec_step mx w b vs c = (r, VS)" by (simp add: c spec_step_def rv VS_def)
  then have run: "fst (run_calls (spec_step mx w b) vs (c # cs)) =
      r # fst (run_calls (spec_step mx w b) VS cs)"
    by (simp add: split_beta)
  have times: "times_from u cs" using Cons.prems by (simp add: c)
  show ?case
  proof (cases "a = ip")
    case True
    then have "hist_ok mx w b u (VS ip) (if r then hs @ [u] else hs)"
      using hist_ok_step [OF later Cons.prems(2,3), of r v'] rv by (simp add: VS_def)
    from Cons.IH [where vs = VS, OF this Cons.prems(2,3) times] show ?thesis
      unfolding run by (cases r) (simp_all add: permitted_Cons c True)
  next
    case False
    with later have "hist_ok mx w b u (VS ip) hs" by (simp add: VS_def)
    from Cons.IH [where vs = VS, OF this Cons.prems(2,3) times] show ?thesis
      unfolding run using False by (simp add: permitted_Cons c)
  qed
qed

subsection \<open>Properties\<close>

text \<open>
  C14: in any sequence of calls made with a clock that does not go backwards, no time window of
  length \<^verbatim>\<open>window\<close> holds more than \<^verbatim>\<open>max\<close> permitted attempts of one address, wherever the
  window ends, provided a block lasts at least one window (as every limiter of
  \<^verbatim>\<open>internal/api/server.go\<close> is built).
\<close>

theorem limiter_window_bound:
  assumes "0 \<le> mx" "0 < w" "w \<le> b" "b \<le> max_duration" and "times_from now cs"
  shows "int (in_window w t
      (permitted ip cs (fst (run_calls Allow (newIPLimiter mx w b) cs)))) \<le> mx"
proof -
  let ?l = "newIPLimiter mx w b"
  have f: "l_max ?l = mx" "l_window ?l = w" "l_block ?l = b" by (simp_all add: newIPLimiter_def)
  have "lim_view now ?l ip = Inr []"
    by (simp add: lim_view_def Blocked_def newIPLimiter_def attempts_of_def)
  then have "hist_ok mx w b now (lim_view now ?l ip) []"
    using assms(1) by (simp add: hist_ok_def in_window_def)
  from spec_run_hist [where vs = "lim_view now ?l", OF this assms(2,3,5)] show ?thesis
    using run_Allow_refines [OF lim_ok_new [OF assms(2,3,4), of now mx] assms(5)] by (simp add: f)
qed

theorem limiter_window_bound_witness:
  "times_from 0 [(''a'', 1), (''a'', 2), (''a'', 3)] \<and>
   fst (run_calls Allow (newIPLimiter 2 10 10) [(''a'', 1), (''a'', 2), (''a'', 3)]) = [True, True, False] \<and>
   int (in_window 10 3 (permitted ''a'' [(''a'', 1), (''a'', 2), (''a'', 3)]
     (fst (run_calls Allow (newIPLimiter 2 10 10) [(''a'', 1), (''a'', 2), (''a'', 3)])))) \<le> 2"
proof -
  have b: "(10::int) \<le> max_duration" by (simp add: max_duration_def)
  have t: "times_from 0 [(''a'', 1), (''a'', 2), (''a'', 3)]" by simp
  show ?thesis
    using t limiter_window_bound [OF _ _ _ b t, of 2 10 3 "''a''"]
    by (simp add: Allow_def newIPLimiter_def record_attempt_def attempts_of_def pruneEvery_def
        time_Sub_def max_duration_def min_duration_def)
qed



end
