(* ===== verification/Calendar.thy ===== *)
theory Calendar
  imports Prelude
begin

text \<open>
  The UTC calendar of Go's package \<^verbatim>\<open>time\<close>, as far as the quota periods of
  \<^verbatim>\<open>internal/domain/types.go\<close> use it: the date of an instant, \<^verbatim>\<open>time.Date\<close> with its
  normalisation of out-of-range months and days, \<^verbatim>\<open>Time.AddDate\<close> and \<^verbatim>\<open>Time.Weekday\<close>, on
  the proleptic Gregorian calendar. Days are counted from January 1, 1970. The main facts are
  that dates and day numbers convert into each other without loss.
\<close>

definition day_ns :: int where
  "day_ns = 24 * Hour"

definition epoch_days :: int where
  "epoch_days = 719162"

definition leap_year :: "int \<Rightarrow> bool" where
  "leap_year y \<longleftrightarrow> y mod 4 = 0 \<and> (y mod 100 \<noteq> 0 \<or> y mod 400 = 0)"

text \<open>Days from January 1 of year 1 to January 1 of year \<open>y\<close>.\<close>

definition year_start :: "int \<Rightarrow> int" where
  "year_start y = 365 * (y - 1) + (y - 1) div 4 - (y - 1) div 100 + (y - 1) div 400"

definition days_before_month :: "int \<Rightarrow> int \<Rightarrow> int" where
  "days_before_month y m =
     [0, 31, 59, 90, 120, 151, 181, 212, 243, 273, 304, 334, 365] ! nat (m - 1)
       + (if leap_year y \<and> 2 < m then 1 else 0)"

definition year_of :: "int \<Rightarrow> int" where
  "year_of n =
     (let e = (400 * n) div 146097 + 1
      in if year_start (e + 1) \<le> n then e + 1 else if year_start e \<le> n then e else e - 1)"

definition month_of :: "int \<Rightarrow> int \<Rightarrow> int" where
  "month_of y yday = int (length (takeWhile (\<lambda>m. days_before_month y m \<le> yday) [1..12]))"

text \<open>\<^verbatim>\<open>Year()\<close>, \<^verbatim>\<open>Month()\<close> and \<^verbatim>\<open>Day()\<close> of a day.\<close>

definition civil_year :: "int \<Rightarrow> int" where
  "civil_year d = year_of (d + epoch_days)"

definition civil_month :: "int \<Rightarrow> int" where
  "civil_month d = month_of (civil_year d) (d + epoch_days - year_start (civil_year d))"

definition civil_day :: "int \<Rightarrow> int" where
  "civil_day d =
     d + epoch_days - year_start (civil_year d) - days_before_month (civil_year d) (civil_month d) + 1"

text \<open>The day of \<^verbatim>\<open>time.Date(y, m, d, ...)\<close>: the month is normalised first, then the days are added.\<close>

definition date_day :: "int \<Rightarrow> int \<Rightarrow> int \<Rightarrow> int" where
  "date_day y m d =
     (let y' = y + (m - 1) div 12; m' = (m - 1) mod 12 + 1
      in year_start y' + days_before_month y' m' + (d - 1) - epoch_days)"

definition time_day :: "gotime \<Rightarrow> int" where
  "time_day t = t div day_ns"

definition time_clock :: "gotime \<Rightarrow> duration" where
  "time_clock t = t mod day_ns"

definition midnight :: "int \<Rightarrow> gotime" where
  "midnight d = d * day_ns"

definition time_Date :: "int \<Rightarrow> int \<Rightarrow> int \<Rightarrow> gotime" where
  "time_Date y m d = midnight (date_day y m d)"

definition AddDate :: "gotime \<Rightarrow> int \<Rightarrow> int \<Rightarrow> int \<Rightarrow> gotime" where
  "AddDate t years months days =
     (let n = time_day t
      in midnight (date_day (civil_year n + years) (civil_month n + months) (civil_day n + days))
           + time_clock t)"

text \<open>\<^verbatim>\<open>Weekday()\<close>: Sunday is 0; January 1, 1970 was a Thursday.\<close>

definition Weekday :: "int \<Rightarrow> int" where
  "Weekday n = (n + 4) mod 7"

subsection \<open>Years\<close>

lemma div_bounds: "0 < (k::int) \<Longrightarrow> k * (x div k) \<le> x \<and> x < k * (x div k) + k"
  using mult_div_mod_eq [of k x] pos_mod_bound [of k x] pos_mod_sign [of k x] by linarith

lemma year_start_bounds:
  "400 * year_start y \<le> 146097 * (y - 1) + 400" "146097 * (y - 1) - 800 < 400 * year_start y"
  using div_bounds [of 4 "y - 1"] div_bounds [of 100 "y - 1"] div_bounds [of 400 "y - 1"]
  by (simp_all add: year_start_def)

definition year_len :: "int \<Rightarrow> int" where
  "year_len y = (if leap_year y then 366 else 365)"

lemma div_Suc_int:
  assumes k: "0 < (k::int)"
  shows "y div k = (y - 1) div k + (if y mod k = 0 then 1 else 0)"
proof (cases "y mod k = 0")
  case True
  have "y - 1 = k * (y div k - 1) + (k - 1)"
    using mult_div_mod_eq [of k y] True unfolding right_diff_distrib by linarith
  moreover have "0 \<le> k - 1" "k - 1 < k" using k by simp_all
  ultimately have "(y - 1) div k = y div k - 1" by (rule int_div_pos_eq)
  with True show ?thesis by simp
next
  case False
  have "y - 1 = k * (y div k) + (y mod k - 1)" using mult_div_mod_eq [of k y] by simp
  moreover have "0 \<le> y mod k - 1" "y mod k - 1 < k"
    using False pos_mod_sign [OF k, of y] pos_mod_bound [OF k, of y] by linarith+
  ultimately have "(y - 1) div k = y div k" by (rule int_div_pos_eq)
  with False show ?thesis by simp
qed

lemma leap_year_cases:
  "leap_year y \<longleftrightarrow> y mod 4 = 0 \<and> (y mod 100 = 0 \<longrightarrow> y mod 400 = 0)"
  by (auto simp: leap_year_def)

lemma mod_chain: "(y::int) mod 400 = 0 \<Longrightarrow> y mod 100 = 0" "(y::int) mod 100 = 0 \<Longrightarrow> y mod 4 = 0"
  by presburger+

lemma shift_sum:
  fixes a b c :: int
  assumes "a = a' + p" "b = b' + q" "c = c' + r"
  shows "365 * y + a - b + c = 365 * (y - 1) + a' - b' + c' + 365 + p - q + r"
  using assms by simp

lemma leap_sum:
  fixes x :: int
  assumes "C \<Longrightarrow> B" "B \<Longrightarrow> A"
  shows "x + 365 + (if A then 1 else 0) - (if B then 1 else 0) + (if C then 1 else 0) =
    x + (if A \<and> (\<not> B \<or> C) then 366 else 365)"
  using assms by auto

lemma year_start_Suc: "year_start (y + 1) = year_start y + year_len y"
proof -
  have "year_start (y + 1) = 365 * y + y div 4 - y div 100 + y div 400"
    by (simp add: year_start_def)
  also have "\<dots> = year_start y + 365 + (if y mod 4 = 0 then 1 else 0)
      - (if y mod 100 = 0 then 1 else 0) + (if y mod 400 = 0 then 1 else 0)"
    unfolding year_start_def by (rule shift_sum; rule div_Suc_int; simp)
  also have "\<dots> = year_start y + year_len y"
    unfolding year_len_def leap_year_def by (rule leap_sum) (rule mod_chain, assumption)+
  finally show ?thesis .
qed

lemma year_of_correct: "year_start (year_of n) \<le> n" "n < year_start (year_of n + 1)"
proof -
  define e where "e = (400 * n) div 146097 + 1"
  have e: "146097 * (e - 1) \<le> 400 * n" "400 * n < 146097 * e"
    using div_bounds [of 146097 "400 * n"] by (simp_all add: e_def)
  have "year_start (e - 1) \<le> n" using e year_start_bounds(1) [of "e - 1"] by (simp add: algebra_simps)
  moreover have "n < year_start (e + 1 + 1)"
    using e year_start_bounds(2) [of "e + 1 + 1"] by (simp add: algebra_simps)
  ultimately show "year_start (year_of n) \<le> n" "n < year_start (year_of n + 1)"
    by (simp_all add: year_of_def e_def [symmetric] Let_def)
qed

lemma year_start_mono: "y \<le> y' \<Longrightarrow> year_start y \<le> year_start y'"
proof (induction y' rule: int_ge_induct)
  case (step i)
  then show ?case by (simp add: year_start_Suc year_len_def)
qed simp

lemma year_of_unique:
  assumes "year_start y \<le> n" "n < year_start (y + 1)"
  shows "year_of n = y"
proof (rule ccontr)
  assume "year_of n \<noteq> y"
  then consider "year_of n + 1 \<le> y" | "y + 1 \<le> year_of n" by linarith
  then show False
    using year_of_correct [of n] assms
      year_start_mono [of "year_of n + 1" y] year_start_mono [of "y + 1" "year_of n"]
    by cases linarith+
qed

subsection \<open>Months\<close>

lemma month_range_cases:
  assumes "1 \<le> (m::int)" "m \<le> 12"
  shows "m = 1 \<or> m = 2 \<or> m = 3 \<or> m = 4 \<or> m = 5 \<or> m = 6 \<or> m = 7 \<or> m = 8 \<or> m = 9
    \<or> m = 10 \<or> m = 11 \<or> m = 12"
  using assms by presburger

lemma days_before_month_ends [simp]:
  "days_before_month y 1 = 0" "days_before_month y 13 = year_len y"
  by (simp_all add: days_before_month_def year_len_def)

lemma days_before_month_step:
  assumes "1 \<le> m" "m \<le> 12"
  shows "days_before_month y m + 28 \<le> days_before_month y (m + 1)"
  using month_range_cases [OF assms]
  by (elim disjE) (simp_all add: days_before_month_def nat_numeral)

lemma days_before_month_mono:
  "m \<le> m' \<Longrightarrow> 1 \<le> m \<Longrightarrow> m' \<le> 13 \<Longrightarrow> days_before_month y m \<le> days_before_month y m'"
proof (induction m' rule: int_ge_induct)
  case (step i)
  then show ?case using days_before_month_step [of i y] by simp
qed simp

lemma length_takeWhile_upto:
  assumes "f 1 \<le> (x::int)" "x < f 13"
  defines "n \<equiv> int (length (takeWhile (\<lambda>m. f m \<le> x) [1..12]))"
  shows "1 \<le> n" "n \<le> 12" "f n \<le> x" "x < f (n + 1)"
proof -
  let ?k = "length (takeWhile (\<lambda>m. f m \<le> x) [1..12::int])"
  have nth: "[1..12::int] ! i = int i + 1" if "i < 12" for i
    using that by (simp add: nth_upto)
  have le: "?k \<le> 12" using length_takeWhile_le [of "\<lambda>m. f m \<le> x" "[1..12::int]"] by simp
  then show "n \<le> 12" by (simp add: n_def)
  have "[1..12::int] = 1 # [2..12]" by (simp add: upto_rec1)
  then have "0 < ?k" using assms(1) by simp
  then show "1 \<le> n" unfolding n_def by linarith
  have "takeWhile (\<lambda>m. f m \<le> x) [1..12::int] ! (?k - 1) \<in> set (takeWhile (\<lambda>m. f m \<le> x) [1..12::int])"
    using \<open>0 < ?k\<close> by (intro nth_mem) simp
  then have "f (takeWhile (\<lambda>m. f m \<le> x) [1..12::int] ! (?k - 1)) \<le> x"
    by (auto dest: set_takeWhileD)
  moreover have "takeWhile (\<lambda>m. f m \<le> x) [1..12::int] ! (?k - 1) = n"
  proof -
    have "takeWhile (\<lambda>m. f m \<le> x) [1..12::int] ! (?k - 1) = int (?k - 1) + 1"
      using \<open>0 < ?k\<close> le nth [of "?k - 1"] by (subst takeWhile_nth) simp_all
    also have "\<dots> = n" using \<open>0 < ?k\<close> unfolding n_def by linarith
    finally show ?thesis .
  qed
  ultimately show "f n \<le> x" by simp
  show "x < f (n + 1)"
  proof (cases "?k = 12")
    case True
    then show ?thesis using assms(2) by (simp add: n_def)
  next
    case False
    with le have "?k < 12" by simp
    then have "\<not> f ([1..12::int] ! ?k) \<le> x"
      by (intro nth_length_takeWhile) simp
    with \<open>?k < 12\<close> show ?thesis by (simp add: nth n_def add.commute)
  qed
qed

lemma month_of_correct:
  assumes "0 \<le> yday" "yday < year_len y"
  shows "1 \<le> month_of y yday" "month_of y yday \<le> 12"
    "days_before_month y (month_of y yday) \<le> yday"
    "yday < days_before_month y (month_of y yday + 1)"
  using length_takeWhile_upto [of "days_before_month y" yday] assms
  by (simp_all add: month_of_def)

lemma month_of_unique:
  assumes "1 \<le> m" "m \<le> 12" "days_before_month y m \<le> yday" "yday < days_before_month y (m + 1)"
    "0 \<le> yday" "yday < year_len y"
  shows "month_of y yday = m"
proof (rule ccontr)
  let ?k = "month_of y yday"
  note c = month_of_correct [OF assms(5,6)]
  assume "?k \<noteq> m"
  then consider "?k + 1 \<le> m" | "m + 1 \<le> ?k" by linarith
  then show False
  proof cases
    case 1
    with c assms show ?thesis using days_before_month_mono [of "?k + 1" m y] by simp
  next
    case 2
    with c assms show ?thesis using days_before_month_mono [of "m + 1" ?k y] by simp
  qed
qed

subsection \<open>Dates and day numbers\<close>

definition month_len :: "int \<Rightarrow> int \<Rightarrow> int" where
  "month_len y m = days_before_month y (m + 1) - days_before_month y m"

lemma civil_yday: "0 \<le> d + epoch_days - year_start (civil_year d)"
  "d + epoch_days - year_start (civil_year d) < year_len (civil_year d)"
  using year_of_correct [of "d + epoch_days"] by (simp_all add: civil_year_def year_start_Suc)

lemmas civil_month_facts = month_of_correct [OF civil_yday, folded civil_month_def]

lemma civil_month_range: "1 \<le> civil_month d" "civil_month d \<le> 12"
  by (rule civil_month_facts)+

lemma civil_day_range: "1 \<le> civil_day d" "civil_day d \<le> month_len (civil_year d) (civil_month d)"
  using civil_month_facts(3,4) [of d] by (simp_all add: civil_day_def month_len_def)

lemma date_day_in_range:
  assumes "1 \<le> m" "m \<le> 12"
  shows "date_day y m d = year_start y + days_before_month y m + (d - 1) - epoch_days"
proof -
  have "(m - 1) div 12 = 0" "(m - 1) mod 12 = m - 1"
    using assms by (simp_all add: div_pos_pos_trivial mod_pos_pos_trivial)
  then show ?thesis by (simp add: date_day_def)
qed

text \<open>A day number survives the trip through its date.\<close>

lemma date_day_civil: "date_day (civil_year d) (civil_month d) (civil_day d + k) = d + k"
  by (simp add: date_day_in_range civil_month_range civil_day_def)

text \<open>And a date survives the trip through its day number.\<close>

lemma civil_date_day:
  assumes m: "1 \<le> m" "m \<le> 12" and d: "1 \<le> d" "d \<le> month_len y m"
  shows "civil_year (date_day y m d) = y" "civil_month (date_day y m d) = m"
    "civil_day (date_day y m d) = d"
proof -
  let ?n = "date_day y m d"
  have n: "?n + epoch_days = year_start y + (days_before_month y m + (d - 1))"
    by (simp add: date_day_in_range [OF m])
  have lo: "0 \<le> days_before_month y m" using days_before_month_mono [of 1 m y] m by simp
  have hi: "days_before_month y (m + 1) \<le> year_len y"
    using days_before_month_mono [of "m + 1" 13 y] m by simp
  show y: "civil_year ?n = y"
    unfolding civil_year_def n using lo hi d
    by (intro year_of_unique) (simp_all add: year_start_Suc month_len_def)
  show mm: "civil_month ?n = m"
    unfolding civil_month_def y n using m lo hi d
    by (intro month_of_unique) (simp_all add: month_len_def)
  show "civil_day ?n = d" unfolding civil_day_def y mm n by simp
qed

lemma month_len_ge: "1 \<le> m \<Longrightarrow> m \<le> 12 \<Longrightarrow> 28 \<le> month_len y m"
  using days_before_month_step [of m y] by (simp add: month_len_def)

text \<open>The first of the next month is one month length later, across the end of the year too.\<close>

lemma date_day_next_month:
  assumes "1 \<le> m" "m \<le> 12"
  shows "date_day y (m + 1) 1 = date_day y m 1 + month_len y m"
proof (cases "m = 12")
  case True
  then show ?thesis
    by (simp add: date_day_def month_len_def year_start_Suc days_before_month_def year_len_def)
next
  case False
  with assms show ?thesis by (simp add: date_day_in_range month_len_def)
qed

lemma day_ns_pos [simp]: "0 < day_ns" "day_ns \<noteq> 0"
  by (simp_all add: day_ns_def duration_units)

lemma time_split: "t = midnight (time_day t) + time_clock t"
  by (simp add: midnight_def time_day_def time_clock_def mult.commute)

lemma time_clock_range: "0 \<le> time_clock t" "time_clock t < day_ns"
  by (simp_all add: time_clock_def)

lemma time_day_midnight [simp]: "time_day (midnight d) = d" "time_clock (midnight d) = 0"
  using day_ns_pos by (simp_all add: time_day_def time_clock_def midnight_def)

lemma midnight_add: "midnight (d + k) = midnight d + k * day_ns"
  by (simp add: midnight_def distrib_right)

lemma midnight_le_iff: "midnight d \<le> t \<longleftrightarrow> d \<le> time_day t"
proof
  assume "midnight d \<le> t"
  from zdiv_mono1 [OF this day_ns_pos(1)] show "d \<le> time_day t"
    by (simp add: midnight_def time_day_def)
next
  assume "d \<le> time_day t"
  then have "midnight d \<le> midnight (time_day t)"
    by (simp add: midnight_def mult_right_mono less_imp_le)
  also have "\<dots> \<le> t" using time_split [of t] time_clock_range(1) [of t] by linarith
  finally show "midnight d \<le> t" .
qed

lemma less_midnight_iff: "t < midnight d \<longleftrightarrow> time_day t < d"
  using midnight_le_iff [of d t] by linarith

end
