(* ===== verification/Go_Strings.thy ===== *)
theory Go_Strings
  imports Prelude
begin

text \<open>
  The helpers of package \<^verbatim>\<open>strings\<close> the sources use, on Go strings, which are byte sequences
  (UTF-8): a \<open>char\<close> is a byte. \<open>TrimSpace\<close> removes the white space of
  \<^verbatim>\<open>unicode.IsSpace\<close>, whose members beyond ASCII are two or three bytes long.
\<close>

definition ascii_space :: "char \<Rightarrow> bool" where
  "ascii_space c \<longleftrightarrow> (let n = of_char c :: nat in 9 \<le> n \<and> n \<le> 13 \<or> n = 32)"

definition bytes :: "nat list \<Rightarrow> string" where
  "bytes ns = map char_of ns"

text \<open>
  U+0085, U+00A0, U+1680, U+2000 to U+200A, U+2028, U+2029, U+202F, U+205F and U+3000 in UTF-8.
\<close>

definition wide_spaces :: "string list" where
  "wide_spaces =
     map bytes ([[194, 133], [194, 160], [225, 154, 128]]
       @ map (\<lambda>b. [226, 128, b]) ([128..<139] @ [168, 169, 175])
       @ [[226, 129, 159], [227, 128, 128]])"

definition space_prefix :: "string \<Rightarrow> nat" where
  "space_prefix s =
     (case s of [] \<Rightarrow> 0
      | c # _ \<Rightarrow>
          if ascii_space c then 1
          else (case filter (\<lambda>w. take (length w) s = w) wide_spaces of [] \<Rightarrow> 0 | w # _ \<Rightarrow> length w))"

function trim_left :: "string \<Rightarrow> string" where
  "trim_left s = (if space_prefix s = 0 \<or> s = [] then s else trim_left (drop (space_prefix s) s))"
  by pat_completeness auto
termination
  by (relation "measure length") auto

declare trim_left.simps [simp del]

definition space_suffix :: "string \<Rightarrow> nat" where
  "space_suffix s =
     (case rev s of [] \<Rightarrow> 0
      | c # _ \<Rightarrow>
          if ascii_space c then 1
          else (case filter (\<lambda>w. length w \<le> length s \<and> drop (length s - length w) s = w) wide_spaces
                of [] \<Rightarrow> 0 | w # _ \<Rightarrow> length w))"

function trim_right :: "string \<Rightarrow> string" where
  "trim_right s =
     (if space_suffix s = 0 \<or> s = [] then s else trim_right (take (length s - space_suffix s) s))"
  by pat_completeness auto
termination
  by (relation "measure length") auto

declare trim_right.simps [simp del]

definition TrimSpace :: "string \<Rightarrow> string" where
  "TrimSpace s = trim_right (trim_left s)"

definition HasPrefix :: "string \<Rightarrow> string \<Rightarrow> bool" where
  "HasPrefix s p \<longleftrightarrow> take (length p) s = p"

definition HasSuffix :: "string \<Rightarrow> string \<Rightarrow> bool" where
  "HasSuffix s p \<longleftrightarrow> length p \<le> length s \<and> drop (length s - length p) s = p"

definition TrimPrefix :: "string \<Rightarrow> string \<Rightarrow> string" where
  "TrimPrefix s p = (if HasPrefix s p then drop (length p) s else s)"

definition TrimSuffix :: "string \<Rightarrow> string \<Rightarrow> string" where
  "TrimSuffix s p = (if HasSuffix s p then take (length s - length p) s else s)"

text \<open>\<^verbatim>\<open>strings.Split\<close> with a one-byte separator.\<close>

fun split_on :: "char \<Rightarrow> string \<Rightarrow> string list" where
  "split_on sep [] = [[]]"
| "split_on sep (c # s) =
     (if c = sep then [] # split_on sep s
      else (case split_on sep s of [] \<Rightarrow> [[c]] | w # ws \<Rightarrow> (c # w) # ws))"

fun join_with :: "char \<Rightarrow> string list \<Rightarrow> string" where
  "join_with sep [] = []"
| "join_with sep [w] = w"
| "join_with sep (w # v # ws) = w @ sep # join_with sep (v # ws)"

definition lower_ascii :: "char \<Rightarrow> char" where
  "lower_ascii c = (let n = of_char c :: nat in if 65 \<le> n \<and> n \<le> 90 then char_of (n + 32) else c)"

definition is_digit :: "char \<Rightarrow> bool" where
  "is_digit c \<longleftrightarrow> (let n = of_char c :: nat in 48 \<le> n \<and> n \<le> 57)"

definition is_lower :: "char \<Rightarrow> bool" where
  "is_lower c \<longleftrightarrow> (let n = of_char c :: nat in 97 \<le> n \<and> n \<le> 122)"

definition is_upper :: "char \<Rightarrow> bool" where
  "is_upper c \<longleftrightarrow> (let n = of_char c :: nat in 65 \<le> n \<and> n \<le> 90)"

definition is_hex_lower :: "char \<Rightarrow> bool" where
  "is_hex_lower c \<longleftrightarrow> (let n = of_char c :: nat in 48 \<le> n \<and> n \<le> 57 \<or> 97 \<le> n \<and> n \<le> 102)"

subsection \<open>Splitting and joining\<close>

lemma split_on_nonempty [simp]: "split_on sep s \<noteq> []"
  by (induction s) (auto split: list.splits)

lemma join_split [go_string]: "join_with sep (split_on sep s) = s"
proof (induction s)
  case (Cons c s)
  obtain w ws where w: "split_on sep s = w # ws"
    using split_on_nonempty [of sep s] by (cases "split_on sep s") auto
  with Cons show ?case by (cases ws) auto
qed simp

lemma split_on_no_sep: "w \<in> set (split_on sep s) \<Longrightarrow> sep \<notin> set w"
proof (induction s arbitrary: w)
  case (Cons c s)
  then show ?case by (cases "split_on sep s") (auto split: if_splits)
qed simp

lemma split_on_append:
  "sep \<notin> set w \<Longrightarrow> split_on sep (w @ sep # s) = w # split_on sep s"
  by (induction w) auto

lemma split_on_single: "sep \<notin> set w \<Longrightarrow> split_on sep w = [w]"
  by (induction w) auto

lemma split_join [go_string]:
  "ws \<noteq> [] \<Longrightarrow> \<forall>w \<in> set ws. sep \<notin> set w \<Longrightarrow> split_on sep (join_with sep ws) = ws"
  by (induction sep ws rule: join_with.induct) (auto simp: split_on_append split_on_single)

lemma sep_in_iff: "sep \<in> set s \<longleftrightarrow> 2 \<le> length (split_on sep s)"
proof (induction s)
  case (Cons c s)
  have "1 \<le> length (split_on sep s)" by (cases "split_on sep s") auto
  with Cons show ?case by (auto split: list.splits)
qed simp

subsection \<open>Decimal numbers\<close>

text \<open>\<^verbatim>\<open>strconv.Itoa\<close>.\<close>

fun digits_of :: "nat \<Rightarrow> string" where
  "digits_of n =
     (if n < 10 then [char_of (48 + n)] else digits_of (n div 10) @ [char_of (48 + n mod 10)])"

declare digits_of.simps [simp del]

definition Itoa :: "int \<Rightarrow> string" where
  "Itoa i = (if i < 0 then ''-'' @ digits_of (nat (- i)) else digits_of (nat i))"

end
