(* ===== verification/Domain_Types.thy ===== *)
theory Domain_Types
  imports Calendar Go_Strings
begin

text \<open>
  The entity types and validation rules of \<^verbatim>\<open>internal/domain/types.go\<close>: carrier modes,
  the relay and telemt limits with their validators, host and secret syntax, profile names, and
  the quota periods with their calendar. A validator returns \<open>None\<close> for \<^verbatim>\<open>nil\<close>. Where the
  source ranges over a map literal, the visiting order is an argument, since Go leaves it open.
\<close>

type_synonym CarrierMode = string

definition AllCarrierModes :: "CarrierMode list" where
  "AllCarrierModes = [''https'', ''https-lanes'', ''websocket'', ''websocket-lanes'']"

fun valid_in :: "CarrierMode \<Rightarrow> CarrierMode list \<Rightarrow> bool" where
  "valid_in c [] = False"
| "valid_in c (m # ms) = (if m = c then True else valid_in c ms)"

definition CarrierMode_Valid :: "CarrierMode \<Rightarrow> bool" where
  "CarrierMode_Valid c = valid_in c AllCarrierModes"

subsection \<open>Relay limits\<close>

record ProfileLimits =
  MaxSessions :: int
  MaxStreams :: int
  MaxBackendDialsInFlight :: int
  NewSessionsPerMinute :: int
  NewSessionsBurst :: int
  NewStreamsPerMinute :: int
  NewStreamsBurst :: int
  MaxStreamsPerSession :: int
  MaxPendingPerSession :: int

datatype limits_error =
    Negative string
  | PerSessionAboveStreams
  | DialsAboveStreams
  | QuotaTooLarge
  | RateTooLarge string
  | CounterTooLarge string
  | BadQuotaPeriod
  | PeriodNeedsQuota

definition ProfileLimits_entries :: "ProfileLimits \<Rightarrow> (string \<times> int) list" where
  "ProfileLimits_entries l =
     [(''max_sessions'', MaxSessions l), (''max_streams'', MaxStreams l),
      (''max_backend_dials_in_flight'', MaxBackendDialsInFlight l),
      (''new_sessions_per_minute'', NewSessionsPerMinute l),
      (''new_sessions_burst'', NewSessionsBurst l),
      (''new_streams_per_minute'', NewStreamsPerMinute l),
      (''new_streams_burst'', NewStreamsBurst l),
      (''max_streams_per_session'', MaxStreamsPerSession l),
      (''max_pending_per_session'', MaxPendingPerSession l)]"

definition negative_entry :: "string \<Rightarrow> int \<Rightarrow> limits_error err" where
  "negative_entry name v = (if v < 0 then Some (Negative name) else None)"

definition ProfileLimits_Validate :: "string list \<Rightarrow> ProfileLimits \<Rightarrow> limits_error err" where
  "ProfileLimits_Validate order l =
     first_err
       [range_first order (ProfileLimits_entries l) negative_entry,
        if MaxStreams l > 0 \<and> MaxStreamsPerSession l > MaxStreams l
          then Some PerSessionAboveStreams else None,
        if MaxStreams l > 0 \<and> MaxBackendDialsInFlight l > MaxStreams l
          then Some DialsAboveStreams else None]"

subsection \<open>Secrets, host names, profile names\<close>

text \<open>The pattern \<^verbatim>\<open>^[0-9a-f]{32}$\<close>.\<close>

definition secretRe :: "string \<Rightarrow> bool" where
  "secretRe s \<longleftrightarrow> length s = 32 \<and> list_all is_hex_lower s"

definition ValidateSecretHex :: "string \<Rightarrow> bool" where
  "ValidateSecretHex s = secretRe s"

definition label_edge :: "char \<Rightarrow> bool" where
  "label_edge c \<longleftrightarrow> is_lower c \<or> is_digit c"

text \<open>The pattern \<^verbatim>\<open>^[a-z0-9]([a-z0-9-]{0,61}[a-z0-9])?$\<close>.\<close>

definition labelRe :: "string \<Rightarrow> bool" where
  "labelRe s =
     (case s of [] \<Rightarrow> False
      | c # rest \<Rightarrow> label_edge c \<and>
          (rest = [] \<or>
           label_edge (last rest) \<and> length (butlast rest) \<le> 61 \<and>
           list_all (\<lambda>x. label_edge x \<or> x = CHR ''-'') (butlast rest)))"

text \<open>\<open>True\<close> is the \<^verbatim>\<open>nil\<close> result; the only error the function has is \<^verbatim>\<open>errHostname\<close>.\<close>

definition ValidateHostname :: "string \<Rightarrow> bool" where
  "ValidateHostname h =
     (if length h = 0 \<or> length h > 253 \<or> CHR ''.'' \<notin> set h then False
      else list_all labelRe (split_on (CHR ''.'') h))"

text \<open>
  \<open>ProfileName\<close> takes the text form of the key's identifier; slicing \<^verbatim>\<open>[:12]\<close> panics
  (\<open>None\<close>) on a shorter string.
\<close>

definition ProfileName :: "string \<Rightarrow> string option" where
  "ProfileName idtext =
     (let hex = filter (\<lambda>c. c \<noteq> CHR ''-'') idtext
      in if 12 \<le> length hex then Some (''k'' @ take 12 hex) else None)"

definition Engine_Valid :: "string \<Rightarrow> bool" where
  "Engine_Valid e \<longleftrightarrow> e = ''tproxy'' \<or> e = ''telemt''"

subsection \<open>Telemt limits and quota periods\<close>

definition MaxTelemtQuotaBytes :: int where
  "MaxTelemtQuotaBytes = 100 * 1024 * 1024 * 1024 * 1024"

definition MaxTelemtCounter :: int where
  "MaxTelemtCounter = 1000000"

definition MaxTelemtRateBps :: int where
  "MaxTelemtRateBps = 100000000000"

type_synonym QuotaPeriod = string

abbreviation QuotaPeriodNone :: QuotaPeriod where "QuotaPeriodNone \<equiv> ''''"
abbreviation QuotaPeriodWeek :: QuotaPeriod where "QuotaPeriodWeek \<equiv> ''week''"
abbreviation QuotaPeriodMonth :: QuotaPeriod where "QuotaPeriodMonth \<equiv> ''month''"

record TelemtLimits =
  DataQuotaBytes :: int
  RateLimitUpBps :: int
  RateLimitDownBps :: int
  MaxUniqueIPs :: int
  MaxTCPConns :: int
  DataQuotaPeriod :: QuotaPeriod

definition QuotaPeriod_Valid :: "QuotaPeriod \<Rightarrow> bool" where
  "QuotaPeriod_Valid p \<longleftrightarrow> p = QuotaPeriodNone \<or> p = QuotaPeriodWeek \<or> p = QuotaPeriodMonth"

text \<open>The remainder in \<^verbatim>\<open>Start\<close> is of a non-negative number, so Go's \<^verbatim>\<open>%\<close> is \<open>mod\<close>.\<close>

definition QuotaPeriod_Start :: "QuotaPeriod \<Rightarrow> gotime \<Rightarrow> gotime" where
  "QuotaPeriod_Start p t =
     (let n = time_day t;
          day = time_Date (civil_year n) (civil_month n) (civil_day n)
      in if p = QuotaPeriodWeek then AddDate day 0 0 (- ((Weekday (time_day day) + 6) mod 7))
         else if p = QuotaPeriodMonth then time_Date (civil_year n) (civil_month n) 1
         else zero_time)"

definition QuotaPeriod_Next :: "QuotaPeriod \<Rightarrow> gotime \<Rightarrow> gotime" where
  "QuotaPeriod_Next p t =
     (let start = QuotaPeriod_Start p t
      in if p = QuotaPeriodWeek then AddDate start 0 0 7
         else if p = QuotaPeriodMonth then AddDate start 0 1 0
         else zero_time)"

definition TelemtLimits_entries :: "TelemtLimits \<Rightarrow> (string \<times> int) list" where
  "TelemtLimits_entries l =
     [(''data_quota_bytes'', DataQuotaBytes l), (''rate_limit_up_bps'', RateLimitUpBps l),
      (''rate_limit_down_bps'', RateLimitDownBps l), (''max_unique_ips'', MaxUniqueIPs l),
      (''max_tcp_conns'', MaxTCPConns l)]"

definition TelemtLimits_Validate ::
  "string list \<Rightarrow> string list \<Rightarrow> string list \<Rightarrow> TelemtLimits \<Rightarrow> limits_error err" where
  "TelemtLimits_Validate order1 order2 order3 l =
     first_err
       [range_first order1 (TelemtLimits_entries l) negative_entry,
        if DataQuotaBytes l > MaxTelemtQuotaBytes then Some QuotaTooLarge else None,
        range_first order2
          [(''rate_limit_up_bps'', RateLimitUpBps l), (''rate_limit_down_bps'', RateLimitDownBps l)]
          (\<lambda>name v. if v > MaxTelemtRateBps then Some (RateTooLarge name) else None),
        range_first order3
          [(''max_unique_ips'', MaxUniqueIPs l), (''max_tcp_conns'', MaxTCPConns l)]
          (\<lambda>name v. if v > MaxTelemtCounter then Some (CounterTooLarge name) else None),
        if \<not> QuotaPeriod_Valid (DataQuotaPeriod l) then Some BadQuotaPeriod else None,
        if DataQuotaPeriod l \<noteq> QuotaPeriodNone \<and> DataQuotaBytes l = 0
          then Some PeriodNeedsQuota else None]"

subsection \<open>Visiting orders\<close>

abbreviation relay_names :: "string set" where
  "relay_names \<equiv> {''max_sessions'', ''max_streams'', ''max_backend_dials_in_flight'',
     ''new_sessions_per_minute'', ''new_sessions_burst'', ''new_streams_per_minute'',
     ''new_streams_burst'', ''max_streams_per_session'', ''max_pending_per_session''}"

abbreviation telemt_names :: "string set" where
  "telemt_names \<equiv> {''data_quota_bytes'', ''rate_limit_up_bps'', ''rate_limit_down_bps'',
     ''max_unique_ips'', ''max_tcp_conns''}"

abbreviation rate_names :: "string set" where
  "rate_names \<equiv> {''rate_limit_up_bps'', ''rate_limit_down_bps''}"

abbreviation counter_names :: "string set" where
  "counter_names \<equiv> {''max_unique_ips'', ''max_tcp_conns''}"

lemma negative_entry_None [simp]: "negative_entry n v = None \<longleftrightarrow> 0 \<le> v"
  by (simp add: negative_entry_def)

lemma ProfileLimits_Validate_iff:
  assumes "set order = relay_names"
  shows "ProfileLimits_Validate order l = None \<longleftrightarrow>
    0 \<le> MaxSessions l \<and> 0 \<le> MaxStreams l \<and> 0 \<le> MaxBackendDialsInFlight l \<and>
    0 \<le> NewSessionsPerMinute l \<and> 0 \<le> NewSessionsBurst l \<and> 0 \<le> NewStreamsPerMinute l \<and>
    0 \<le> NewStreamsBurst l \<and> 0 \<le> MaxStreamsPerSession l \<and> 0 \<le> MaxPendingPerSession l \<and>
    (MaxStreams l = 0 \<or>
      MaxStreamsPerSession l \<le> MaxStreams l \<and> MaxBackendDialsInFlight l \<le> MaxStreams l)"
proof -
  have "range_first order (ProfileLimits_entries l) negative_entry = None \<longleftrightarrow>
      (\<forall>(k, v) \<in> set (ProfileLimits_entries l). negative_entry k v = None)"
    by (rule range_first_None_iff) (simp_all add: assms ProfileLimits_entries_def)
  then show ?thesis
    by (auto simp: ProfileLimits_Validate_def ProfileLimits_entries_def)
qed

lemma TelemtLimits_Validate_iff:
  assumes "set order1 = telemt_names" "set order2 = rate_names" "set order3 = counter_names"
  shows "TelemtLimits_Validate order1 order2 order3 l = None \<longleftrightarrow>
    0 \<le> DataQuotaBytes l \<and> DataQuotaBytes l \<le> MaxTelemtQuotaBytes \<and>
    0 \<le> RateLimitUpBps l \<and> RateLimitUpBps l \<le> MaxTelemtRateBps \<and>
    0 \<le> RateLimitDownBps l \<and> RateLimitDownBps l \<le> MaxTelemtRateBps \<and>
    0 \<le> MaxUniqueIPs l \<and> MaxUniqueIPs l \<le> MaxTelemtCounter \<and>
    0 \<le> MaxTCPConns l \<and> MaxTCPConns l \<le> MaxTelemtCounter \<and>
    QuotaPeriod_Valid (DataQuotaPeriod l) \<and>
    (DataQuotaPeriod l = QuotaPeriodNone \<or> DataQuotaBytes l \<noteq> 0)"
proof -
  have 1: "range_first order1 (TelemtLimits_entries l) negative_entry = None \<longleftrightarrow>
      (\<forall>(k, v) \<in> set (TelemtLimits_entries l). negative_entry k v = None)"
    by (rule range_first_None_iff) (simp_all add: assms TelemtLimits_entries_def)
  have 2: "range_first order2
        [(''rate_limit_up_bps'', RateLimitUpBps l), (''rate_limit_down_bps'', RateLimitDownBps l)]
        (\<lambda>name v. if v > MaxTelemtRateBps then Some (RateTooLarge name) else None) = None \<longleftrightarrow>
      RateLimitUpBps l \<le> MaxTelemtRateBps \<and> RateLimitDownBps l \<le> MaxTelemtRateBps"
    by (subst range_first_None_iff) (auto simp: assms)
  have 3: "range_first order3
        [(''max_unique_ips'', MaxUniqueIPs l), (''max_tcp_conns'', MaxTCPConns l)]
        (\<lambda>name v. if v > MaxTelemtCounter then Some (CounterTooLarge name) else None) = None \<longleftrightarrow>
      MaxUniqueIPs l \<le> MaxTelemtCounter \<and> MaxTCPConns l \<le> MaxTelemtCounter"
    by (subst range_first_None_iff) (auto simp: assms)
  show ?thesis
    by (simp add: TelemtLimits_Validate_def 1 2 3) (auto simp: TelemtLimits_entries_def)
qed

subsection \<open>Quota periods\<close>

text \<open>
  What the users of a quota calendar rely on (the sweep of \<^verbatim>\<open>internal/worker/quotareset.go\<close>
  and the quota part of an apply): every instant lies in the half-open period from its start to
  its next start, and all instants of that period share the start.
\<close>

locale quota_calendar =
  fixes start :: "gotime \<Rightarrow> gotime" and following :: "gotime \<Rightarrow> gotime"
  assumes start_le: "start t \<le> t"
    and less_following: "t < following t"
    and same_period: "start t \<le> u \<Longrightarrow> u < following t \<Longrightarrow> start u = start t"
    and following_is_start: "start (following t) = following t"
begin

lemma start_start: "start (start t) = start t"
  using start_le [of t] less_following [of t] by (intro same_period) auto

lemma start_mono:
  assumes "t \<le> u"
  shows "start t \<le> start u"
proof (rule ccontr)
  assume lt: "\<not> start t \<le> start u"
  then have "start u < start t" by simp
  have "start t < following u"
    using less_following [of u] start_le [of t] assms by linarith
  with \<open>start u < start t\<close> have "start (start t) = start u" by (intro same_period) auto
  with start_start [of t] lt show False by simp
qed

text \<open>Past the end of a period its start is no longer the current one.\<close>

lemma period_over:
  assumes "following t \<le> u"
  shows "start u \<noteq> start t"
proof
  assume eq: "start u = start t"
  have "start (following t) = start u"
    using assms eq start_le [of t] less_following [of t] less_following [of u]
    by (intro same_period) auto
  with eq following_is_start [of t] start_le [of t] less_following [of t] show False by simp
qed

text \<open>A start that changed lies at or after the end of the earlier period.\<close>

lemma boundary_crossed:
  assumes "t \<le> u" "start u \<noteq> start t"
  shows "following t \<le> u" and "t < start u"
proof -
  show "following t \<le> u" using same_period [of t u] start_le [of t] assms by force
  show "t < start u"
  proof (rule ccontr)
    assume "\<not> t < start u"
    then have "start t = start u"
      using assms(1) less_following [of u] by (intro same_period) auto
    with assms(2) show False by simp
  qed
qed

end

lemma Start_week: "QuotaPeriod_Start QuotaPeriodWeek t = midnight (time_day t - (Weekday (time_day t) + 6) mod 7)"
  by (simp add: QuotaPeriod_Start_def Let_def time_Date_def AddDate_def
      date_day_civil [of _ 0, simplified] date_day_civil
      date_day_civil [of _ "- k" for k, simplified])

lemma Start_month:
  "QuotaPeriod_Start QuotaPeriodMonth t =
     midnight (date_day (civil_year (time_day t)) (civil_month (time_day t)) 1)"
  by (simp add: QuotaPeriod_Start_def Let_def time_Date_def)

lemma Next_week:
  "QuotaPeriod_Next QuotaPeriodWeek t = midnight (time_day t - (Weekday (time_day t) + 6) mod 7 + 7)"
  by (simp add: QuotaPeriod_Next_def Start_week AddDate_def date_day_civil)

lemma Next_month:
  "QuotaPeriod_Next QuotaPeriodMonth t =
     midnight (date_day (civil_year (time_day t)) (civil_month (time_day t)) 1
       + month_len (civil_year (time_day t)) (civil_month (time_day t)))"
proof -
  let ?y = "civil_year (time_day t)" and ?m = "civil_month (time_day t)"
  have m: "1 \<le> ?m" "?m \<le> 12" by (rule civil_month_range)+
  have d: "1 \<le> month_len ?y ?m" using month_len_ge [OF m, of ?y] by simp
  show ?thesis
    by (simp add: QuotaPeriod_Next_def Start_month AddDate_def civil_date_day [OF m _ d]
        date_day_next_month [OF m])
qed

lemma Start_Next_month:
  "QuotaPeriod_Start QuotaPeriodMonth (QuotaPeriod_Next QuotaPeriodMonth t) =
     QuotaPeriod_Next QuotaPeriodMonth t"
proof -
  let ?y = "civil_year (time_day t)" and ?m = "civil_month (time_day t)"
  have m: "1 \<le> ?m" "?m \<le> 12" by (rule civil_month_range)+
  let ?n = "date_day ?y (?m + 1) 1"
  have "QuotaPeriod_Start QuotaPeriodMonth (midnight ?n) = midnight ?n"
  proof (cases "?m = 12")
    case True
    have "?n = date_day (?y + 1) 1 1" using True by (simp add: date_day_def)
    then show ?thesis
      using civil_date_day [of 1 1 "?y + 1"] month_len_ge [of 1 "?y + 1"]
      by (simp add: Start_month)
  next
    case False
    with m have "1 \<le> ?m + 1" "?m + 1 \<le> 12" by auto
    then show ?thesis
      using civil_date_day [of "?m + 1" 1 ?y] month_len_ge [of "?m + 1" ?y]
      by (simp add: Start_month)
  qed
  then show ?thesis
    by (simp add: Next_month date_day_next_month [OF m])
qed

lemma week_offset: "0 \<le> (Weekday n + 6) mod 7" "(Weekday n + 6) mod 7 < 7"
  by simp_all

text \<open>Days of one week share its Monday.\<close>

lemma week_shift:
  assumes "0 \<le> k" "k < 7"
  shows "(Weekday (n - (Weekday n + 6) mod 7 + k) + 6) mod 7 = k"
  using assms unfolding Weekday_def by presburger

lemma civil_in_month:
  assumes "date_day (civil_year n) (civil_month n) 1 \<le> i"
    and "i < date_day (civil_year n) (civil_month n) 1 + month_len (civil_year n) (civil_month n)"
  shows "civil_year i = civil_year n" "civil_month i = civil_month n"
proof -
  let ?y = "civil_year n" and ?m = "civil_month n"
  have m: "1 \<le> ?m" "?m \<le> 12" by (rule civil_month_range)+
  define d where "d = i - date_day ?y ?m 1 + 1"
  have "i = date_day ?y ?m d" by (simp add: d_def date_day_in_range [OF m])
  moreover have "1 \<le> d" "d \<le> month_len ?y ?m" using assms by (simp_all add: d_def)
  ultimately show "civil_year i = ?y" "civil_month i = ?m"
    using civil_date_day [OF m] by auto
qed

interpretation week: quota_calendar
  "QuotaPeriod_Start QuotaPeriodWeek" "QuotaPeriod_Next QuotaPeriodWeek"
proof (unfold_locales, goal_cases)
  case (1 t)
  show ?case using week_offset [of "time_day t"] by (simp add: Start_week midnight_le_iff)
next
  case (2 t)
  show ?case using week_offset [of "time_day t"] by (simp add: Next_week less_midnight_iff)
next
  case (3 t u)
  let ?o = "(Weekday (time_day t) + 6) mod 7"
  define k where "k = time_day u - (time_day t - ?o)"
  have "0 \<le> k" "k < 7"
    using 3 by (simp_all add: k_def Start_week Next_week midnight_le_iff less_midnight_iff)
  from week_shift [OF this, of "time_day t"] have "(Weekday (time_day u) + 6) mod 7 = k"
    by (simp add: k_def)
  then show ?case by (simp add: Start_week k_def)
next
  case (4 t)
  have "(Weekday (time_day t - (Weekday (time_day t) + 6) mod 7 + 7) + 6) mod 7 = 0"
    unfolding Weekday_def by presburger
  then show ?case by (simp add: Start_week Next_week)
qed

interpretation month: quota_calendar
  "QuotaPeriod_Start QuotaPeriodMonth" "QuotaPeriod_Next QuotaPeriodMonth"
proof (unfold_locales, goal_cases)
  case (1 t)
  show ?case
    using civil_day_range(1) [of "time_day t"]
    by (simp add: Start_month midnight_le_iff date_day_in_range civil_month_range civil_day_def)
next
  case (2 t)
  show ?case
    using civil_day_range(2) [of "time_day t"]
    by (simp add: Next_month less_midnight_iff date_day_in_range civil_month_range civil_day_def)
next
  case (3 t u)
  then show ?case
    using civil_in_month [of "time_day t" "time_day u"]
    by (simp add: Start_month Next_month midnight_le_iff less_midnight_iff)
next
  case (4 t)
  show ?case by (rule Start_Next_month)
qed

subsection \<open>Host names\<close>

lemma labelRe_no_dot: "labelRe w \<Longrightarrow> CHR ''.'' \<notin> set w"
proof -
  assume w: "labelRe w"
  have e: "\<not> label_edge (CHR ''.'')" by (simp add: label_edge_def is_lower_def is_digit_def)
  show ?thesis
  proof (cases w)
    case (Cons c rest)
    show ?thesis
    proof (cases rest rule: rev_cases)
      case Nil
      with w Cons e show ?thesis by (auto simp: labelRe_def)
    next
      case (snoc mid x)
      with w Cons e show ?thesis by (auto simp: labelRe_def list_all_iff)
    qed
  qed simp
qed

lemma ValidateHostname_iff:
  "ValidateHostname h \<longleftrightarrow>
     length h \<le> 253 \<and>
     (\<exists>ws. 2 \<le> length ws \<and> list_all labelRe ws \<and> h = join_with (CHR ''.'') ws)"
  (is "?L \<longleftrightarrow> ?R")
proof
  assume ?L
  then have "CHR ''.'' \<in> set h" "length h \<le> 253" "list_all labelRe (split_on (CHR ''.'') h)"
    by (auto simp: ValidateHostname_def split: if_splits)
  then show ?R
    by (intro conjI exI [of _ "split_on (CHR ''.'') h"]) (simp_all add: sep_in_iff join_split)
next
  assume ?R
  then obtain ws where ws: "2 \<le> length ws" "list_all labelRe ws" "h = join_with (CHR ''.'') ws"
    and len: "length h \<le> 253" by blast
  from ws(1) have "ws \<noteq> []" by auto
  then have sp: "split_on (CHR ''.'') h = ws"
    unfolding ws(3) using ws(2) by (intro split_join) (auto simp: list_all_iff labelRe_no_dot)
  then have "CHR ''.'' \<in> set h" using ws(1) by (simp add: sep_in_iff)
  moreover from this have "h \<noteq> []" by auto
  ultimately show ?L using sp ws(2) len by (simp add: ValidateHostname_def)
qed

subsection \<open>Properties\<close>

text \<open>
  The start of a weekly quota period is a Monday at 00:00 UTC, at or before the instant and
  less than seven days before it; the next period starts exactly seven days later; and every
  instant in between has the same start.
\<close>

theorem quota_week_period:
  "Weekday (time_day (QuotaPeriod_Start QuotaPeriodWeek t)) = 1 \<and>
   time_clock (QuotaPeriod_Start QuotaPeriodWeek t) = 0 \<and>
   QuotaPeriod_Start QuotaPeriodWeek t \<le> t \<and> t < QuotaPeriod_Next QuotaPeriodWeek t \<and>
   QuotaPeriod_Next QuotaPeriodWeek t = QuotaPeriod_Start QuotaPeriodWeek t + 7 * day_ns \<and>
   (\<forall>u. QuotaPeriod_Start QuotaPeriodWeek t \<le> u \<longrightarrow> u < QuotaPeriod_Next QuotaPeriodWeek t \<longrightarrow>
      QuotaPeriod_Start QuotaPeriodWeek u = QuotaPeriod_Start QuotaPeriodWeek t)"
proof -
  have "Weekday (time_day t - (Weekday (time_day t) + 6) mod 7) = 1"
    unfolding Weekday_def by presburger
  then have "Weekday (time_day (QuotaPeriod_Start QuotaPeriodWeek t)) = 1"
    "time_clock (QuotaPeriod_Start QuotaPeriodWeek t) = 0"
    "QuotaPeriod_Next QuotaPeriodWeek t = QuotaPeriod_Start QuotaPeriodWeek t + 7 * day_ns"
    by (simp_all add: Start_week Next_week midnight_add)
  then show ?thesis
    by (intro conjI allI impI week.start_le week.less_following week.same_period)
qed

theorem quota_week_period_witness:
  "QuotaPeriod_Start QuotaPeriodWeek (1753999999 * Second) = 1753660800 * Second \<and>
   QuotaPeriod_Start QuotaPeriodWeek (1753700000 * Second) = 1753660800 * Second"
proof -
  have d: "time_day (1753999999 * Second) = 20300"
    by (simp add: time_day_def day_ns_def duration_units)
  have a: "QuotaPeriod_Start QuotaPeriodWeek (1753999999 * Second) = 1753660800 * Second"
    unfolding Start_week d by (simp add: Weekday_def midnight_def day_ns_def duration_units)
  have b: "QuotaPeriod_Next QuotaPeriodWeek (1753999999 * Second) = 1754265600 * Second"
    unfolding Next_week d by (simp add: Weekday_def midnight_def day_ns_def duration_units)
  have "QuotaPeriod_Start QuotaPeriodWeek (1753700000 * Second) =
      QuotaPeriod_Start QuotaPeriodWeek (1753999999 * Second)"
    by (rule conjunct2 [OF conjunct2 [OF conjunct2 [OF conjunct2 [OF conjunct2
          [OF quota_week_period]]]], rule_format])
      (simp_all only: a b, simp_all add: duration_units)
  with a show ?thesis by simp
qed

text \<open>
  The start of a monthly quota period is the first of the month at 00:00 UTC, at or before
  the instant; the instant lies before the next start, which is again a first of a month; and
  every instant in between has the same start.
\<close>

theorem quota_month_period:
  "civil_day (time_day (QuotaPeriod_Start QuotaPeriodMonth t)) = 1 \<and>
   time_clock (QuotaPeriod_Start QuotaPeriodMonth t) = 0 \<and>
   QuotaPeriod_Start QuotaPeriodMonth t \<le> t \<and> t < QuotaPeriod_Next QuotaPeriodMonth t \<and>
   QuotaPeriod_Start QuotaPeriodMonth (QuotaPeriod_Next QuotaPeriodMonth t) =
     QuotaPeriod_Next QuotaPeriodMonth t \<and>
   (\<forall>u. QuotaPeriod_Start QuotaPeriodMonth t \<le> u \<longrightarrow> u < QuotaPeriod_Next QuotaPeriodMonth t \<longrightarrow>
      QuotaPeriod_Start QuotaPeriodMonth u = QuotaPeriod_Start QuotaPeriodMonth t)"
proof -
  let ?y = "civil_year (time_day t)" and ?m = "civil_month (time_day t)"
  have m: "1 \<le> ?m" "?m \<le> 12" by (rule civil_month_range)+
  have one: "1 \<le> month_len ?y ?m" using month_len_ge [OF m, of ?y] by simp
  have first: "civil_day (date_day ?y ?m 1) = 1" by (rule civil_date_day(3) [OF m]) (simp_all add: one)
  have "QuotaPeriod_Start QuotaPeriodMonth (QuotaPeriod_Next QuotaPeriodMonth t) =
      QuotaPeriod_Next QuotaPeriodMonth t" by (rule Start_Next_month)
  moreover have "civil_day (time_day (QuotaPeriod_Start QuotaPeriodMonth t)) = 1"
    "time_clock (QuotaPeriod_Start QuotaPeriodMonth t) = 0"
    by (simp_all add: Start_month first)
  ultimately show ?thesis
    by (intro conjI allI impI month.start_le month.less_following month.same_period)
qed

theorem quota_month_period_witness:
  "QuotaPeriod_Start QuotaPeriodMonth (1709251199 * Second) = 1706745600 * Second \<and>
   QuotaPeriod_Start QuotaPeriodMonth (1707000000 * Second) = 1706745600 * Second"
proof -
  have d: "time_day (1709251199 * Second) = 19782"
    by (simp add: time_day_def day_ns_def duration_units)
  have c: "civil_year 19782 = 2024" "civil_month 19782 = 2"
    by (simp_all add: civil_year_def civil_month_def year_of_def year_start_def epoch_days_def
        month_of_def days_before_month_def leap_year_def upto_rec1 nat_numeral)
  have a: "QuotaPeriod_Start QuotaPeriodMonth (1709251199 * Second) = 1706745600 * Second"
    unfolding Start_month d c
    by (simp add: date_day_in_range year_start_def days_before_month_def epoch_days_def
        midnight_def day_ns_def duration_units)
  have b: "QuotaPeriod_Next QuotaPeriodMonth (1709251199 * Second) = 1709251200 * Second"
    unfolding Next_month d c
    by (simp add: date_day_in_range year_start_def days_before_month_def epoch_days_def month_len_def
        leap_year_def midnight_def day_ns_def duration_units)
  have "QuotaPeriod_Start QuotaPeriodMonth (1707000000 * Second) =
      QuotaPeriod_Start QuotaPeriodMonth (1709251199 * Second)"
    by (rule conjunct2 [OF conjunct2 [OF conjunct2 [OF conjunct2 [OF conjunct2
          [OF quota_month_period]]]], rule_format])
      (simp_all only: a b, simp_all add: duration_units)
  with a show ?thesis by simp
qed

text \<open>
  \<^verbatim>\<open>TelemtLimits.Validate\<close> accepts exactly the limits telemt accepts (non-negative, quota
  up to 100 TB, rates up to 100 Gbit/s, counters up to one million, a known period, and a period
  only together with a quota), whatever order Go visits its map literals in.
\<close>

theorem telemt_limits_accepted:
  assumes "set order1 = telemt_names" "set order2 = rate_names" "set order3 = counter_names"
  shows "TelemtLimits_Validate order1 order2 order3 l = None \<longleftrightarrow>
    0 \<le> DataQuotaBytes l \<and> DataQuotaBytes l \<le> MaxTelemtQuotaBytes \<and>
    0 \<le> RateLimitUpBps l \<and> RateLimitUpBps l \<le> MaxTelemtRateBps \<and>
    0 \<le> RateLimitDownBps l \<and> RateLimitDownBps l \<le> MaxTelemtRateBps \<and>
    0 \<le> MaxUniqueIPs l \<and> MaxUniqueIPs l \<le> MaxTelemtCounter \<and>
    0 \<le> MaxTCPConns l \<and> MaxTCPConns l \<le> MaxTelemtCounter \<and>
    QuotaPeriod_Valid (DataQuotaPeriod l) \<and>
    (DataQuotaPeriod l = QuotaPeriodNone \<or> DataQuotaBytes l \<noteq> 0)"
  by (rule TelemtLimits_Validate_iff) (rule assms)+

theorem telemt_limits_accepted_witness:
  "TelemtLimits_Validate
     [''max_tcp_conns'', ''data_quota_bytes'', ''rate_limit_up_bps'', ''rate_limit_down_bps'', ''max_unique_ips'']
     [''rate_limit_down_bps'', ''rate_limit_up_bps''] [''max_unique_ips'', ''max_tcp_conns'']
     \<lparr>DataQuotaBytes = 5, RateLimitUpBps = 0, RateLimitDownBps = 1, MaxUniqueIPs = 3, MaxTCPConns = 0,
      DataQuotaPeriod = ''week''\<rparr> = None"
  by (subst telemt_limits_accepted)
    (auto simp: MaxTelemtQuotaBytes_def MaxTelemtRateBps_def MaxTelemtCounter_def QuotaPeriod_Valid_def)

text \<open>
  \<^verbatim>\<open>ValidateHostname\<close> accepts a string exactly when it is at least two DNS labels joined by
  dots, at most 253 bytes long.
\<close>

theorem hostname_labels:
  "ValidateHostname h \<longleftrightarrow>
     length h \<le> 253 \<and>
     (\<exists>ws. 2 \<le> length ws \<and> list_all labelRe ws \<and> h = join_with (CHR ''.'') ws)"
  by (rule ValidateHostname_iff)

end
