(* ===== verification/Quota_Reset.thy ===== *)
theory Quota_Reset
  imports Domain_Types
begin

text \<open>
  The quota sweep of \<^verbatim>\<open>internal/worker/quotareset.go\<close>: a pass marks the nodes of a period
  dirty when the start of that period moved since the last pass that completed it. The two
  database calls are what the pass was answered: the nodes listed for a period (\<open>None\<close> when
  the query failed) and whether \<^verbatim>\<open>SetNodeDirty\<close> succeeded for a node.
\<close>

type_synonym uuid = nat

record quota_db =
  ListTelemtNodesWithQuotaPeriod :: "QuotaPeriod \<Rightarrow> uuid list option"
  SetNodeDirty_ok :: "uuid \<Rightarrow> bool"

type_synonym period_starts = "QuotaPeriod \<Rightarrow> gotime option"

text \<open>The loop over the listed nodes: the nodes marked, and whether it stopped at an error.\<close>

fun mark_nodes :: "(uuid \<Rightarrow> bool) \<Rightarrow> uuid list \<Rightarrow> uuid list \<times> bool" where
  "mark_nodes ok [] = ([], False)"
| "mark_nodes ok (n # ns) =
     (if \<not> ok n then ([], True) else (let (ms, e) = mark_nodes ok ns in (n # ms, e)))"

text \<open>The body of the loop over the periods: nodes marked, error, the new start map.\<close>

definition run_period ::
  "quota_db \<Rightarrow> gotime \<Rightarrow> QuotaPeriod \<Rightarrow> period_starts \<Rightarrow> uuid list \<times> bool \<times> period_starts" where
  "run_period q now p starts =
     (let start = QuotaPeriod_Start p now
      in if starts p = Some start then ([], False, starts)
         else case ListTelemtNodesWithQuotaPeriod q p of
                None \<Rightarrow> ([], True, starts)
              | Some nodes \<Rightarrow>
                  (let (ms, e) = mark_nodes (SetNodeDirty_ok q) nodes
                   in if e then (ms, True, starts) else (ms, False, starts(p \<mapsto> start))))"

definition RunOnce :: "quota_db \<Rightarrow> gotime \<Rightarrow> period_starts \<Rightarrow> uuid list \<times> bool \<times> period_starts" where
  "RunOnce q now starts =
     (case run_period q now QuotaPeriodWeek starts of
        (ms, e, starts') \<Rightarrow>
          if e then (ms, True, starts')
          else (case run_period q now QuotaPeriodMonth starts' of
                  (ms', e', starts'') \<Rightarrow> (ms @ ms', e', starts'')))"

lemma mark_nodes_done: "mark_nodes ok ns = (ms, False) \<Longrightarrow> ms = ns"
  by (induction ns arbitrary: ms) (auto split: if_splits prod.splits)

lemma run_period_facts:
  assumes "run_period q now p starts = (ms, e, starts')"
  shows "e \<Longrightarrow> starts' = starts"
    and "\<not> e \<Longrightarrow> starts' = starts(p \<mapsto> QuotaPeriod_Start p now)"
    and "\<not> e \<Longrightarrow> starts p \<noteq> Some (QuotaPeriod_Start p now) \<Longrightarrow>
           ListTelemtNodesWithQuotaPeriod q p = Some ms"
    and "starts p = Some (QuotaPeriod_Start p now) \<Longrightarrow> ms = [] \<and> \<not> e"
  using assms mark_nodes_done
  by (auto simp: run_period_def Let_def fun_upd_idem split: if_splits option.splits prod.splits)

lemma RunOnce_split:
  assumes "RunOnce q now starts = (ms, e, starts')"
  obtains mw ew startsw mm em startsm where
    "run_period q now QuotaPeriodWeek starts = (mw, ew, startsw)"
    "run_period q now QuotaPeriodMonth startsw = (mm, em, startsm)"
    "ms = (if ew then mw else mw @ mm)" "e = (ew \<or> em)" "starts' = (if ew then startsw else startsm)"
proof -
  obtain mw ew startsw where w: "run_period q now QuotaPeriodWeek starts = (mw, ew, startsw)"
    by (metis prod_cases3)
  obtain mm em startsm where m: "run_period q now QuotaPeriodMonth startsw = (mm, em, startsm)"
    by (metis prod_cases3)
  show ?thesis
    using assms by (intro that [OF w m]) (auto simp: RunOnce_def w m split: if_splits)
qed

text \<open>One pass, for one of its periods.\<close>

lemma RunOnce_period:
  assumes run: "RunOnce q now starts = (ms, e, starts')"
    and p: "p = QuotaPeriodWeek \<or> p = QuotaPeriodMonth"
  shows "\<not> e \<Longrightarrow> starts' p = Some (QuotaPeriod_Start p now)"
    and "starts' p = starts p \<and> e \<or> starts' p = Some (QuotaPeriod_Start p now) \<and>
      (starts p = Some (QuotaPeriod_Start p now) \<or>
       (\<exists>nodes. ListTelemtNodesWithQuotaPeriod q p = Some nodes \<and> set nodes \<subseteq> set ms))"
proof -
  obtain mw ew startsw mm em startsm where
    w: "run_period q now QuotaPeriodWeek starts = (mw, ew, startsw)" and
    m: "run_period q now QuotaPeriodMonth startsw = (mm, em, startsm)" and
    out: "ms = (if ew then mw else mw @ mm)" "e = (ew \<or> em)" "starts' = (if ew then startsw else startsm)"
    using RunOnce_split [OF run] .
  note fw = run_period_facts [OF w] and fm = run_period_facts [OF m]
  show "\<not> e \<Longrightarrow> starts' p = Some (QuotaPeriod_Start p now)"
    using fw(2) fm(2) p out by auto
  show "starts' p = starts p \<and> e \<or> starts' p = Some (QuotaPeriod_Start p now) \<and>
      (starts p = Some (QuotaPeriod_Start p now) \<or>
       (\<exists>nodes. ListTelemtNodesWithQuotaPeriod q p = Some nodes \<and> set nodes \<subseteq> set ms))"
    using p fw(1-3) fm(1-3) out by (cases ew; cases em) auto
qed

lemma RunOnce_quiet:
  assumes "starts QuotaPeriodWeek = Some (QuotaPeriod_Start QuotaPeriodWeek now)"
    and "starts QuotaPeriodMonth = Some (QuotaPeriod_Start QuotaPeriodMonth now)"
  shows "RunOnce q now starts = ([], False, starts)"
  using assms by (simp add: RunOnce_def run_period_def)

text \<open>
  C39: after a pass that completed, a pass that falls into the same week and the same month marks
  nothing and cannot fail, and a pass after the end of a period marks every node the database
  lists for it, unless a database call fails, in which case the period stays due: its start is
  not advanced and the next pass tries again.
\<close>

theorem quota_reset_every_period:
  assumes first: "RunOnce q1 t1 starts = (ms1, False, starts1)"
    and second: "RunOnce q2 t2 starts1 = (ms2, e2, starts2)" and later: "t1 \<le> t2"
  shows "(t2 < QuotaPeriod_Next QuotaPeriodWeek t1 \<and> t2 < QuotaPeriod_Next QuotaPeriodMonth t1
            \<longrightarrow> ms2 = [] \<and> \<not> e2 \<and> starts2 = starts1) \<and>
    (\<forall>p \<in> {QuotaPeriodWeek, QuotaPeriodMonth}. QuotaPeriod_Next p t1 \<le> t2 \<longrightarrow>
       (\<exists>nodes. ListTelemtNodesWithQuotaPeriod q2 p = Some nodes \<and> set nodes \<subseteq> set ms2
          \<and> starts2 p = Some (QuotaPeriod_Start p t2))
       \<or> e2 \<and> starts2 p = starts1 p)"
proof (intro conjI impI ballI)
  have s1: "starts1 p = Some (QuotaPeriod_Start p t1)"
    if "p = QuotaPeriodWeek \<or> p = QuotaPeriodMonth" for p
    using RunOnce_period(1) [OF first that] by simp
  show "ms2 = []" "\<not> e2" "starts2 = starts1"
    if in_period: "t2 < QuotaPeriod_Next QuotaPeriodWeek t1 \<and> t2 < QuotaPeriod_Next QuotaPeriodMonth t1"
  proof -
    have "QuotaPeriod_Start QuotaPeriodWeek t2 = QuotaPeriod_Start QuotaPeriodWeek t1"
      using week.start_le [of t1] in_period later by (intro week.same_period) auto
    moreover have "QuotaPeriod_Start QuotaPeriodMonth t2 = QuotaPeriod_Start QuotaPeriodMonth t1"
      using month.start_le [of t1] in_period later by (intro month.same_period) auto
    ultimately have "RunOnce q2 t2 starts1 = ([], False, starts1)"
      using s1 by (intro RunOnce_quiet) auto
    with second show "ms2 = []" "\<not> e2" "starts2 = starts1" by auto
  qed
  fix p
  assume p: "p \<in> {QuotaPeriodWeek, QuotaPeriodMonth}" and over: "QuotaPeriod_Next p t1 \<le> t2"
  then have "starts1 p \<noteq> Some (QuotaPeriod_Start p t2)"
    using s1 [of p] week.period_over [of t1 t2] month.period_over [of t1 t2] by auto
  then show "(\<exists>nodes. ListTelemtNodesWithQuotaPeriod q2 p = Some nodes \<and> set nodes \<subseteq> set ms2
          \<and> starts2 p = Some (QuotaPeriod_Start p t2)) \<or> e2 \<and> starts2 p = starts1 p"
    using RunOnce_period(2) [OF second, of p] p by auto
qed

theorem quota_reset_every_period_witness:
  "let q = \<lparr>ListTelemtNodesWithQuotaPeriod = (\<lambda>p. if p = ''week'' then Some [7] else Some []),
            SetNodeDirty_ok = (\<lambda>_. True)\<rparr>;
       (ms1, e1, s1) = RunOnce q 0 Map.empty;
       (ms2, e2, s2) = RunOnce q (8 * day_ns) s1
   in ms1 = [7] \<and> \<not> e1 \<and> 7 \<in> set ms2"
proof -
  let ?q = "\<lparr>ListTelemtNodesWithQuotaPeriod = (\<lambda>p. if p = ''week'' then Some [7] else Some []),
            SetNodeDirty_ok = (\<lambda>_. True)\<rparr> :: quota_db"
  obtain s1 where r1: "RunOnce ?q 0 Map.empty = ([7], False, s1)"
    by (simp add: RunOnce_def run_period_def)
  obtain ms2 e2 s2 where r2: "RunOnce ?q (8 * day_ns) s1 = (ms2, e2, s2)" by (metis prod_cases3)
  have "\<not> e2" using r2 by (auto simp: RunOnce_def run_period_def Let_def split: if_splits)
  have n: "QuotaPeriod_Next ''week'' 0 \<le> 8 * day_ns"
    by (simp add: Next_week time_day_def Weekday_def midnight_def)
  have "7 \<in> set ms2"
    using quota_reset_every_period [OF r1 r2] n \<open>\<not> e2\<close> less_imp_le [OF day_ns_pos(1)] by simp
  then show ?thesis by (simp add: r1 r2)
qed

end
