(* ===== verification/Web_Policy.thy ===== *)
theory Web_Policy
  imports Go_Strings
begin

text \<open>
  The WEB policy of a node and its validator (\<^verbatim>\<open>internal/domain/webpolicy.go\<close>): carriers,
  negotiation, overload handling, timeouts, the optional settings (\<open>None\<close> is a nil pointer)
  and the per-profile limits against the node's ceilings. A nil \<^verbatim>\<open>CarrierList\<close>, which
  disables negotiation, is \<open>None\<close> and differs from the empty list.
\<close>

type_synonym Carrier = string

definition Carrier_Valid :: "Carrier \<Rightarrow> bool" where
  "Carrier_Valid c \<longleftrightarrow>
     c = ''https'' \<or> c = ''https-lanes'' \<or> c = ''websocket'' \<or> c = ''websocket-lanes''"

definition Aggressiveness_Valid :: "string \<Rightarrow> bool" where
  "Aggressiveness_Valid a \<longleftrightarrow> a = ''conservative'' \<or> a = ''balanced'' \<or> a = ''aggressive''"

definition WebCapacityAction_Valid :: "string \<Rightarrow> bool" where
  "WebCapacityAction_Valid a \<longleftrightarrow> a = ''drop'' \<or> a = ''wait'' \<or> a = ''respond''"

record WebOverloadPolicy =
  OverloadPreset :: string
  ConnectionCapacityAction :: string

record WebTimeouts =
  NegotiationDeadlinesSecs :: "int list"
  CarrierHealthSecs :: int
  CarrierLearningSecs :: int
  BridgeRequestSecs :: int
  BridgeRetrySecs :: int
  ProbeCoalesceMs :: int

record WebPolicy =
  CarrierMethod :: "string option"
  Conveyor :: "bool option"
  BasePath :: "string option"
  DecoyResolve :: "string option"
  Preset :: string
  PolicyCarrier :: Carrier
  Carriers :: "Carrier list option"
  CarrierLearning :: bool
  Aggressiveness :: string
  Overload :: WebOverloadPolicy
  Timeouts :: WebTimeouts

definition DefaultWebPolicy :: WebPolicy where
  "DefaultWebPolicy =
     \<lparr>CarrierMethod = None, Conveyor = None, BasePath = None, DecoyResolve = None,
      Preset = ''automatic'', PolicyCarrier = ''https'',
      Carriers = Some [''websocket-lanes'', ''websocket'', ''https-lanes''],
      CarrierLearning = True, Aggressiveness = ''conservative'',
      Overload = \<lparr>OverloadPreset = ''balanced'', ConnectionCapacityAction = ''wait''\<rparr>,
      Timeouts = \<lparr>NegotiationDeadlinesSecs = [3, 5, 8, 12], CarrierHealthSecs = 30,
        CarrierLearningSecs = 600, BridgeRequestSecs = 10, BridgeRetrySecs = 90,
        ProbeCoalesceMs = 0\<rparr>\<rparr>"

datatype policy_error =
    DeadlineCount nat
  | DeadlineNotPositive
  | DeadlinesNotIncreasing
  | BadHealth
  | BadLearning int
  | BadBridgeRequest int
  | BadBridgeRetry int
  | RetryBelowRequest
  | BadCoalesce int
  | BadCarrierMethod
  | BadDecoyResolve
  | BadBasePath
  | BadCarrier Carrier
  | BadAggressiveness string
  | BadOverloadPreset string
  | BadCapacityAction string
  | EmptyCarriers
  | UnknownCarrier Carrier
  | CarrierTwice Carrier

definition negotiationDeadlines :: nat where
  "negotiationDeadlines = 4"

text \<open>The loop over the deadlines; \<open>prev\<close> is the previous value, \<open>None\<close> at index 0.\<close>

fun check_deadlines :: "int option \<Rightarrow> int list \<Rightarrow> policy_error err" where
  "check_deadlines prev [] = None"
| "check_deadlines prev (d # ds) =
     (if d < 1 then Some DeadlineNotPositive
      else if (case prev of None \<Rightarrow> False | Some p \<Rightarrow> d \<le> p) then Some DeadlinesNotIncreasing
      else check_deadlines (Some d) ds)"

definition WebTimeouts_Validate :: "WebTimeouts \<Rightarrow> policy_error err" where
  "WebTimeouts_Validate t =
     first_err
       [if length (NegotiationDeadlinesSecs t) \<noteq> negotiationDeadlines
          then Some (DeadlineCount (length (NegotiationDeadlinesSecs t))) else None,
        check_deadlines None (NegotiationDeadlinesSecs t),
        if CarrierHealthSecs t < 1 then Some BadHealth else None,
        if CarrierLearningSecs t < 2 \<or> CarrierLearningSecs t > 86400
          then Some (BadLearning (CarrierLearningSecs t)) else None,
        if BridgeRequestSecs t < 1 \<or> BridgeRequestSecs t > 60
          then Some (BadBridgeRequest (BridgeRequestSecs t)) else None,
        if BridgeRetrySecs t < 1 \<or> BridgeRetrySecs t > 300
          then Some (BadBridgeRetry (BridgeRetrySecs t)) else None,
        if BridgeRetrySecs t < BridgeRequestSecs t then Some RetryBelowRequest else None,
        if ProbeCoalesceMs t < 0 \<or> ProbeCoalesceMs t > 10
          then Some (BadCoalesce (ProbeCoalesceMs t)) else None]"

definition path_start :: "char \<Rightarrow> bool" where
  "path_start c \<longleftrightarrow> is_upper c \<or> is_lower c \<or> is_digit c"

definition path_segment :: "string \<Rightarrow> bool" where
  "path_segment s =
     (case s of [] \<Rightarrow> False
      | c # cs \<Rightarrow> path_start c \<and> list_all (\<lambda>x. path_start x \<or> x = CHR ''_'' \<or> x = CHR ''-'') cs)"

text \<open>
  The pattern \<^verbatim>\<open>^[A-Za-z0-9][A-Za-z0-9_-]*(/[A-Za-z0-9][A-Za-z0-9_-]*)*$\<close>: segments of that
  form, separated by single slashes.
\<close>

definition webBasePathPattern :: "string \<Rightarrow> bool" where
  "webBasePathPattern path = list_all path_segment (split_on (CHR ''/'') path)"

definition ValidateWebBasePath :: "string \<Rightarrow> policy_error err" where
  "ValidateWebBasePath path =
     (if path \<noteq> [] \<and> (length path > 128 \<or> \<not> webBasePathPattern path)
      then Some BadBasePath else None)"

definition HasAdvancedOptions :: "WebPolicy \<Rightarrow> bool" where
  "HasAdvancedOptions p \<longleftrightarrow>
     CarrierMethod p \<noteq> None \<or> Conveyor p \<noteq> None \<or> BasePath p \<noteq> None \<or> DecoyResolve p \<noteq> None"

text \<open>The loop over the carriers, with the set of those already seen.\<close>

fun check_carriers :: "Carrier list \<Rightarrow> Carrier list \<Rightarrow> policy_error err" where
  "check_carriers seen [] = None"
| "check_carriers seen (c # cs) =
     (if \<not> Carrier_Valid c then Some (UnknownCarrier c)
      else if c \<in> set seen then Some (CarrierTwice c)
      else check_carriers (c # seen) cs)"

definition WebPolicy_Validate :: "WebPolicy \<Rightarrow> policy_error err" where
  "WebPolicy_Validate p =
     first_err
       [case CarrierMethod p of None \<Rightarrow> None
          | Some m \<Rightarrow> if m \<noteq> ''post'' \<and> m \<noteq> ''put'' then Some BadCarrierMethod else None,
        case DecoyResolve p of None \<Rightarrow> None
          | Some r \<Rightarrow> if r \<noteq> ''never'' \<and> r \<noteq> ''startup'' then Some BadDecoyResolve else None,
        case BasePath p of None \<Rightarrow> None | Some b \<Rightarrow> ValidateWebBasePath b,
        if \<not> Carrier_Valid (PolicyCarrier p) then Some (BadCarrier (PolicyCarrier p)) else None,
        if \<not> Aggressiveness_Valid (Aggressiveness p)
          then Some (BadAggressiveness (Aggressiveness p)) else None,
        if OverloadPreset (Overload p) \<noteq> ''balanced'' \<and> OverloadPreset (Overload p) \<noteq> ''high_load''
           \<and> OverloadPreset (Overload p) \<noteq> ''custom''
          then Some (BadOverloadPreset (OverloadPreset (Overload p))) else None,
        if \<not> WebCapacityAction_Valid (ConnectionCapacityAction (Overload p))
          then Some (BadCapacityAction (ConnectionCapacityAction (Overload p))) else None,
        if Carriers p = Some [] then Some EmptyCarriers else None,
        case Carriers p of None \<Rightarrow> None | Some cs \<Rightarrow> check_carriers [] cs,
        WebTimeouts_Validate (Timeouts p)]"

subsection \<open>Limits of one profile against the node's ceilings\<close>

record WebGlobalLimits =
  G_MaxSessions :: int
  G_MaxStreams :: int
  G_MaxStreamsPerSession :: int

definition DefaultWebGlobalLimits :: WebGlobalLimits where
  "DefaultWebGlobalLimits =
     \<lparr>G_MaxSessions = 128, G_MaxStreams = 4096, G_MaxStreamsPerSession = 128\<rparr>"

record WebProfileLimits =
  W_MaxSessions :: int
  W_MaxStreams :: int
  W_MaxStreamsPerSession :: int

datatype profile_limit_error = NegativeLimit string | AboveCeiling string int int

definition check_ceiling :: "string \<Rightarrow> int \<Rightarrow> int \<Rightarrow> profile_limit_error err" where
  "check_ceiling name v ceiling =
     (if v < 0 then Some (NegativeLimit name)
      else if v > 0 \<and> ceiling > 0 \<and> v > ceiling then Some (AboveCeiling name v ceiling)
      else None)"

definition WebProfileLimits_Validate ::
  "WebProfileLimits \<Rightarrow> WebGlobalLimits \<Rightarrow> profile_limit_error err" where
  "WebProfileLimits_Validate l g =
     (case check_ceiling ''max_sessions'' (W_MaxSessions l) (G_MaxSessions g) of
        Some e \<Rightarrow> Some e
      | None \<Rightarrow>
          (case check_ceiling ''max_streams'' (W_MaxStreams l) (G_MaxStreams g) of
             Some e \<Rightarrow> Some e
           | None \<Rightarrow> check_ceiling ''max_streams_per_session'' (W_MaxStreamsPerSession l)
                       (G_MaxStreamsPerSession g)))"

subsection \<open>What the validators accept\<close>

lemma check_deadlines_Some_iff:
  "check_deadlines (Some p) ds = None \<longleftrightarrow> sorted_wrt (<) (p # ds) \<and> (\<forall>d \<in> set ds. 1 \<le> d)"
  by (induction ds arbitrary: p) auto

lemma check_deadlines_iff:
  "check_deadlines None ds = None \<longleftrightarrow> sorted_wrt (<) ds \<and> (\<forall>d \<in> set ds. 1 \<le> d)"
  by (cases ds) (auto simp: check_deadlines_Some_iff)

lemma check_carriers_iff:
  "check_carriers seen cs = None \<longleftrightarrow>
     distinct cs \<and> set cs \<inter> set seen = {} \<and> (\<forall>c \<in> set cs. Carrier_Valid c)"
  by (induction cs arbitrary: seen) auto

definition timeouts_sound :: "WebTimeouts \<Rightarrow> bool" where
  "timeouts_sound t \<longleftrightarrow>
     length (NegotiationDeadlinesSecs t) = 4 \<and> sorted_wrt (<) (NegotiationDeadlinesSecs t) \<and>
     (\<forall>d \<in> set (NegotiationDeadlinesSecs t). 1 \<le> d) \<and> 1 \<le> CarrierHealthSecs t \<and>
     2 \<le> CarrierLearningSecs t \<and> CarrierLearningSecs t \<le> 86400 \<and>
     1 \<le> BridgeRequestSecs t \<and> BridgeRequestSecs t \<le> 60 \<and> BridgeRequestSecs t \<le> BridgeRetrySecs t \<and>
     BridgeRetrySecs t \<le> 300 \<and> 0 \<le> ProbeCoalesceMs t \<and> ProbeCoalesceMs t \<le> 10"

lemma WebTimeouts_Validate_iff: "WebTimeouts_Validate t = None \<longleftrightarrow> timeouts_sound t"
  by (auto simp: WebTimeouts_Validate_def timeouts_sound_def check_deadlines_iff negotiationDeadlines_def)

lemma base_path_iff:
  "ValidateWebBasePath path = None \<longleftrightarrow>
     path = [] \<or> length path \<le> 128 \<and>
     (\<exists>segs. segs \<noteq> [] \<and> list_all path_segment segs \<and> path = join_with (CHR ''/'') segs)"
proof -
  have nosep: "CHR ''/'' \<notin> set s" if "path_segment s" for s
    using that by (auto simp: path_segment_def path_start_def is_upper_def is_lower_def is_digit_def
        list_all_iff split: list.splits)
  have "webBasePathPattern path \<longleftrightarrow>
      (\<exists>segs. segs \<noteq> [] \<and> list_all path_segment segs \<and> path = join_with (CHR ''/'') segs)"
  proof
    assume "webBasePathPattern path"
    then show "\<exists>segs. segs \<noteq> [] \<and> list_all path_segment segs \<and> path = join_with (CHR ''/'') segs"
      by (intro exI [of _ "split_on (CHR ''/'') path"])
        (simp add: webBasePathPattern_def join_split)
  next
    assume "\<exists>segs. segs \<noteq> [] \<and> list_all path_segment segs \<and> path = join_with (CHR ''/'') segs"
    then obtain segs where s: "segs \<noteq> []" "list_all path_segment segs"
      "path = join_with (CHR ''/'') segs" by blast
    have "split_on (CHR ''/'') path = segs"
      unfolding s(3) using s(1,2) by (intro split_join) (auto simp: list_all_iff nosep)
    with s(2) show "webBasePathPattern path" by (simp add: webBasePathPattern_def)
  qed
  then show ?thesis by (auto simp: ValidateWebBasePath_def)
qed

subsection \<open>Properties\<close>

text \<open>
  \<^verbatim>\<open>WebPolicy.Validate\<close> accepts a policy exactly when every setting is one telemt
  accepts: known enumerated values, an admissible base path, negotiation either disabled or a
  non-empty list of distinct known carriers, four strictly increasing positive deadlines and all
  timeouts within telemt's bounds.
\<close>

theorem web_policy_accepted:
  "WebPolicy_Validate p = None \<longleftrightarrow>
     CarrierMethod p \<in> {None, Some ''post'', Some ''put''} \<and>
     DecoyResolve p \<in> {None, Some ''never'', Some ''startup''} \<and>
     (BasePath p = None \<or> ValidateWebBasePath (the (BasePath p)) = None) \<and>
     Carrier_Valid (PolicyCarrier p) \<and> Aggressiveness_Valid (Aggressiveness p) \<and>
     OverloadPreset (Overload p) \<in> {''balanced'', ''high_load'', ''custom''} \<and>
     WebCapacityAction_Valid (ConnectionCapacityAction (Overload p)) \<and>
     (Carriers p = None \<or> the (Carriers p) \<noteq> [] \<and> distinct (the (Carriers p)) \<and>
        list_all Carrier_Valid (the (Carriers p))) \<and>
     timeouts_sound (Timeouts p)"
  by (simp add: WebPolicy_Validate_def WebTimeouts_Validate_iff)
    (auto simp: check_carriers_iff list_all_iff split: option.splits if_splits)

text \<open>The policy a node starts with passes the panel's own validation.\<close>

lemma default_policy_valid:
  "WebPolicy_Validate DefaultWebPolicy = None \<and>
   WebPolicy_Validate (DefaultWebPolicy\<lparr>CarrierMethod := Some ''put'', Conveyor := b,
     DecoyResolve := Some ''startup'', BasePath := Some ''app/v1''\<rparr>) = None"
  by (simp add: WebPolicy_Validate_def DefaultWebPolicy_def WebTimeouts_Validate_iff timeouts_sound_def
      Carrier_Valid_def Aggressiveness_Valid_def WebCapacityAction_Valid_def ValidateWebBasePath_def
      webBasePathPattern_def path_segment_def path_start_def is_lower_def is_digit_def is_upper_def)

text \<open>
  Limits a profile passes validation with never exceed a ceiling the node enforces, so
  telemt does not refuse the configuration: each limit is unset or at most the ceiling, wherever
  the node has one.
\<close>

theorem profile_limits_within_ceilings:
  "WebProfileLimits_Validate l g = None \<longleftrightarrow>
     0 \<le> W_MaxSessions l \<and> 0 \<le> W_MaxStreams l \<and> 0 \<le> W_MaxStreamsPerSession l \<and>
     (G_MaxSessions g \<le> 0 \<or> W_MaxSessions l \<le> G_MaxSessions g) \<and>
     (G_MaxStreams g \<le> 0 \<or> W_MaxStreams l \<le> G_MaxStreams g) \<and>
     (G_MaxStreamsPerSession g \<le> 0 \<or> W_MaxStreamsPerSession l \<le> G_MaxStreamsPerSession g)"
  by (auto simp: WebProfileLimits_Validate_def check_ceiling_def split: option.splits if_splits)

end
