(* ===== verification/Web_Capacity.thy ===== *)
theory Web_Capacity
  imports Main
begin

text \<open>
  The node-wide WEB capacity presets (\<^verbatim>\<open>internal/domain/webcapacity.go\<close>) and the tally of a
  diagnostics run (\<^verbatim>\<open>internal/domain/diagnostics.go\<close>).
\<close>

definition WebCapacityStandard :: int where
  "WebCapacityStandard = 128"

definition WebCapacityPresets :: "int list" where
  "WebCapacityPresets = [128, 256, 512, 1024, 2048]"

definition WebServiceProfiles :: int where
  "WebServiceProfiles = 1"

definition WebMaxProfiles :: "int \<Rightarrow> int" where
  "WebMaxProfiles maxProfiles = maxProfiles + WebServiceProfiles"

record WebLimits =
  L_MaxSessionsGlobal :: int
  L_MaxSessionsPerIP :: int
  L_MaxStreamsGlobal :: int
  L_MaxHTTPConnections :: int
  L_MaxHTTPHandlers :: int
  L_MaxHTTPOverloadConnections :: int
  L_MaxBootstrapsGlobal :: int
  L_MaxBootstrapsPerIP :: int
  L_NewBootstrapsPerMinute :: int
  L_NewBootstrapsBurst :: int
  L_NewSessionsPerMinute :: int
  L_NewSessionsBurst :: int
  L_NewStreamsPerMinute :: int
  L_NewStreamsBurst :: int
  L_MaxStreamHandshakes :: int
  L_MaxBodyReaders :: int
  L_MaxBodyBytesGlobal :: int
  L_MaxTombstonesPerSession :: int
  L_ControlBytesGlobal :: int
  L_PendingBytesGlobal :: int
  L_PendingItemsGlobal :: int
  L_WebsocketBytesGlobal :: int
  L_MemoryEnvelopeBytes :: int

record WebCapacity =
  Limits :: WebLimits
  MaxConnections :: int

definition mib :: int where
  "mib = 1024 * 1024"

definition preset_128 :: WebCapacity where
  "preset_128 =
     \<lparr>Limits =
       \<lparr>L_MaxSessionsGlobal = 128, L_MaxSessionsPerIP = 16, L_MaxStreamsGlobal = 4096,
        L_MaxHTTPConnections = 1024, L_MaxHTTPHandlers = 512,
        L_MaxHTTPOverloadConnections = 64, L_MaxBootstrapsGlobal = 512,
        L_MaxBootstrapsPerIP = 64, L_NewBootstrapsPerMinute = 1200,
        L_NewBootstrapsBurst = 256, L_NewSessionsPerMinute = 600, L_NewSessionsBurst = 128,
        L_NewStreamsPerMinute = 6000, L_NewStreamsBurst = 512, L_MaxStreamHandshakes = 256,
        L_MaxBodyReaders = 32, L_MaxBodyBytesGlobal = 64 * mib,
        L_MaxTombstonesPerSession = 4096, L_ControlBytesGlobal = 16 * mib,
        L_PendingBytesGlobal = 512 * mib, L_PendingItemsGlobal = 256 * 1024,
        L_WebsocketBytesGlobal = 256 * mib, L_MemoryEnvelopeBytes = 1280 * mib\<rparr>,
      MaxConnections = 10000\<rparr>"

definition preset_256 :: WebCapacity where
  "preset_256 =
     \<lparr>Limits =
       \<lparr>L_MaxSessionsGlobal = 256, L_MaxSessionsPerIP = 32, L_MaxStreamsGlobal = 8192,
        L_MaxHTTPConnections = 2048, L_MaxHTTPHandlers = 1024,
        L_MaxHTTPOverloadConnections = 128, L_MaxBootstrapsGlobal = 1024,
        L_MaxBootstrapsPerIP = 128, L_NewBootstrapsPerMinute = 2400,
        L_NewBootstrapsBurst = 512, L_NewSessionsPerMinute = 1200,
        L_NewSessionsBurst = 256, L_NewStreamsPerMinute = 12000, L_NewStreamsBurst = 1024,
        L_MaxStreamHandshakes = 512, L_MaxBodyReaders = 64,
        L_MaxBodyBytesGlobal = 128 * mib, L_MaxTombstonesPerSession = 2048,
        L_ControlBytesGlobal = 32 * mib, L_PendingBytesGlobal = 640 * mib,
        L_PendingItemsGlobal = 512 * 1024, L_WebsocketBytesGlobal = 320 * mib,
        L_MemoryEnvelopeBytes = 1536 * mib\<rparr>,
      MaxConnections = 15000\<rparr>"

definition preset_512 :: WebCapacity where
  "preset_512 =
     \<lparr>Limits =
       \<lparr>L_MaxSessionsGlobal = 512, L_MaxSessionsPerIP = 48, L_MaxStreamsGlobal = 16384,
        L_MaxHTTPConnections = 4096, L_MaxHTTPHandlers = 2048,
        L_MaxHTTPOverloadConnections = 256, L_MaxBootstrapsGlobal = 2048,
        L_MaxBootstrapsPerIP = 192, L_NewBootstrapsPerMinute = 4800,
        L_NewBootstrapsBurst = 1024, L_NewSessionsPerMinute = 2400,
        L_NewSessionsBurst = 512, L_NewStreamsPerMinute = 24000, L_NewStreamsBurst = 2048,
        L_MaxStreamHandshakes = 1024, L_MaxBodyReaders = 128,
        L_MaxBodyBytesGlobal = 256 * mib, L_MaxTombstonesPerSession = 1024,
        L_ControlBytesGlobal = 64 * mib, L_PendingBytesGlobal = 768 * mib,
        L_PendingItemsGlobal = 1024 * 1024, L_WebsocketBytesGlobal = 384 * mib,
        L_MemoryEnvelopeBytes = 2048 * mib\<rparr>,
      MaxConnections = 20000\<rparr>"

definition preset_1024 :: WebCapacity where
  "preset_1024 =
     \<lparr>Limits =
       \<lparr>L_MaxSessionsGlobal = 1024, L_MaxSessionsPerIP = 64, L_MaxStreamsGlobal = 32768,
        L_MaxHTTPConnections = 8192, L_MaxHTTPHandlers = 4096,
        L_MaxHTTPOverloadConnections = 512, L_MaxBootstrapsGlobal = 4096,
        L_MaxBootstrapsPerIP = 256, L_NewBootstrapsPerMinute = 9600,
        L_NewBootstrapsBurst = 2048, L_NewSessionsPerMinute = 4800,
        L_NewSessionsBurst = 1024, L_NewStreamsPerMinute = 48000, L_NewStreamsBurst = 4096,
        L_MaxStreamHandshakes = 2048, L_MaxBodyReaders = 256,
        L_MaxBodyBytesGlobal = 512 * mib, L_MaxTombstonesPerSession = 512,
        L_ControlBytesGlobal = 128 * mib, L_PendingBytesGlobal = 1024 * mib,
        L_PendingItemsGlobal = 2048 * 1024, L_WebsocketBytesGlobal = 512 * mib,
        L_MemoryEnvelopeBytes = 2560 * mib\<rparr>,
      MaxConnections = 40000\<rparr>"

definition preset_2048 :: WebCapacity where
  "preset_2048 =
     \<lparr>Limits =
       \<lparr>L_MaxSessionsGlobal = 2048, L_MaxSessionsPerIP = 96, L_MaxStreamsGlobal = 65536,
        L_MaxHTTPConnections = 16384, L_MaxHTTPHandlers = 8192,
        L_MaxHTTPOverloadConnections = 1024, L_MaxBootstrapsGlobal = 8192,
        L_MaxBootstrapsPerIP = 384, L_NewBootstrapsPerMinute = 19200,
        L_NewBootstrapsBurst = 4096, L_NewSessionsPerMinute = 9600,
        L_NewSessionsBurst = 2048, L_NewStreamsPerMinute = 96000, L_NewStreamsBurst = 8192,
        L_MaxStreamHandshakes = 4096, L_MaxBodyReaders = 512,
        L_MaxBodyBytesGlobal = 1024 * mib, L_MaxTombstonesPerSession = 256,
        L_ControlBytesGlobal = 256 * mib, L_PendingBytesGlobal = 1536 * mib,
        L_PendingItemsGlobal = 4096 * 1024, L_WebsocketBytesGlobal = 768 * mib,
        L_MemoryEnvelopeBytes = 4032 * mib\<rparr>,
      MaxConnections = 80000\<rparr>"

definition webCapacityPresets :: "int \<Rightarrow> WebCapacity option" where
  "webCapacityPresets =
     [128 \<mapsto> preset_128,
      256 \<mapsto> preset_256,
      512 \<mapsto> preset_512,
      1024 \<mapsto> preset_1024,
      2048 \<mapsto> preset_2048]"

definition ValidWebCapacity :: "int \<Rightarrow> bool" where
  "ValidWebCapacity n \<longleftrightarrow> webCapacityPresets n \<noteq> None"

definition WebCapacityPreset :: "int \<Rightarrow> WebCapacity option" where
  "WebCapacityPreset n = webCapacityPresets n"

definition WebLimits_Fields :: "WebLimits \<Rightarrow> (string \<times> int) list" where
  "WebLimits_Fields l =
     [(''max_sessions_global'', L_MaxSessionsGlobal l),
      (''max_sessions_per_ip'', L_MaxSessionsPerIP l),
      (''max_streams_global'', L_MaxStreamsGlobal l),
      (''max_http_connections'', L_MaxHTTPConnections l),
      (''max_http_handlers'', L_MaxHTTPHandlers l),
      (''max_http_overload_connections'', L_MaxHTTPOverloadConnections l),
      (''max_bootstraps_global'', L_MaxBootstrapsGlobal l),
      (''max_bootstraps_per_ip'', L_MaxBootstrapsPerIP l),
      (''new_bootstraps_per_minute'', L_NewBootstrapsPerMinute l),
      (''new_bootstraps_burst'', L_NewBootstrapsBurst l),
      (''new_sessions_per_minute'', L_NewSessionsPerMinute l),
      (''new_sessions_burst'', L_NewSessionsBurst l),
      (''new_streams_per_minute'', L_NewStreamsPerMinute l),
      (''new_streams_burst'', L_NewStreamsBurst l),
      (''max_stream_handshakes'', L_MaxStreamHandshakes l),
      (''max_body_readers'', L_MaxBodyReaders l),
      (''max_body_bytes_global'', L_MaxBodyBytesGlobal l),
      (''max_tombstones_per_session'', L_MaxTombstonesPerSession l),
      (''control_bytes_global'', L_ControlBytesGlobal l),
      (''pending_bytes_global'', L_PendingBytesGlobal l),
      (''pending_items_global'', L_PendingItemsGlobal l),
      (''websocket_bytes_global'', L_WebsocketBytesGlobal l),
      (''memory_envelope_bytes'', L_MemoryEnvelopeBytes l)]"

subsection \<open>Diagnostics\<close>

datatype CheckStatus = CheckOK | CheckWarn | CheckFail | CheckNotAvailable | CheckOther string

datatype DiagnosticsStatus = DiagnosticsHealthy | DiagnosticsDegraded | DiagnosticsOffline | DiagnosticsUnknown

record DiagnosticCheck =
  CheckKey :: string
  CheckStatusOf :: CheckStatus

record DiagnosticGroup =
  GroupKey :: string
  Checks :: "DiagnosticCheck list"

record DiagnosticsRun =
  RunStatus :: DiagnosticsStatus
  Groups :: "DiagnosticGroup list"
  Passed :: int
  Total :: int
  NotRun :: int

text \<open>The counters of the loops: passed, total, not run, failed, warned.\<close>

type_synonym tally = "int \<times> int \<times> int \<times> int \<times> int"

fun tally_check :: "CheckStatus \<Rightarrow> tally \<Rightarrow> tally" where
  "tally_check CheckNotAvailable (p, t, n, f, w) = (p, t, n + 1, f, w)"
| "tally_check CheckOK (p, t, n, f, w) = (p + 1, t + 1, n, f, w)"
| "tally_check CheckWarn (p, t, n, f, w) = (p, t + 1, n, f, w + 1)"
| "tally_check CheckFail (p, t, n, f, w) = (p, t + 1, n, f + 1, w)"
| "tally_check (CheckOther s) (p, t, n, f, w) = (p, t + 1, n, f, w)"

definition tally_groups :: "DiagnosticGroup list \<Rightarrow> tally \<Rightarrow> tally" where
  "tally_groups gs a =
     fold (\<lambda>g a. fold (\<lambda>c a. tally_check (CheckStatusOf c) a) (Checks g) a) gs a"

definition Tally :: "DiagnosticsRun \<Rightarrow> DiagnosticsRun" where
  "Tally r =
     (case tally_groups (Groups r) (0, 0, 0, 0, 0) of
        (p, t, n, f, w) \<Rightarrow>
          r\<lparr>Passed := p, Total := t, NotRun := n,
            RunStatus := (if t = 0 then DiagnosticsUnknown
                          else if f > 0 \<or> w > 0 then DiagnosticsDegraded
                          else DiagnosticsHealthy)\<rparr>)"

definition all_statuses :: "DiagnosticsRun \<Rightarrow> CheckStatus list" where
  "all_statuses r = concat (map (\<lambda>g. map CheckStatusOf (Checks g)) (Groups r))"

lemma tally_groups_flat:
  "tally_groups gs a = fold tally_check (concat (map (\<lambda>g. map CheckStatusOf (Checks g)) gs)) a"
  by (induction gs arbitrary: a) (simp_all add: tally_groups_def fold_map comp_def)

lemma fold_tally_check:
  "fold tally_check ss (p, t, n, f, w) =
     (p + int (count_list ss CheckOK),
      t + int (length ss - count_list ss CheckNotAvailable),
      n + int (count_list ss CheckNotAvailable),
      f + int (count_list ss CheckFail), w + int (count_list ss CheckWarn))"
proof (induction ss arbitrary: p t n f w)
  case (Cons s ss)
  have "count_list ss CheckNotAvailable \<le> length ss" by (rule count_le_length)
  with Cons show ?case by (cases s) simp_all
qed simp

subsection \<open>Properties\<close>

lemmas preset_defs = preset_128_def preset_256_def preset_512_def preset_1024_def preset_2048_def mib_def

text \<open>
  The presets offered to the operator and the table of values agree, and every preset is
  coherent: it gives the session count it is named after, its stream, connection, handler and
  bootstrap ceilings cover that many sessions, the byte budgets fit the memory envelope, and the
  tombstones kept over all sessions stay the same.
\<close>

theorem capacity_presets_coherent:
  "{n. ValidWebCapacity n} = set WebCapacityPresets \<and>
   (\<forall>n c. WebCapacityPreset n = Some c \<longrightarrow>
      L_MaxSessionsGlobal (Limits c) = n \<and> L_MaxSessionsPerIP (Limits c) \<le> n \<and>
      L_MaxStreamsGlobal (Limits c) = 32 * n \<and>
      L_MaxHTTPHandlers (Limits c) = 4 * n \<and> L_MaxHTTPConnections (Limits c) = 8 * n \<and>
      L_MaxHTTPConnections (Limits c) < MaxConnections c \<and>
      L_MaxBootstrapsGlobal (Limits c) = 4 * n \<and> L_NewSessionsBurst (Limits c) = n \<and>
      L_MaxBodyBytesGlobal (Limits c) + L_ControlBytesGlobal (Limits c) + L_PendingBytesGlobal (Limits c)
        + L_WebsocketBytesGlobal (Limits c) \<le> L_MemoryEnvelopeBytes (Limits c) \<and>
      L_MaxTombstonesPerSession (Limits c) * n = 524288)"
proof
  show "{n. ValidWebCapacity n} = set WebCapacityPresets"
    by (auto simp: ValidWebCapacity_def webCapacityPresets_def WebCapacityPresets_def split: if_splits)
  show "\<forall>n c. WebCapacityPreset n = Some c \<longrightarrow>
      L_MaxSessionsGlobal (Limits c) = n \<and> L_MaxSessionsPerIP (Limits c) \<le> n \<and>
      L_MaxStreamsGlobal (Limits c) = 32 * n \<and>
      L_MaxHTTPHandlers (Limits c) = 4 * n \<and> L_MaxHTTPConnections (Limits c) = 8 * n \<and>
      L_MaxHTTPConnections (Limits c) < MaxConnections c \<and>
      L_MaxBootstrapsGlobal (Limits c) = 4 * n \<and> L_NewSessionsBurst (Limits c) = n \<and>
      L_MaxBodyBytesGlobal (Limits c) + L_ControlBytesGlobal (Limits c) + L_PendingBytesGlobal (Limits c)
        + L_WebsocketBytesGlobal (Limits c) \<le> L_MemoryEnvelopeBytes (Limits c) \<and>
      L_MaxTombstonesPerSession (Limits c) * n = 524288"
    by (auto simp: WebCapacityPreset_def webCapacityPresets_def preset_defs split: if_splits)
qed

theorem capacity_presets_coherent_witness:
  "L_MaxStreamsGlobal (Limits preset_512) = 16384"
proof -
  have "WebCapacityPreset 512 = Some preset_512"
    by (simp add: WebCapacityPreset_def webCapacityPresets_def)
  from conjunct2 [OF capacity_presets_coherent, rule_format, OF this]
  have "L_MaxStreamsGlobal (Limits preset_512) = 32 * 512" by (elim conjE)
  then show ?thesis by simp
qed

text \<open>
  The tally of a diagnostics run counts every check once: total plus not-run is the number
  of checks, passed counts the \<^verbatim>\<open>ok\<close> ones; the run is healthy exactly when some check ran and
  none warned or failed, and a check that could not be performed never changes the status.
\<close>

theorem tally_counts:
  "Total (Tally r) + NotRun (Tally r) = int (length (all_statuses r)) \<and>
   NotRun (Tally r) = int (count_list (all_statuses r) CheckNotAvailable) \<and>
   Passed (Tally r) = int (count_list (all_statuses r) CheckOK) \<and>
   (RunStatus (Tally r) = DiagnosticsHealthy \<longleftrightarrow>
      CheckWarn \<notin> set (all_statuses r) \<and> CheckFail \<notin> set (all_statuses r) \<and>
      set (all_statuses r) \<noteq> {} \<and> set (all_statuses r) \<noteq> {CheckNotAvailable}) \<and>
   (RunStatus (Tally r) = DiagnosticsUnknown \<longleftrightarrow> set (all_statuses r) \<subseteq> {CheckNotAvailable})"
proof -
  let ?ss = "all_statuses r"
  have le: "count_list ?ss CheckNotAvailable \<le> length ?ss" by (rule count_le_length)
  have all: "count_list ?ss CheckNotAvailable = length ?ss \<longleftrightarrow> set ?ss \<subseteq> {CheckNotAvailable}"
  proof -
    have "count_list xs a = length xs \<longleftrightarrow> set xs \<subseteq> {a}" for xs :: "CheckStatus list" and a
    proof (induction xs)
      case (Cons x xs)
      have "count_list xs a \<le> length xs" by (rule count_le_length)
      with Cons show ?case by auto
    qed simp
    then show ?thesis .
  qed
  have t: "tally_groups (Groups r) (0, 0, 0, 0, 0) =
     (int (count_list ?ss CheckOK), int (length ?ss - count_list ?ss CheckNotAvailable),
      int (count_list ?ss CheckNotAvailable), int (count_list ?ss CheckFail),
      int (count_list ?ss CheckWarn))"
    by (simp add: tally_groups_flat all_statuses_def [symmetric] fold_tally_check)
  have status: "RunStatus (Tally r) =
      (if set ?ss \<subseteq> {CheckNotAvailable} then DiagnosticsUnknown
       else if CheckFail \<in> set ?ss \<or> CheckWarn \<in> set ?ss then DiagnosticsDegraded
       else DiagnosticsHealthy)"
  proof -
    have "int (length ?ss - count_list ?ss CheckNotAvailable) = 0 \<longleftrightarrow> set ?ss \<subseteq> {CheckNotAvailable}"
      using le all by auto
    moreover have "0 < int (count_list ?ss x) \<longleftrightarrow> x \<in> set ?ss" for x
      using count_list_0_iff [of ?ss x] by auto
    ultimately show ?thesis by (simp only: Tally_def t prod.case) simp
  qed
  have "Total (Tally r) + NotRun (Tally r) = int (length ?ss)"
    "NotRun (Tally r) = int (count_list ?ss CheckNotAvailable)"
    "Passed (Tally r) = int (count_list ?ss CheckOK)"
    using le by (simp_all add: Tally_def t)
  moreover have "set ?ss \<subseteq> {CheckNotAvailable} \<longleftrightarrow> set ?ss = {} \<or> set ?ss = {CheckNotAvailable}"
    by (rule subset_singleton_iff)
  ultimately show ?thesis unfolding status by auto
qed

end
