(* ===== verification/Token_Policy.thy ===== *)
theory Token_Policy
  imports Go_Strings
begin

text \<open>
  What a personal API token may call (\<^verbatim>\<open>internal/api/api_token_policy.go\<close>) and the role gate
  of session users (\<^verbatim>\<open>internal/api/rbac.go\<close>). The catalog is the source's, without the
  documentation strings. \<open>RoutePattern\<close>, the pattern the router matched, and the principal of
  the request are arguments; the middleware either passes the request on or answers 403 or 401.
\<close>

record APIRoute =
  Method :: string
  Path :: string
  Scope :: string
  OwnerOnly :: bool

definition route :: "string \<Rightarrow> string \<Rightarrow> string \<Rightarrow> bool \<Rightarrow> APIRoute" where
  "route m p s own = \<lparr>Method = m, Path = p, Scope = s, OwnerOnly = own\<rparr>"

definition managementAPIRoutes :: "APIRoute list" where
  "managementAPIRoutes =
     [route ''GET'' ''/api/v1/nodes'' ''nodes:read'' False,
      route ''GET'' ''/api/v1/nodes/{id}'' ''nodes:read'' False,
      route ''GET'' ''/api/v1/nodes/{id}/probes'' ''nodes:read'' False,
      route ''GET'' ''/api/v1/nodes/{id}/health'' ''nodes:read'' False,
      route ''GET'' ''/api/v1/nodes/{id}/reliability'' ''nodes:read'' False,
      route ''GET'' ''/api/v1/nodes/{id}/blocklist'' ''nodes:read'' False,
      route ''GET'' ''/api/v1/nodes/{id}/profiles'' ''nodes:read'' False,
      route ''GET'' ''/api/v1/nodes/{id}/stats'' ''nodes:read'' False,
      route ''GET'' ''/api/v1/nodes/{id}/metrics'' ''nodes:read'' False,
      route ''GET'' ''/api/v1/nodes/{id}/jobs'' ''nodes:write'' False,
      route ''GET'' ''/api/v1/nodes/{id}/web-policy'' ''nodes:read'' False,
      route ''GET'' ''/api/v1/nodes/{id}/web/carriers'' ''nodes:read'' False,
      route ''GET'' ''/api/v1/nodes/{id}/telemt-update'' ''nodes:write'' False,
      route ''GET'' ''/api/v1/nodes/{id}/diagnostics'' ''nodes:write'' False,
      route ''GET'' ''/api/v1/fleet/updates'' ''nodes:write'' False,
      route ''GET'' ''/api/v1/status/update'' ''nodes:read'' False,
      route ''POST'' ''/api/v1/nodes/preflight/dns'' ''nodes:write'' False,
      route ''POST'' ''/api/v1/nodes'' ''nodes:write'' False,
      route ''PUT'' ''/api/v1/nodes/order'' ''nodes:write'' False,
      route ''PATCH'' ''/api/v1/nodes/{id}'' ''nodes:write'' False,
      route ''DELETE'' ''/api/v1/nodes/{id}'' ''nodes:write'' False,
      route ''GET'' ''/api/v1/nodes/{id}/install-command'' ''nodes:write'' False,
      route ''GET'' ''/api/v1/nodes/{id}/registration-secret'' ''nodes:write'' False,
      route ''GET'' ''/api/v1/nodes/{id}/logs'' ''nodes:write'' False,
      route ''PUT'' ''/api/v1/nodes/{id}/reliability'' ''nodes:write'' False,
      route ''PUT'' ''/api/v1/nodes/{id}/blocklist'' ''nodes:write'' False,
      route ''POST'' ''/api/v1/nodes/{id}/restart'' ''nodes:write'' False,
      route ''POST'' ''/api/v1/nodes/{id}/apply'' ''nodes:write'' False,
      route ''POST'' ''/api/v1/nodes/{id}/web/lifecycle'' ''nodes:write'' False,
      route ''PUT'' ''/api/v1/nodes/{id}/web-policy'' ''nodes:write'' False,
      route ''POST'' ''/api/v1/nodes/{id}/check'' ''nodes:write'' False,
      route ''POST'' ''/api/v1/nodes/{id}/telemt-update'' ''nodes:write'' False,
      route ''POST'' ''/api/v1/nodes/{id}/diagnostics/web'' ''nodes:write'' False,
      route ''POST'' ''/api/v1/fleet/updates'' ''nodes:write'' False,
      route ''POST'' ''/api/v1/fleet/updates/{id}/stop'' ''nodes:write'' False,
      route ''GET'' ''/api/v1/keys'' ''users:read'' False,
      route ''GET'' ''/api/v1/keys/summary'' ''users:read'' False,
      route ''GET'' ''/api/v1/keys/{id}'' ''users:read'' False,
      route ''GET'' ''/api/v1/keys/{id}/stats'' ''users:read'' False,
      route ''GET'' ''/api/v1/keys/{id}/presence'' ''users:read'' False,
      route ''POST'' ''/api/v1/keys'' ''users:write'' False,
      route ''POST'' ''/api/v1/keys/batch'' ''users:write'' False,
      route ''POST'' ''/api/v1/keys/import'' ''users:write'' False,
      route ''POST'' ''/api/v1/keys/bulk'' ''users:write'' False,
      route ''PATCH'' ''/api/v1/keys/{id}'' ''users:write'' False,
      route ''DELETE'' ''/api/v1/keys/{id}'' ''users:write'' False,
      route ''POST'' ''/api/v1/keys/{id}/revoke'' ''users:write'' False,
      route ''POST'' ''/api/v1/keys/{id}/rotate'' ''users:write'' False,
      route ''POST'' ''/api/v1/keys/{id}/disable'' ''users:write'' False,
      route ''POST'' ''/api/v1/keys/{id}/enable'' ''users:write'' False,
      route ''GET'' ''/api/v1/keys/{id}/links'' ''users:write'' False,
      route ''GET'' ''/api/v1/keys/{id}/qr'' ''users:write'' False,
      route ''POST'' ''/api/v1/keys/{id}/bindings'' ''users:write'' False,
      route ''DELETE'' ''/api/v1/keys/{id}/bindings/{node}'' ''users:write'' False,
      route ''POST'' ''/api/v1/keys/{id}/subscription'' ''users:write'' False,
      route ''DELETE'' ''/api/v1/keys/{id}/subscription'' ''users:write'' False,
      route ''GET'' ''/api/v1/keys/{id}/subscription/qr'' ''users:write'' False,
      route ''GET'' ''/api/v1/monitoring/overview'' ''monitoring:read'' False,
      route ''GET'' ''/api/v1/monitoring/nodes/{id}/series'' ''monitoring:read'' False,
      route ''GET'' ''/api/v1/monitoring/web/carriers'' ''monitoring:read'' False,
      route ''GET'' ''/api/v1/dashboard/summary'' ''monitoring:read'' False,
      route ''GET'' ''/api/v1/dashboard/trends'' ''monitoring:read'' False,
      route ''GET'' ''/api/v1/alerts'' ''monitoring:read'' False,
      route ''GET'' ''/api/v1/status/public'' ''monitoring:read'' False,
      route ''POST'' ''/api/v1/alerts/resolve'' ''monitoring:write'' False,
      route ''POST'' ''/api/v1/alerts/{id}/resolve'' ''monitoring:write'' False,
      route ''GET'' ''/api/v1/site-templates'' ''sites:read'' False,
      route ''GET'' ''/api/v1/site-templates/{id}'' ''sites:read'' False,
      route ''GET'' ''/api/v1/nodes/{id}/site'' ''sites:read'' False,
      route ''GET'' ''/api/v1/nodes/{id}/site/preview'' ''sites:read'' False,
      route ''POST'' ''/api/v1/site-templates/import'' ''sites:write'' False,
      route ''POST'' ''/api/v1/site-templates'' ''sites:write'' False,
      route ''POST'' ''/api/v1/site-templates/validate'' ''sites:write'' False,
      route ''POST'' ''/api/v1/site-templates/{id}/customize'' ''sites:write'' False,
      route ''PUT'' ''/api/v1/site-templates/{id}'' ''sites:write'' False,
      route ''DELETE'' ''/api/v1/site-templates/{id}'' ''sites:write'' False,
      route ''POST'' ''/api/v1/nodes/{id}/site'' ''sites:write'' False,
      route ''POST'' ''/api/v1/nodes/{id}/site/upstream'' ''sites:write'' False,
      route ''GET'' ''/api/v1/branding/profiles'' ''branding:read'' False,
      route ''POST'' ''/api/v1/branding/profiles'' ''branding:write'' False,
      route ''PUT'' ''/api/v1/branding/profiles/{id}'' ''branding:write'' False,
      route ''DELETE'' ''/api/v1/branding/profiles/{id}'' ''branding:write'' False,
      route ''POST'' ''/api/v1/branding/profiles/{id}/activate'' ''branding:write'' False,
      route ''POST'' ''/api/v1/branding/profiles/{id}/upload'' ''branding:write'' False,
      route ''GET'' ''/api/v1/settings'' ''settings:read'' False,
      route ''GET'' ''/api/v1/settings/subscription-page/preview'' ''settings:read'' False,
      route ''PUT'' ''/api/v1/settings'' ''settings:write'' True,
      route ''POST'' ''/api/v1/settings/telegram/test'' ''settings:write'' True,
      route ''GET'' ''/api/v1/audit'' ''audit:read'' False]"

fun find_route :: "string \<Rightarrow> string \<Rightarrow> APIRoute list \<Rightarrow> APIRoute option" where
  "find_route m pat [] = None"
| "find_route m pat (r # rs) =
     (if Method r = m \<and> Path r = pat then Some r else find_route m pat rs)"

definition managementRoute :: "string \<Rightarrow> string \<Rightarrow> APIRoute option" where
  "managementRoute m pat = find_route m (TrimSuffix pat ''/'') managementAPIRoutes"

abbreviation RoleOwner :: string where "RoleOwner \<equiv> ''owner''"
abbreviation RoleAdmin :: string where "RoleAdmin \<equiv> ''admin''"
abbreviation RoleViewer :: string where "RoleViewer \<equiv> ''viewer''"

definition tokenScopeAllowed :: "string \<Rightarrow> string \<Rightarrow> bool" where
  "tokenScopeAllowed role scope =
     (if role \<noteq> RoleOwner \<and> role \<noteq> RoleAdmin \<and> role \<noteq> RoleViewer then False
      else role \<noteq> RoleViewer \<or> HasSuffix scope '':read'')"

text \<open>\<open>APITokenID = None\<close> is the nil identifier: the request came with a session, not a token.\<close>

record Principal =
  Role :: string
  APITokenID :: "nat option"
  APITokenScopes :: "string list"

definition principalCanWrite :: "Principal option \<Rightarrow> string \<Rightarrow> bool" where
  "principalCanWrite who resource =
     (case who of None \<Rightarrow> False
      | Some p \<Rightarrow> (Role p = RoleOwner \<or> Role p = RoleAdmin) \<and>
          (APITokenID p = None \<or> (resource @ '':write'') \<in> set (APITokenScopes p)))"

datatype decision = Pass | Forbidden | Unauthorized

definition enforceAPITokenPolicy :: "Principal option \<Rightarrow> string \<Rightarrow> string \<Rightarrow> decision" where
  "enforceAPITokenPolicy who m pat =
     (case who of
        None \<Rightarrow> Pass
      | Some p \<Rightarrow>
          if APITokenID p = None then Pass
          else (case managementRoute m pat of
                  None \<Rightarrow> Forbidden
                | Some r \<Rightarrow>
                    if Scope r \<notin> set (APITokenScopes p) \<or> \<not> tokenScopeAllowed (Role p) (Scope r)
                       \<or> OwnerOnly r \<and> Role p \<noteq> RoleOwner
                    then Forbidden else Pass))"

definition RequireRole :: "string list \<Rightarrow> Principal option \<Rightarrow> decision" where
  "RequireRole roles who =
     (case who of None \<Rightarrow> Unauthorized
      | Some p \<Rightarrow> if Role p \<notin> set roles then Forbidden else Pass)"

definition writers :: "string list" where
  "writers = [RoleOwner, RoleAdmin]"

subsection \<open>The catalog\<close>

lemma find_route_SomeD:
  "find_route m pat rs = Some r \<Longrightarrow> r \<in> set rs \<and> Method r = m \<and> Path r = pat"
  by (induction rs) (auto split: if_splits)

lemma find_route_iff:
  "distinct (map (\<lambda>r. (Method r, Path r)) rs) \<Longrightarrow>
   find_route m pat rs = Some r \<longleftrightarrow> r \<in> set rs \<and> Method r = m \<and> Path r = pat"
  by (induction rs) (auto split: if_splits)

text \<open>Facts about every entry, checked entry by entry.\<close>

definition entry_sound :: "APIRoute \<Rightarrow> bool" where
  "entry_sound r \<longleftrightarrow>
     (HasSuffix (Scope r) '':read'' \<longrightarrow> Method r = ''GET'') \<and>
     (HasSuffix (Scope r) '':read'' \<or> HasSuffix (Scope r) '':write'') \<and>
     HasPrefix (Path r) ''/api/v1/'' \<and> TrimSuffix (Path r) ''/'' = Path r \<and>
     (HasPrefix (Scope r) ''settings:w'' \<longrightarrow> OwnerOnly r)"

lemma catalog_sound: "list_all entry_sound managementAPIRoutes"
  by code_simp

lemma catalog_distinct: "distinct (map (\<lambda>r. (Method r, Path r)) managementAPIRoutes)"
  by code_simp

lemma managementRoute_iff:
  "managementRoute m pat = Some r \<longleftrightarrow>
     r \<in> set managementAPIRoutes \<and> Method r = m \<and> Path r = TrimSuffix pat ''/''"
  unfolding managementRoute_def by (rule find_route_iff) (rule catalog_distinct)

lemma managementRoute_sound:
  "managementRoute m pat = Some r \<Longrightarrow> entry_sound r \<and> Method r = m"
  using catalog_sound by (auto simp: managementRoute_iff list_all_iff)

lemma enforce_range: "enforceAPITokenPolicy who m pat \<in> {Pass, Forbidden}"
  by (simp add: enforceAPITokenPolicy_def split: option.splits)

text \<open>A token request that passes, spelled out.\<close>

lemma token_passes_iff:
  assumes "APITokenID p \<noteq> None"
  shows "enforceAPITokenPolicy (Some p) m pat = Pass \<longleftrightarrow>
    (\<exists>r \<in> set managementAPIRoutes. Method r = m \<and> Path r = TrimSuffix pat ''/'' \<and>
       Scope r \<in> set (APITokenScopes p) \<and> tokenScopeAllowed (Role p) (Scope r) \<and>
       (OwnerOnly r \<longrightarrow> Role p = RoleOwner))"
proof (cases "managementRoute m pat")
  case None
  then have "\<not> (\<exists>r \<in> set managementAPIRoutes. Method r = m \<and> Path r = TrimSuffix pat ''/'')"
    using managementRoute_iff [of m pat] by auto
  with None assms show ?thesis by (auto simp: enforceAPITokenPolicy_def)
next
  case (Some r)
  have only: "r' \<in> set managementAPIRoutes \<and> Method r' = m \<and> Path r' = TrimSuffix pat ''/'' \<longleftrightarrow> r' = r" for r'
    by (subst managementRoute_iff [symmetric]) (auto simp: Some)
  let ?Q = "\<lambda>r. Scope r \<in> set (APITokenScopes p) \<and> tokenScopeAllowed (Role p) (Scope r) \<and>
       (OwnerOnly r \<longrightarrow> Role p = RoleOwner)"
  have "enforceAPITokenPolicy (Some p) m pat = Pass \<longleftrightarrow> ?Q r"
    using Some assms by (auto simp: enforceAPITokenPolicy_def)
  also have "\<dots> \<longleftrightarrow> (\<exists>r'. (r' \<in> set managementAPIRoutes \<and> Method r' = m \<and>
      Path r' = TrimSuffix pat ''/'') \<and> ?Q r')"
    unfolding only by simp
  also have "\<dots> \<longleftrightarrow> (\<exists>r' \<in> set managementAPIRoutes. Method r' = m \<and> Path r' = TrimSuffix pat ''/'' \<and> ?Q r')"
    by blast
  finally show ?thesis .
qed

subsection \<open>Properties\<close>



text \<open>
  A viewer's token can never change anything: whatever scopes it was issued with, a request it
  gets through is a GET; the token of a role the panel does not know gets nothing through; and
  only an owner's token gets through to a route of scope \<^verbatim>\<open>settings:write\<close>.
\<close>

theorem viewer_token_reads_only:
  assumes "APITokenID p \<noteq> None" and "enforceAPITokenPolicy (Some p) m pat = Pass"
  shows "(Role p = RoleViewer \<longrightarrow> m = ''GET'') \<and> Role p \<in> {RoleOwner, RoleAdmin, RoleViewer} \<and>
    (Role p \<noteq> RoleOwner \<longrightarrow> (\<forall>r. managementRoute m pat = Some r \<longrightarrow> Scope r \<noteq> ''settings:write''))"
proof -
  obtain r where r: "managementRoute m pat = Some r" and s: "tokenScopeAllowed (Role p) (Scope r)"
    and o: "OwnerOnly r \<longrightarrow> Role p = RoleOwner"
    using assms by (auto simp: enforceAPITokenPolicy_def split: option.splits if_splits)
  note e = managementRoute_sound [OF r]
  have "HasPrefix ''settings:write'' ''settings:w''" by (simp add: HasPrefix_def)
  with e o r have "Role p \<noteq> RoleOwner \<longrightarrow> (\<forall>r. managementRoute m pat = Some r \<longrightarrow> Scope r \<noteq> ''settings:write'')"
    by (auto simp: entry_sound_def)
  with e s show ?thesis by (auto simp: tokenScopeAllowed_def entry_sound_def split: if_splits)
qed

theorem viewer_token_reads_only_witness:
  "enforceAPITokenPolicy (Some \<lparr>Role = ''viewer'', APITokenID = Some 1, APITokenScopes = [''keys:write'', ''users:write'', ''audit:read'']\<rparr>)
     ''POST'' ''/api/v1/keys'' = Forbidden \<and>
   enforceAPITokenPolicy (Some \<lparr>Role = ''viewer'', APITokenID = Some 1, APITokenScopes = [''audit:read'']\<rparr>)
     ''GET'' ''/api/v1/audit'' = Pass \<and> ''GET'' = ''GET''"
proof -
  let ?p = "\<lparr>Role = ''viewer'', APITokenID = Some 1, APITokenScopes = [''audit:read'']\<rparr>"
  let ?w = "\<lparr>Role = ''viewer'', APITokenID = Some 1, APITokenScopes = [''keys:write'', ''users:write'', ''audit:read'']\<rparr>"
  have pass: "enforceAPITokenPolicy (Some ?p) ''GET'' ''/api/v1/audit'' = Pass" by code_simp
  have "enforceAPITokenPolicy (Some ?w) ''POST'' ''/api/v1/keys'' \<noteq> Pass"
    using viewer_token_reads_only [of ?w "''POST''" "''/api/v1/keys''"] by auto
  then have "enforceAPITokenPolicy (Some ?w) ''POST'' ''/api/v1/keys'' = Forbidden"
    using enforce_range [of "Some ?w" "''POST''" "''/api/v1/keys''"] by auto
  with pass viewer_token_reads_only [OF _ pass] show ?thesis by simp
qed

text \<open>
  The sensitive fields of a response are shown only to a principal that could also change the
  resource: an owner or admin, and through a token only with the matching write scope.
\<close>

theorem can_write_sound:
  "principalCanWrite who res \<longleftrightarrow>
     (\<exists>p. who = Some p \<and> RequireRole writers who = Pass \<and>
        (APITokenID p = None \<or> (res @ '':write'') \<in> set (APITokenScopes p)))"
  by (auto simp: principalCanWrite_def RequireRole_def writers_def split: option.splits)

end
