(* ===== verification/Apply_Schedule.thy ===== *)
theory Apply_Schedule
  imports Prelude
begin

text \<open>
  The reservation and backoff of background applies (\<^verbatim>\<open>internal/worker/applyschedule.go\<close>).
  \<open>running\<close> is the set of reserved nodes, \<open>retries\<close> the backoff of nodes whose last apply
  failed. The random part of a delay is an argument of \<open>finish\<close>: the value that
  \<^verbatim>\<open>rand.Int64N\<close> was asked for, from 0 up to but excluding its bound.
\<close>

type_synonym node_id = nat

definition maxBackgroundApplies :: nat where
  "maxBackgroundApplies = 4"

record applyRetry =
  revision :: int
  attempts :: int
  after :: gotime

record applySchedule =
  running :: "node_id set"
  retries :: "node_id \<Rightarrow> applyRetry option"

definition empty_schedule :: applySchedule where
  "empty_schedule = \<lparr>running = {}, retries = Map.empty\<rparr>"

definition claim :: "applySchedule \<Rightarrow> node_id \<Rightarrow> int \<Rightarrow> gotime \<Rightarrow> bool \<times> applySchedule" where
  "claim s n rv now =
     (if n \<in> running s \<or> card (running s) \<ge> maxBackgroundApplies then (False, s)
      else case retries s n of
             None \<Rightarrow> (True, s\<lparr>running := insert n (running s)\<rparr>)
           | Some r \<Rightarrow>
               if revision r = rv \<and> now < after r then (False, s)
               else (True, s\<lparr>running := insert n (running s),
                             retries := (if revision r \<noteq> rv then (retries s)(n := None)
                                         else retries s)\<rparr>))"

text \<open>The loop that doubles the ceiling, for \<open>i = 1, 2, ...\<close>\<close>

function delay_ceiling :: "int \<Rightarrow> int \<Rightarrow> duration \<Rightarrow> duration" where
  "delay_ceiling i attempt ceiling =
     (if i < attempt \<and> ceiling < 15 * Minute then delay_ceiling (i + 1) attempt (ceiling * 2)
      else ceiling)"
  by pat_completeness auto
termination
  by (relation "measure (\<lambda>(i, attempt, ceiling). nat (attempt - i))") auto

declare delay_ceiling.simps [simp del]

definition retry_ceiling :: "int \<Rightarrow> duration" where
  "retry_ceiling attempt = min (delay_ceiling 1 attempt (45 * Second)) (15 * Minute)"

definition retry_floor :: "int \<Rightarrow> duration" where
  "retry_floor attempt = max (45 * Second) (retry_ceiling attempt div 2)"

definition applyRetryDelay :: "int \<Rightarrow> duration \<Rightarrow> duration" where
  "applyRetryDelay attempt rnd =
     (if retry_floor attempt = retry_ceiling attempt then retry_floor attempt
      else retry_floor attempt + rnd)"

text \<open>The retry entry \<^verbatim>\<open>finish\<close> builds for a failed apply, before its delay is set.\<close>

definition bump_retry :: "applySchedule \<Rightarrow> node_id \<Rightarrow> int \<Rightarrow> applyRetry" where
  "bump_retry s n rv =
     (let retry = (case retries s n of
                     Some r \<Rightarrow> r | None \<Rightarrow> \<lparr>revision = 0, attempts = 0, after = zero_time\<rparr>);
          retry = (if revision retry \<noteq> rv
                   then \<lparr>revision = rv, attempts = 0, after = zero_time\<rparr> else retry)
      in if attempts retry < 10 then retry\<lparr>attempts := attempts retry + 1\<rparr> else retry)"

definition finish ::
  "applySchedule \<Rightarrow> node_id \<Rightarrow> int \<Rightarrow> gotime \<Rightarrow> bool \<Rightarrow> duration \<Rightarrow> applySchedule" where
  "finish s n rv now failed rnd =
     (let s1 = s\<lparr>running := running s - {n}\<rparr>
      in if \<not> failed then s1\<lparr>retries := (retries s1)(n := None)\<rparr>
         else
           let retry = bump_retry s1 n rv;
               retry = retry\<lparr>after := now + applyRetryDelay (attempts retry) rnd\<rparr>
           in s1\<lparr>retries := (retries s1)(n \<mapsto> retry)\<rparr>)"

definition forget :: "applySchedule \<Rightarrow> node_id \<Rightarrow> applySchedule" where
  "forget s n = s\<lparr>retries := (retries s)(n := None)\<rparr>"

subsection \<open>Delays\<close>

lemma delay_ceiling_closed:
  assumes "i \<le> attempt" and "0 < c"
  shows "min (delay_ceiling i attempt c) (15 * Minute) =
    min (c * 2 ^ nat (attempt - i)) (15 * Minute)"
  using assms
proof (induction i attempt c rule: delay_ceiling.induct)
  case (1 i attempt c)
  consider "i < attempt \<and> c < 15 * Minute" | "i = attempt" | "\<not> c < 15 * Minute"
    using "1.prems" by linarith
  then show ?case
  proof cases
    case 1
    then have n: "nat (attempt - i) = Suc (nat (attempt - (i + 1)))" by arith
    from "1.IH" 1 "1.prems" show ?thesis
      by (simp add: delay_ceiling.simps [of i attempt c] n algebra_simps)
  next
    case 2
    then show ?thesis by (simp add: delay_ceiling.simps [of attempt attempt c])
  next
    case 3
    have "c * 1 \<le> c * 2 ^ nat (attempt - i)"
      using "1.prems" by (intro mult_left_mono) auto
    with 3 show ?thesis by (simp add: delay_ceiling.simps [of i attempt c])
  qed
qed

lemma retry_ceiling_closed:
  "1 \<le> attempt \<Longrightarrow> retry_ceiling attempt = min (45 * Second * 2 ^ nat (attempt - 1)) (15 * Minute)"
  using delay_ceiling_closed [of 1 attempt "45 * Second"] by (simp add: retry_ceiling_def Second_def)

lemma retry_ceiling_bounds:
  assumes "1 \<le> attempt"
  shows "45 * Second \<le> retry_ceiling attempt" "retry_ceiling attempt \<le> 15 * Minute"
proof -
  have "45 * Second * 1 \<le> 45 * Second * 2 ^ nat (attempt - 1)"
    by (intro mult_left_mono) (auto simp: Second_def)
  then show "45 * Second \<le> retry_ceiling attempt"
    by (simp add: retry_ceiling_closed [OF assms] duration_units)
  show "retry_ceiling attempt \<le> 15 * Minute" by (simp add: retry_ceiling_def)
qed

definition jitter_ok :: "int \<Rightarrow> duration \<Rightarrow> bool" where
  "jitter_ok attempt rnd \<longleftrightarrow>
     (retry_floor attempt < retry_ceiling attempt \<longrightarrow>
        0 \<le> rnd \<and> rnd < retry_ceiling attempt - retry_floor attempt)"

lemma delay_bounds:
  assumes "1 \<le> attempt" and "jitter_ok attempt rnd"
  shows "retry_floor attempt \<le> applyRetryDelay attempt rnd"
    "applyRetryDelay attempt rnd \<le> retry_ceiling attempt" "45 * Second \<le> applyRetryDelay attempt rnd"
    "applyRetryDelay attempt rnd \<le> 15 * Minute"
proof -
  have "retry_floor attempt \<le> retry_ceiling attempt"
    using retry_ceiling_bounds [OF assms(1)] by (simp add: retry_floor_def duration_units)
  then show "retry_floor attempt \<le> applyRetryDelay attempt rnd"
    "applyRetryDelay attempt rnd \<le> retry_ceiling attempt"
    using assms(2) by (auto simp: applyRetryDelay_def jitter_ok_def)
  then show "45 * Second \<le> applyRetryDelay attempt rnd" "applyRetryDelay attempt rnd \<le> 15 * Minute"
    using retry_ceiling_bounds(2) [OF assms(1)] by (auto simp: retry_floor_def)
qed

subsection \<open>The schedule as an object\<close>

datatype schedule_call =
    Claim node_id int gotime
  | Finish node_id int gotime bool duration
  | Forget node_id

fun schedule_step :: "applySchedule \<Rightarrow> schedule_call \<Rightarrow> bool \<times> applySchedule" where
  "schedule_step s (Claim n rv now) = claim s n rv now"
| "schedule_step s (Finish n rv now failed rnd) = (False, finish s n rv now failed rnd)"
| "schedule_step s (Forget n) = (False, forget s n)"

definition schedule_ok :: "applySchedule \<Rightarrow> bool" where
  "schedule_ok s \<longleftrightarrow> finite (running s) \<and> card (running s) \<le> maxBackgroundApplies \<and>
     (\<forall>n r. retries s n = Some r \<longrightarrow> 1 \<le> attempts r \<and> attempts r \<le> 10)"

lemma schedule_okD: "schedule_ok s \<Longrightarrow> retries s n = Some r \<Longrightarrow> 1 \<le> attempts r \<and> attempts r \<le> 10"
  by (simp add: schedule_ok_def)

lemma claim_ok: "schedule_ok s \<Longrightarrow> schedule_ok (snd (claim s n rv now))"
  by (auto simp: schedule_ok_def claim_def card_insert_if split: option.splits)

lemma bump_retry_ok:
  assumes "schedule_ok s"
  shows "revision (bump_retry s n rv) = rv" "1 \<le> attempts (bump_retry s n rv)"
    "attempts (bump_retry s n rv) \<le> 10"
  using schedule_okD [OF assms, of n]
  by (auto simp: bump_retry_def Let_def split: option.splits)

lemma bump_retry_running [simp]: "bump_retry (s\<lparr>running := R\<rparr>) n rv = bump_retry s n rv"
  by (simp add: bump_retry_def)

lemma finish_retry:
  "retries (finish s n rv now True rnd) = (retries s)(n \<mapsto> (bump_retry s n rv)
     \<lparr>after := now + applyRetryDelay (attempts (bump_retry s n rv)) rnd\<rparr>)"
  by (simp add: finish_def Let_def)

lemma finish_running [simp]: "running (finish s n rv now failed rnd) = running s - {n}"
  by (simp add: finish_def Let_def)

lemma finish_done: "retries (finish s n rv now False rnd) = (retries s)(n := None)"
  by (simp add: finish_def)

lemma finish_ok:
  assumes ok: "schedule_ok s"
  shows "schedule_ok (finish s n rv now failed rnd)"
proof -
  have "card (running s - {n}) \<le> maxBackgroundApplies"
    using ok by (meson schedule_ok_def card_Diff1_le order_trans)
  moreover have "\<forall>m r. retries (finish s n rv now failed rnd) m = Some r \<longrightarrow>
      1 \<le> attempts r \<and> attempts r \<le> 10"
    using ok bump_retry_ok [OF ok, of n rv]
    by (cases failed) (auto simp: schedule_ok_def finish_retry finish_done)
  ultimately show ?thesis using ok by (simp add: schedule_ok_def)
qed

lemma forget_ok: "schedule_ok s \<Longrightarrow> schedule_ok (forget s n)"
  by (auto simp: schedule_ok_def forget_def)

interpretation schedule: guarded_object schedule_ok schedule_step empty_schedule
proof (unfold_locales, goal_cases)
  case 1
  show ?case by (simp add: schedule_ok_def empty_schedule_def)
next
  case (2 s c)
  then show ?case by (cases c) (simp_all add: claim_ok finish_ok forget_ok)
qed

lemma claim_granted_iff:
  "fst (claim s n rv now) \<longleftrightarrow>
     n \<notin> running s \<and> card (running s) < maxBackgroundApplies \<and>
     (\<forall>r. retries s n = Some r \<longrightarrow> revision r \<noteq> rv \<or> after r \<le> now)"
  by (auto simp: claim_def not_le split: option.splits)

lemma claim_running: "fst (claim s n rv now) \<Longrightarrow> running (snd (claim s n rv now)) = insert n (running s)"
  by (auto simp: claim_def split: option.splits if_splits)

subsection \<open>Properties\<close>

text \<open>
  C15: whatever sequence of claims, finishes and forgets the workers make, at most four applies
  are reserved at any moment, a claim is never granted for a node that is already reserved, and a
  granted claim reserves exactly that node.
\<close>

theorem apply_reservation_safe:
  "card (running (snd (run_calls schedule_step empty_schedule cs))) \<le> maxBackgroundApplies \<and>
   (fst (claim (snd (run_calls schedule_step empty_schedule cs)) n rv now) \<longrightarrow>
      n \<notin> running (snd (run_calls schedule_step empty_schedule cs)) \<and>
      running (snd (claim (snd (run_calls schedule_step empty_schedule cs)) n rv now)) =
        insert n (running (snd (run_calls schedule_step empty_schedule cs))))"
  using schedule.inv_reachable [of cs] claim_granted_iff claim_running
  by (auto simp: schedule_ok_def)

theorem apply_reservation_safe_witness:
  "fst (claim (snd (run_calls schedule_step empty_schedule [Claim 1 0 0])) 2 0 0) \<and>
   2 \<notin> running (snd (run_calls schedule_step empty_schedule [Claim 1 0 0]))"
proof -
  have g: "fst (claim (snd (run_calls schedule_step empty_schedule [Claim 1 0 0])) 2 0 0)"
    by (simp add: claim_def empty_schedule_def maxBackgroundApplies_def)
  with apply_reservation_safe [of "[Claim 1 0 0]" 2 0 0] show ?thesis by blast
qed



text \<open>
  The ceiling of the delay doubles with every failed attempt from 45 seconds and stops at 15
  minutes; the delay itself lies between half the ceiling (but never under 45 seconds) and the
  ceiling.
\<close>

theorem apply_retry_delay:
  assumes "1 \<le> attempt" and "jitter_ok attempt rnd"
  shows "retry_ceiling attempt = min (45 * Second * 2 ^ nat (attempt - 1)) (15 * Minute) \<and>
    max (45 * Second) (retry_ceiling attempt div 2) \<le> applyRetryDelay attempt rnd \<and>
    applyRetryDelay attempt rnd \<le> retry_ceiling attempt"
  using retry_ceiling_closed [OF assms(1)] delay_bounds(1,2) [OF assms] by (simp add: retry_floor_def)

theorem apply_retry_delay_witness:
  "retry_ceiling 3 = 180 * Second \<and> 90 * Second \<le> applyRetryDelay 3 (5 * Second)"
proof -
  have c: "retry_ceiling 3 = 180 * Second"
    by (simp add: retry_ceiling_closed duration_units)
  then have f: "retry_floor 3 = 90 * Second" by (simp add: retry_floor_def duration_units)
  have "jitter_ok 3 (5 * Second)" by (simp add: jitter_ok_def c f duration_units)
  from apply_retry_delay [OF _ this] c show ?thesis by (simp add: duration_units)
qed

end
