(* ===== verification/Findings.thy ===== *)
theory Findings
  imports Go_Strings Complex_Main
begin

text \<open>
  The findings a node's reliability report yields (\<^verbatim>\<open>internal/reliability/findings.go\<close>, on the
  types of \<^verbatim>\<open>internal/reliability/types.go\<close>), and the streak that decides when a finding
  opens or resolves an incident (\<^verbatim>\<open>internal/worker/incidents.go\<close>). A nil pointer is
  \<open>None\<close>; unsigned counters are naturals. Quotients of counters are compared exactly; the
  source compares them as 64-bit floats, which agrees for the counts a node can have (below
  \<^verbatim>\<open>2^50\<close>).
\<close>

record Finding =
  Kind :: string
  Message :: string
  Failed :: bool
  Known :: bool

definition finding :: "string \<Rightarrow> string \<Rightarrow> bool \<Rightarrow> bool \<Rightarrow> Finding" where
  "finding kind msg failed known = \<lparr>Kind = kind, Message = msg, Failed = failed, Known = known\<rparr>"

record Window =
  Success :: int
  FailedCount :: int
  W_At :: gotime

record Route =
  Healthy :: bool
  Age :: int

record Resources =
  FDUsed :: "nat option"
  FDLimit :: "nat option"
  ConntrackUsed :: "nat option"
  ConntrackLimit :: "nat option"
  InodesUsedPercent :: "rat option"

record DC =
  DC_ID :: int
  Alive :: int
  Required :: int

record MEPoolState =
  PendingGeneration :: nat
  PendingAgeSeconds :: "nat option"
  HardswapEnabled :: bool
  Pending :: bool
  PendingMapCurrent :: "bool option"
  WriterDeficit :: "nat option"
  MissingDCGroups :: "nat option"
  OrphanWarmWriters :: "nat option"
  ReplacementPreparing :: "nat option"
  ReplacementRetiring :: "nat option"
  OrphanObservedSeconds :: "nat option"
  ReplacementObservedSeconds :: "nat option"

record MEPool =
  M_At :: gotime
  Enabled :: bool
  Reason :: string
  State :: "MEPoolState option"

record Report =
  Version :: int
  R_At :: gotime
  R_MEPool :: "MEPool option"
  Connections :: "Window option"
  Routes :: "Route list"
  R_Resources :: Resources
  DCs :: "DC list"

definition freshMEPool :: "gotime \<Rightarrow> gotime \<Rightarrow> bool" where
  "freshMEPool t now \<longleftrightarrow> \<not> time_IsZero t \<and> \<not> now < t \<and> time_Sub now t \<le> 2 * Minute"

definition some_ge :: "nat option \<Rightarrow> nat \<Rightarrow> bool" where
  "some_ge x k = (case x of None \<Rightarrow> False | Some v \<Rightarrow> k \<le> v)"

definition some_pos :: "nat option \<Rightarrow> bool" where
  "some_pos x = (case x of None \<Rightarrow> False | Some v \<Rightarrow> 0 < v)"

definition backlog :: "string \<Rightarrow> string \<Rightarrow> bool \<Rightarrow> bool \<Rightarrow> nat option \<Rightarrow> Finding" where
  "backlog kind msg available busy observed =
     (let sustained = busy \<and> some_ge observed 300
      in finding kind msg (available \<and> sustained) (available \<and> (\<not> busy \<or> sustained)))"

text \<open>The message of each middle-proxy check, in the order of the findings.\<close>

definition mePoolMessages :: "string list" where
  "mePoolMessages =
     [''Middle Proxy hardswap has been pending for at least 25 minutes'',
      ''Middle Proxy pending generation has a persistent writer or DC-family deficit'',
      ''Middle Proxy pending generation targets a stale endpoint map'',
      ''Middle Proxy orphan warm writers persist for at least 5 minutes'',
      ''Middle Proxy writer replacements remain busy for at least 5 minutes'']"

definition mePoolUnknown :: "Finding list" where
  "mePoolUnknown =
     [finding ''me_hardswap_pending'' (mePoolMessages ! 0) False False, finding ''me_hardswap_deficit'' (mePoolMessages ! 1) False False,
      finding ''me_hardswap_stale_map'' (mePoolMessages ! 2) False False, finding ''me_orphan_warm_writers'' (mePoolMessages ! 3) False False,
      finding ''me_replacement_busy'' (mePoolMessages ! 4) False False]"

definition hardswap_findings :: "MEPoolState \<Rightarrow> Finding list" where
  "hardswap_findings s =
     (let pending = Pending s \<and> PendingGeneration s \<noteq> 0;
          noPending = (\<not> Pending s \<and> PendingGeneration s = 0);
          ageKnown = (pending \<and> PendingAgeSeconds s \<noteq> None);
          mature = (ageKnown \<and> some_ge (PendingAgeSeconds s) 300);
          coverageKnown = (mature \<and> PendingMapCurrent s = Some True \<and> WriterDeficit s \<noteq> None \<and>
            MissingDCGroups s \<noteq> None)
      in if HardswapEnabled s then
           [finding ''me_hardswap_pending'' (mePoolMessages ! 0) (ageKnown \<and> some_ge (PendingAgeSeconds s) 1500)
              (noPending \<or> ageKnown \<and> some_ge (PendingAgeSeconds s) 1500),
            finding ''me_hardswap_deficit'' (mePoolMessages ! 1)
              (coverageKnown \<and> (some_pos (WriterDeficit s) \<or> some_pos (MissingDCGroups s)))
              (noPending \<or> coverageKnown),
            finding ''me_hardswap_stale_map'' (mePoolMessages ! 2) (mature \<and> PendingMapCurrent s = Some False)
              (noPending \<or> mature \<and> PendingMapCurrent s \<noteq> None)]
         else take 3 mePoolUnknown)"

definition mePoolFindings :: "MEPool option \<Rightarrow> gotime \<Rightarrow> Finding list" where
  "mePoolFindings pool now =
     (case pool of
        None \<Rightarrow> mePoolUnknown
      | Some p \<Rightarrow>
          if \<not> Enabled p \<or> Reason p \<noteq> [] \<or> \<not> freshMEPool (M_At p) now then mePoolUnknown
          else case State p of
                 None \<Rightarrow> mePoolUnknown
               | Some s \<Rightarrow>
                   hardswap_findings s @
                   [backlog ''me_orphan_warm_writers'' (mePoolMessages ! 3) (OrphanWarmWriters s \<noteq> None)
                      (some_pos (OrphanWarmWriters s)) (OrphanObservedSeconds s),
                    backlog ''me_replacement_busy'' (mePoolMessages ! 4)
                      (ReplacementPreparing s \<noteq> None \<and> ReplacementRetiring s \<noteq> None)
                      (some_pos (ReplacementPreparing s) \<or> some_pos (ReplacementRetiring s))
                      (ReplacementObservedSeconds s)])"

definition ratio_finding :: "string \<Rightarrow> string \<Rightarrow> nat option \<Rightarrow> nat option \<Rightarrow> Finding list" where
  "ratio_finding kind msg used limit =
     (case (used, limit) of
        (Some u, Some l) \<Rightarrow>
          if 0 < l then [finding kind msg (of_nat u / of_nat l \<ge> (9 / 10 :: rat)) True] else []
      | _ \<Rightarrow> [])"

definition connection_findings :: "Window option \<Rightarrow> gotime \<Rightarrow> Finding list" where
  "connection_findings win now =
     (case win of
        None \<Rightarrow> []
      | Some w \<Rightarrow>
          if time_Sub now (W_At w) \<le> 2 * Minute \<and> Success w + FailedCount w > 0
          then [finding ''connection_failures'' ''Recent Telegram connection failures exceed 20%''
                  (rat_of_int (FailedCount w) / rat_of_int (Success w + FailedCount w) > 1 / 5) True]
          else [])"

definition route_findings :: "Route list \<Rightarrow> Finding list" where
  "route_findings rs =
     (if rs = [] then []
      else [finding ''upstream_failure'' ''A Telegram egress route is unavailable''
              (\<exists>r \<in> set rs. \<not> Healthy r) (\<forall>r \<in> set rs. Age r \<le> 120)])"

definition dc_findings :: "DC list \<Rightarrow> Finding list" where
  "dc_findings ds =
     map (\<lambda>d. finding (''dc_'' @ Itoa (DC_ID d))
       ''Telegram DC has no live Middle Proxy writers'' (Alive d = 0) True) (filter (\<lambda>d. Required d > 0) ds)"

definition Findings :: "Report \<Rightarrow> gotime \<Rightarrow> Finding list" where
  "Findings r now =
     (if Version r = 0 \<or> time_Sub now (R_At r) > 2 * Minute then []
      else connection_findings (Connections r) now @ route_findings (Routes r) @ dc_findings (DCs r)
        @ mePoolFindings (R_MEPool r) now
        @ ratio_finding ''fd_pressure'' ''Telemt is using at least 90% of its file descriptors''
             (FDUsed (R_Resources r)) (FDLimit (R_Resources r))
        @ ratio_finding ''conntrack_pressure'' ''Connection tracking is at least 90% full''
             (ConntrackUsed (R_Resources r)) (ConntrackLimit (R_Resources r))
        @ (case InodesUsedPercent (R_Resources r) of
             None \<Rightarrow> [] | Some x \<Rightarrow> [finding ''inode_pressure'' ''Filesystem inodes are at least 90% full'' (x \<ge> 90) True]))"

lemma finding_fields [simp]:
  "Kind (finding k m f n) = k" "Failed (finding k m f n) = f" "Known (finding k m f n) = n"
  by (simp_all add: finding_def)

lemma mePool_kinds: "map Kind (mePoolFindings pool now) = map Kind mePoolUnknown"
  by (auto simp: mePoolFindings_def mePoolUnknown_def hardswap_findings_def backlog_def Let_def
      split: option.splits)

lemma mePool_failed_known: "f \<in> set (mePoolFindings pool now) \<Longrightarrow> Failed f \<Longrightarrow> Known f"
  by (auto simp: mePoolFindings_def mePoolUnknown_def hardswap_findings_def backlog_def Let_def
      split: option.splits if_splits)

subsection \<open>Streaks\<close>

text \<open>
  \<^verbatim>\<open>findingRun\<close> keeps a signed run length per key: positive while the finding fails, negative
  while it holds; a missing map entry reads as 0.
\<close>

definition findingStreak :: int where
  "findingStreak = 3"

definition next_run :: "int \<Rightarrow> bool \<Rightarrow> int" where
  "next_run run failed =
     (if failed \<and> run > 0 then run + 1 else if failed then 1
      else if run < 0 then run - 1 else - 1)"

type_synonym streaks = "string \<Rightarrow> int option"

definition findingRun :: "streaks \<Rightarrow> string \<Rightarrow> bool \<Rightarrow> int \<times> streaks" where
  "findingRun m key failed =
     (let run = next_run (case m key of None \<Rightarrow> 0 | Some r \<Rightarrow> r) failed
      in (\<bar>run\<bar>, m(key \<mapsto> run)))"

definition incident_kind :: "string \<Rightarrow> string" where
  "incident_kind kind = ''reliability_'' @ kind"

definition streak_key :: "string \<Rightarrow> string \<Rightarrow> string" where
  "streak_key node kind = node @ ''|'' @ incident_kind kind"

lemma incident_kind_inj [simp]: "incident_kind a = incident_kind b \<longleftrightarrow> a = b"
  by (simp add: incident_kind_def)

lemma streak_key_inj [simp]: "streak_key node a = streak_key node b \<longleftrightarrow> a = b"
  by (simp add: streak_key_def)

text \<open>
  The loop of \<^verbatim>\<open>recordFindings\<close> for one node, over its map of streaks and the set of kinds
  with an open alert. \<open>db\<close> says whether the statement for a kind succeeds; a failed statement
  is logged and changes nothing.
\<close>

definition record_finding ::
  "(string \<Rightarrow> bool) \<Rightarrow> string \<Rightarrow> Finding \<Rightarrow> streaks \<times> string set \<Rightarrow> streaks \<times> string set" where
  "record_finding db node f st =
     (let (m, opened) = st; kind = incident_kind (Kind f); key = streak_key node (Kind f)
      in if \<not> Known f then (m(key := None), opened)
         else (case findingRun m key (Failed f) of
                 (run, m') \<Rightarrow>
                   if run < findingStreak then (m', opened)
                   else if \<not> db kind then (m', opened)
                   else if Failed f then (m', insert kind opened)
                   else (m', opened - {kind})))"

definition record_findings ::
  "(string \<Rightarrow> bool) \<Rightarrow> string \<Rightarrow> Finding list \<Rightarrow> streaks \<times> string set \<Rightarrow> streaks \<times> string set" where
  "record_findings db node fs st = fold (record_finding db node) fs st"

text \<open>
  One kind over successive sweeps: a sweep that reports it does so as unknown, failed or holding.
  A sweep without the kind (an absent or stale report) adds nothing to its history.
\<close>

datatype sweep = Unknown | Bad | Good

definition sweep_of :: "Finding \<Rightarrow> sweep" where
  "sweep_of f = (if \<not> Known f then Unknown else if Failed f then Bad else Good)"

definition history :: "string \<Rightarrow> Finding list \<Rightarrow> sweep list" where
  "history kind fs = rev (map sweep_of (filter (\<lambda>f. Kind f = kind) fs))"

text \<open>
  Over a history with the latest sweep first: the signed run, and what the latest three equal
  known sweeps in a row decided.
\<close>

fun run_after :: "sweep list \<Rightarrow> int" where
  "run_after [] = 0"
| "run_after (Unknown # ws) = 0"
| "run_after (Bad # ws) = next_run (run_after ws) True"
| "run_after (Good # ws) = next_run (run_after ws) False"

fun decided :: "bool \<Rightarrow> sweep list \<Rightarrow> bool" where
  "decided before [] = before"
| "decided before (w # ws) =
     (if w \<noteq> Unknown \<and> take 2 ws = [w, w] then w = Bad else decided before ws)"

lemma next_run_thresholds [simp]:
  "0 < next_run r True" "next_run r False < 0" "\<not> next_run r True < 0" "\<not> 0 < next_run r False"
  "2 \<le> next_run r True \<longleftrightarrow> 0 < r" "next_run r False \<le> - 2 \<longleftrightarrow> r < 0"
  "\<not> next_run r True \<le> - 2" "\<not> 2 \<le> next_run r False"
  "\<bar>next_run r True\<bar> < 3 \<longleftrightarrow> \<not> 2 \<le> r" "\<bar>next_run r False\<bar> < 3 \<longleftrightarrow> \<not> r \<le> - 2"
  by (auto simp: next_run_def)

lemma run_after_pos: "0 < run_after ws \<longleftrightarrow> take 1 ws = [Bad]"
  by (cases ws rule: run_after.cases) simp_all

lemma run_after_neg: "run_after ws < 0 \<longleftrightarrow> take 1 ws = [Good]"
  by (cases ws rule: run_after.cases) simp_all

lemma take_2_Cons: "take 2 (w # ws) = [a, b] \<longleftrightarrow> w = a \<and> take 1 ws = [b]"
  by (simp add: numeral_2_eq_2)

lemma run_after_bad_bad: "2 \<le> run_after ws \<longleftrightarrow> take 2 ws = [Bad, Bad]"
  by (cases ws rule: run_after.cases) (simp_all add: take_2_Cons run_after_pos)

lemma run_after_good_good: "run_after ws \<le> - 2 \<longleftrightarrow> take 2 ws = [Good, Good]"
  by (cases ws rule: run_after.cases) (simp_all add: take_2_Cons run_after_neg)

text \<open>What the state must be for one kind after its history \<open>ws\<close>: the streak and the open alert.\<close>

definition tracks :: "string \<Rightarrow> string \<Rightarrow> bool \<Rightarrow> sweep list \<Rightarrow> streaks \<times> string set \<Rightarrow> bool" where
  "tracks node kind before ws st \<longleftrightarrow>
     (case fst st (streak_key node kind) of None \<Rightarrow> 0 | Some r \<Rightarrow> r) = run_after ws \<and>
     (incident_kind kind \<in> snd st \<longleftrightarrow> decided before ws)"

lemma record_finding_same:
  assumes "tracks node (Kind f) before ws st" "db (incident_kind (Kind f))"
  shows "tracks node (Kind f) before (sweep_of f # ws) (record_finding db node f st)"
  using assms run_after_bad_bad [of ws] run_after_good_good [of ws]
  by (auto simp: tracks_def record_finding_def sweep_of_def findingRun_def findingStreak_def Let_def
      split: prod.splits)

lemma record_finding_other:
  "Kind f \<noteq> kind \<Longrightarrow> tracks node kind before ws (record_finding db node f st) = tracks node kind before ws st"
  by (auto simp: tracks_def record_finding_def findingRun_def Let_def split: prod.splits)

lemma record_findings_tracks:
  assumes "db (incident_kind kind)" "tracks node kind before ws st"
  shows "tracks node kind before (history kind fs @ ws) (record_findings db node fs st)"
  using assms(2)
proof (induction fs arbitrary: ws st)
  case (Cons f fs)
  then show ?case
    using assms(1) record_finding_same [of node f before ws st db]
    by (cases "Kind f = kind")
      (auto simp: history_def record_findings_def record_finding_other)
qed (simp add: history_def record_findings_def)

lemma sweeps_tracks:
  assumes "db (incident_kind kind)" "tracks node kind before ws st"
  shows "tracks node kind before (history kind (concat sweeps) @ ws)
           (fold (record_findings db node) sweeps st)"
  using assms(2)
proof (induction sweeps arbitrary: ws st)
  case (Cons fs sweeps)
  then show ?case
    using record_findings_tracks [of db, OF assms(1) Cons.prems, of fs]
    by (fastforce simp: history_def)
qed (simp add: history_def)



subsection \<open>Measurements that may be used\<close>

definition me_kinds :: "string set" where
  "me_kinds = {''me_hardswap_pending'', ''me_hardswap_deficit'', ''me_hardswap_stale_map'',
     ''me_orphan_warm_writers'', ''me_replacement_busy''}"

lemma fresh_sub [simp]: "time_Sub t u \<le> 2 * Minute \<longleftrightarrow> t - u \<le> 2 * Minute"
  by (rule time_Sub_le_iff) (simp_all add: duration_units max_duration_def min_duration_def)

lemma mePool_unknown: "f \<in> set mePoolUnknown \<Longrightarrow> \<not> Failed f \<and> \<not> Known f"
  by (auto simp: mePoolUnknown_def)

lemma mePool_used:
  assumes "f \<in> set (mePoolFindings pool now)" "Failed f \<or> Known f"
  shows "\<exists>p s. pool = Some p \<and> Enabled p \<and> Reason p = [] \<and> State p = Some s \<and>
           M_At p \<le> now \<and> now - M_At p \<le> 2 * Minute"
  using assms mePool_unknown [of f]
  by (auto simp: mePoolFindings_def freshMEPool_def split: option.splits if_splits)

lemma mePool_kind_member: "f \<in> set (mePoolFindings pool now) \<Longrightarrow> Kind f \<in> me_kinds"
proof -
  assume "f \<in> set (mePoolFindings pool now)"
  then have "Kind f \<in> set (map Kind mePoolUnknown)"
    by (metis image_eqI list.set_map mePool_kinds)
  then show ?thesis
    by (auto simp: me_kinds_def mePoolUnknown_def)
qed

lemma findings_groups:
  assumes "f \<in> set (Findings r now)"
  shows "Version r \<noteq> 0 \<and> now - R_At r \<le> 2 * Minute \<and>
    (f \<in> set (connection_findings (Connections r) now) \<or> f \<in> set (mePoolFindings (R_MEPool r) now) \<or>
     Kind f \<noteq> ''connection_failures'' \<and> Kind f \<notin> me_kinds)"
  using assms
  by (auto simp: Findings_def route_findings_def dc_findings_def ratio_finding_def me_kinds_def not_less
      split: if_splits option.splits)

lemma connection_used:
  assumes "f \<in> set (connection_findings win now)"
  shows "Kind f = ''connection_failures'' \<and>
    (\<exists>w. win = Some w \<and> now - W_At w \<le> 2 * Minute \<and> 0 < Success w + FailedCount w)"
  using assms by (auto simp: connection_findings_def split: option.splits if_splits)

text \<open> No finding comes from an absent or stale report, no connection finding from a stale window, and
  a middle-proxy check fails or is known only on an enabled, error-free, fresh pool state; a
  middle-proxy check that fails is known.
\<close>

theorem findings_only_from_fresh:
  assumes "f \<in> set (Findings r now)"
  shows "Version r \<noteq> 0 \<and> now - R_At r \<le> 2 * Minute \<and>
    (Kind f = ''connection_failures'' \<longrightarrow>
       (\<exists>w. Connections r = Some w \<and> now - W_At w \<le> 2 * Minute \<and> 0 < Success w + FailedCount w)) \<and>
    (Kind f \<in> me_kinds \<and> (Failed f \<or> Known f) \<longrightarrow>
       (\<exists>p s. R_MEPool r = Some p \<and> Enabled p \<and> Reason p = [] \<and> State p = Some s \<and>
          M_At p \<le> now \<and> now - M_At p \<le> 2 * Minute) \<and> Known f)"
proof -
  note grp = findings_groups [OF assms]
  have "''connection_failures'' \<notin> me_kinds"
    by (simp add: me_kinds_def)
  moreover have "Kind f = ''connection_failures'' \<Longrightarrow> f \<in> set (connection_findings (Connections r) now)"
    using grp mePool_kind_member [of f] calculation by metis
  moreover have "Kind f \<in> me_kinds \<Longrightarrow> f \<in> set (mePoolFindings (R_MEPool r) now)"
    using grp connection_used [of f] calculation(1) by metis
  ultimately show ?thesis
    using grp connection_used [of f] mePool_used [of f] mePool_failed_known [of f] by blast
qed

lemma findings_only_from_fresh_witness:
  "\<exists>f. f \<in> set (Findings
        \<lparr>Version = 1, R_At = 0, R_MEPool = None,
         Connections = Some \<lparr>Success = 3, FailedCount = 1, W_At = 0\<rparr>, Routes = [],
         R_Resources = \<lparr>FDUsed = None, FDLimit = None, ConntrackUsed = None, ConntrackLimit = None,
           InodesUsedPercent = None\<rparr>, DCs = []\<rparr> Minute) \<and> Failed f \<and> Minute - 0 \<le> 2 * Minute"
proof -
  define r where "r = \<lparr>Version = 1, R_At = 0, R_MEPool = None,
         Connections = Some \<lparr>Success = 3, FailedCount = 1, W_At = 0\<rparr>, Routes = [],
         R_Resources = \<lparr>FDUsed = None, FDLimit = None, ConntrackUsed = None, ConntrackLimit = None,
           InodesUsedPercent = None\<rparr>, DCs = []\<rparr>"
  have "finding ''connection_failures'' ''Recent Telegram connection failures exceed 20%'' True True
      \<in> set (Findings r Minute)"
    by (simp add: r_def Findings_def connection_findings_def not_less) (simp add: Minute_def Second_def)
  from this findings_only_from_fresh [OF this] show ?thesis
    unfolding r_def by (auto intro!: exI)
qed

end
