(* ===== verification/Notifications.thy ===== *)
theory Notifications
  imports Findings Go_Strings
begin

text \<open>
  Delivery of operator alerts: the state kept per node and kind
  (\<^verbatim>\<open>internal/worker/notification_state.go\<close>), the problem and recovery calls on it
  (\<^verbatim>\<open>internal/worker/alerts.go\<close>) and the aggregated server alert with its findings table and
  candidate row (\<^verbatim>\<open>internal/worker/reliability_notifications.go\<close>).

  The outside world answers through a \<open>delivery\<close> record: whether the webhook and Telegram
  accept the post, what the Telegram settings are, and what the clock reads before and after the
  sends. A call yields the posts it tried, each with whether it was accepted. Calls for one node
  and kind are serialised by the mutex (and the row lock) of \<^verbatim>\<open>withState\<close>, so a run of the
  component is a sequence of calls on that state.
\<close>

subsection \<open>State and deliveries\<close>

record notificationState =
  LastProblem :: gotime
  NPending :: bool
  Telegram :: bool
  Webhook :: bool

definition zero_state :: notificationState where
  "zero_state = \<lparr>LastProblem = zero_time, NPending = False, Telegram = False, Webhook = False\<rparr>"

record alert_message =
  Plain :: string
  HTML :: string

record delivery =
  HookSet :: bool
  HookURL :: string
  HookAccepts :: bool
  TgEnabled :: bool
  TgToken :: string
  TgChat :: string
  TgConfigErr :: bool
  TgAccepts :: bool
  CheckedAt :: gotime
  DoneAt :: gotime

datatype post =
    HookPost string string string bool
  | TgPost string string string bool

definition tg_ready :: "delivery \<Rightarrow> bool" where
  "tg_ready d \<longleftrightarrow> TgEnabled d \<and> TgToken d \<noteq> [] \<and> TgChat d \<noteq> []"

definition sendProblem ::
  "string \<Rightarrow> string \<Rightarrow> alert_message \<Rightarrow> delivery \<Rightarrow> notificationState \<Rightarrow> post list \<times> notificationState" where
  "sendProblem nodeID kind msg d st =
     (let hook = (HookSet d \<and> HookURL d \<noteq> [] \<and> \<not> Webhook st);
          posts1 = (if hook then [HookPost nodeID kind (Plain msg) (HookAccepts d)] else []);
          complete1 = (\<not> hook \<or> HookAccepts d);
          st1 = (if hook \<and> HookAccepts d then st\<lparr>Webhook := True\<rparr> else st);
          complete2 = (complete1 \<and> \<not> TgConfigErr d);
          tg = (tg_ready d \<and> \<not> Telegram st1);
          posts2 = (if tg then [TgPost (TgToken d) (TgChat d) (HTML msg) (TgAccepts d)] else []);
          complete3 = (complete2 \<and> (\<not> tg \<or> TgAccepts d));
          st2 = (if tg \<and> TgAccepts d then st1\<lparr>Telegram := True\<rparr> else st1);
          st3 = (if complete3 \<and> (Telegram st2 \<or> Webhook st2)
                 then st2\<lparr>NPending := False, LastProblem := DoneAt d\<rparr> else st2)
      in (posts1 @ posts2, st3))"

definition sendRecovery ::
  "string \<Rightarrow> string \<Rightarrow> alert_message \<Rightarrow> delivery \<Rightarrow> notificationState \<Rightarrow> post list \<times> notificationState" where
  "sendRecovery nodeID kind msg d st =
     (let hook = (Webhook st \<and> HookSet d);
          posts1 = (if hook then [HookPost nodeID (kind @ ''_recovered'') (Plain msg) (HookAccepts d)] else []);
          st1 = (if hook \<and> HookAccepts d then st\<lparr>Webhook := False\<rparr> else st);
          tg = (Telegram st1 \<and> \<not> TgConfigErr d \<and> tg_ready d);
          posts2 = (if tg then [TgPost (TgToken d) (TgChat d) (HTML msg) (TgAccepts d)] else []);
          st2 = (if tg \<and> TgAccepts d then st1\<lparr>Telegram := False\<rparr> else st1)
      in (posts1 @ posts2, st2))"

text \<open>
  \<^verbatim>\<open>withState\<close> on one node and kind: the transaction may fail before the body runs (no slot,
  begin, insert, lock or decode), or after it, when the posts are out but the state is rolled
  back. Without a database pool both always succeed.
\<close>

datatype txn = Refused | Lost | Saved

definition withState ::
  "txn \<Rightarrow> (notificationState \<Rightarrow> post list \<times> notificationState) \<Rightarrow> notificationState \<Rightarrow>
     post list \<times> notificationState" where
  "withState tx body st =
     (case tx of
        Refused \<Rightarrow> ([], st)
      | Lost \<Rightarrow> (fst (body st), st)
      | Saved \<Rightarrow> body st)"

definition problem_body ::
  "string \<Rightarrow> string \<Rightarrow> duration \<Rightarrow> alert_message \<Rightarrow> delivery \<Rightarrow> notificationState \<Rightarrow>
     post list \<times> notificationState" where
  "problem_body nodeID kind cooldown msg d st =
     (if \<not> NPending st \<and> \<not> time_IsZero (LastProblem st) \<and> time_Sub (CheckedAt d) (LastProblem st) < cooldown
      then ([], st)
      else let st1 = (if \<not> NPending st \<and> kind \<noteq> ''node_offline''
                      then st\<lparr>Telegram := False, Webhook := False\<rparr> else st)
           in sendProblem nodeID kind msg d (st1\<lparr>NPending := True\<rparr>))"

definition recovered_body ::
  "string \<Rightarrow> string \<Rightarrow> alert_message \<Rightarrow> delivery \<Rightarrow> notificationState \<Rightarrow> post list \<times> notificationState" where
  "recovered_body nodeID kind msg d st = sendRecovery nodeID kind msg d (st\<lparr>NPending := False\<rparr>)"

definition problem where
  "problem tx nodeID kind cooldown msg d = withState tx (problem_body nodeID kind cooldown msg d)"

definition recovered where
  "recovered tx nodeID kind msg d = withState tx (recovered_body nodeID kind msg d)"

definition offlineCooldown :: duration where
  "offlineCooldown = 15 * Minute"

definition applyCooldown :: duration where
  "applyCooldown = Hour"

definition incidentCooldown :: duration where
  "incidentCooldown = 3 * Hour"

definition NodeOffline where
  "NodeOffline tx node msg d = problem tx node ''node_offline'' offlineCooldown msg d"

definition NodeOnline where
  "NodeOnline tx node msg d = recovered tx node ''node_offline'' msg d"

definition ApplyFailed where
  "ApplyFailed tx node msg d = problem tx node ''apply_failed'' applyCooldown msg d"

text \<open>
  \<^verbatim>\<open>Incident\<close>: with a database, reliability and diagnostic kinds other than lifetime counters
  are left to the server summary.
\<close>

definition LifetimeCounter :: "string \<Rightarrow> bool" where
  "LifetimeCounter key \<longleftrightarrow> key \<in> {''tls_front_errors'', ''carrier_failures'', ''web_rejections''}"

fun counter_suffix :: "string \<Rightarrow> bool" where
  "counter_suffix [] = False"
| "counter_suffix (c # cs) = (c = CHR ''_'' \<and> LifetimeCounter cs \<or> counter_suffix cs)"

definition lifetimeCounterAlert :: "string \<Rightarrow> bool" where
  "lifetimeCounterAlert kind \<longleftrightarrow>
     HasPrefix kind ''diagnostic_'' \<and> counter_suffix (TrimPrefix kind ''diagnostic_'')"

definition Incident where
  "Incident pool tx node kind is_recovery msg d st =
     (if pool \<and> \<not> lifetimeCounterAlert kind \<and>
         (HasPrefix kind ''reliability_'' \<or> HasPrefix kind ''diagnostic_'') then ([], st)
      else if is_recovery then recovered tx node kind msg d st
      else problem tx node kind incidentCooldown msg d st)"

subsection \<open>Calls on one node and kind\<close>

datatype alert_op = Problem_op duration | Recovered_op

record alert_call =
  Tx :: txn
  Op :: alert_op
  Msg :: alert_message
  Dlv :: delivery

definition alert_step ::
  "string \<Rightarrow> string \<Rightarrow> notificationState \<Rightarrow> alert_call \<Rightarrow> post list \<times> notificationState" where
  "alert_step node kind st c =
     (case Op c of
        Problem_op cooldown \<Rightarrow> problem (Tx c) node kind cooldown (Msg c) (Dlv c) st
      | Recovered_op \<Rightarrow> recovered (Tx c) node kind (Msg c) (Dlv c) st)"

text \<open>The calls a destination accepted a post of, in order: true for a problem, false for a recovery.\<close>

definition accepted_ops :: "(post list \<Rightarrow> bool) \<Rightarrow> alert_call list \<Rightarrow> post list list \<Rightarrow> bool list" where
  "accepted_ops accepted cs outs =
     map (\<lambda>(c, ps). Op c \<noteq> Recovered_op) (filter (\<lambda>(c, ps). accepted ps) (zip cs outs))"

text \<open>Starting from an acknowledgement \<open>b\<close>, every accepted post inverts it.\<close>

fun alternates :: "bool \<Rightarrow> bool list \<Rightarrow> bool" where
  "alternates b [] = True"
| "alternates b (x # xs) = (x \<noteq> b \<and> alternates x xs)"

text \<open>A clock that does not go back, from \<open>t\<close> on.\<close>

fun clock_runs :: "gotime \<Rightarrow> alert_call list \<Rightarrow> bool" where
  "clock_runs t [] = True"
| "clock_runs t (c # cs) =
     (t \<le> CheckedAt (Dlv c) \<and> CheckedAt (Dlv c) \<le> DoneAt (Dlv c) \<and> clock_runs (DoneAt (Dlv c)) cs)"

lemma sendProblem_pending:
  "NPending (snd (sendProblem n k m d st)) = NPending st \<or>
   \<not> NPending (snd (sendProblem n k m d st)) \<and> LastProblem (snd (sendProblem n k m d st)) = DoneAt d"
  by (auto simp: sendProblem_def Let_def)

definition cooling :: "duration \<Rightarrow> delivery \<Rightarrow> notificationState \<Rightarrow> bool" where
  "cooling cooldown d st \<longleftrightarrow>
     \<not> NPending st \<and> LastProblem st \<noteq> zero_time \<and> time_Sub (CheckedAt d) (LastProblem st) < cooldown"

lemma problem_body_cooling:
  "cooling cooldown d st \<Longrightarrow> problem_body n k cooldown m d st = ([], st)"
  by (simp add: problem_body_def cooling_def time_IsZero_def)

lemma problem_body_sends:
  assumes "\<not> cooling cooldown d st"
  obtains st1 where "problem_body n k cooldown m d st = sendProblem n k m d st1" "NPending st1"
    "NPending st \<Longrightarrow> st1 = st\<lparr>NPending := True\<rparr>"
proof -
  let ?st = "if \<not> NPending st \<and> k \<noteq> ''node_offline'' then st\<lparr>Telegram := False, Webhook := False\<rparr> else st"
  from assms have "problem_body n k cooldown m d st = sendProblem n k m d (?st\<lparr>NPending := True\<rparr>)"
    by (auto simp: problem_body_def cooling_def time_IsZero_def Let_def)
  then show thesis by (rule that) auto
qed

lemma problem_step_cases:
  assumes "alert_step node kind st c = (ps, st')" "Op c = Problem_op cooldown" "Tx c \<noteq> Lost"
  obtains (idle) "ps = []" "st' = st"
    | (sent) st1 where "sendProblem node kind (Msg c) (Dlv c) st1 = (ps, st')" "NPending st1"
        "NPending st \<Longrightarrow> st1 = st\<lparr>NPending := True\<rparr>" "\<not> cooling cooldown (Dlv c) st"
proof (cases "Tx c = Refused \<or> cooling cooldown (Dlv c) st")
  case True
  then show thesis
    using assms idle by (auto simp: alert_step_def problem_def withState_def problem_body_cooling
        split: txn.splits)
next
  case False
  then have "problem_body node kind cooldown (Msg c) (Dlv c) st = (ps, st')"
    using assms by (cases "Tx c") (auto simp: alert_step_def problem_def withState_def)
  then show thesis
    using problem_body_sends [of cooldown "Dlv c" st node kind "Msg c"] False sent by metis
qed

subsection \<open>One destination\<close>

text \<open>
  Both destinations obey one contract: a problem is accepted exactly when its acknowledgement
  goes from unset to set, a recovery exactly when it goes back.
\<close>

locale destination =
  fixes ack :: "notificationState \<Rightarrow> bool"
    and accepted :: "post list \<Rightarrow> bool"
  assumes problem_ack:
      "accepted (fst (sendProblem n k m d st)) \<longleftrightarrow> \<not> ack st \<and> ack (snd (sendProblem n k m d st))"
    and problem_keeps: "ack st \<Longrightarrow> ack (snd (sendProblem n k m d st))"
    and recovery_ack:
      "accepted (fst (sendRecovery n k m d st)) \<longleftrightarrow> ack st \<and> \<not> ack (snd (sendRecovery n k m d st))"
    and recovery_keeps: "\<not> ack st \<Longrightarrow> \<not> ack (snd (sendRecovery n k m d st))"
    and silent [simp]: "\<not> accepted []"
    and pending_ack [simp]: "ack (st\<lparr>NPending := b\<rparr>) = ack st"
begin

text \<open>A call for \<^verbatim>\<open>node_offline\<close> whose state is not lost moves the acknowledgement as its post went.\<close>

lemma offline_step:
  assumes "alert_step node ''node_offline'' st c = (ps, st')" "Tx c \<noteq> Lost"
  shows "accepted ps \<longleftrightarrow> (ack st' \<noteq> ack st)" "accepted ps \<Longrightarrow> ack st' = (Op c \<noteq> Recovered_op)"
  using assms problem_ack [of node "''node_offline''" "Msg c" "Dlv c" "st\<lparr>NPending := True\<rparr>"]
    problem_keeps [of "st\<lparr>NPending := True\<rparr>" node "''node_offline''" "Msg c" "Dlv c"]
    recovery_ack [of node "''node_offline''" "Msg c" "Dlv c" "st\<lparr>NPending := False\<rparr>"]
    recovery_keeps [of "st\<lparr>NPending := False\<rparr>" node "''node_offline''" "Msg c" "Dlv c"]
  by (auto simp: alert_step_def problem_def recovered_def withState_def problem_body_def recovered_body_def
      Let_def split: txn.splits alert_op.splits if_splits)

lemma offline_alternates:
  assumes "\<forall>c \<in> set cs. Tx c \<noteq> Lost"
  shows "alternates (ack st) (accepted_ops accepted cs (fst (run_calls (alert_step node ''node_offline'') st cs)))"
  using assms
proof (induction cs arbitrary: st)
  case (Cons c cs)
  obtain ps st' where step: "alert_step node ''node_offline'' st c = (ps, st')"
    by fastforce
  let ?rest = "accepted_ops accepted cs (fst (run_calls (alert_step node ''node_offline'') st' cs))"
  have "alternates (ack st') ?rest"
    using Cons.IH [of st'] Cons.prems by simp
  moreover have "accepted_ops accepted (c # cs) (fst (run_calls (alert_step node ''node_offline'') st (c # cs)))
      = (if accepted ps then [Op c \<noteq> Recovered_op] else []) @ ?rest"
    by (simp add: accepted_ops_def step split_beta)
  ultimately show ?case
    using offline_step [OF step] Cons.prems by auto
qed (simp add: accepted_ops_def)

text \<open>
  What holds from an accepted problem at time \<open>L\<close> on, at the time \<open>t\<close> of the last call: the
  destination is acknowledged and the cooldown counts from \<open>L\<close> or later, or it is over.
\<close>

definition armed :: "duration \<Rightarrow> gotime \<Rightarrow> gotime \<Rightarrow> notificationState \<Rightarrow> bool" where
  "armed cooldown L t st \<longleftrightarrow>
     cooldown \<le> t - L \<or> ack st \<and> (NPending st \<or> L \<le> LastProblem st \<and> LastProblem st \<le> t)"

lemma armed_accepted:
  assumes "alert_step node kind st c = (ps, st')" "Op c = Problem_op cooldown" "Tx c \<noteq> Lost" "accepted ps"
  shows "armed cooldown (DoneAt (Dlv c)) (DoneAt (Dlv c)) st'"
  using assms(1-3)
proof (cases rule: problem_step_cases)
  case idle
  then show ?thesis using assms(4) by simp
next
  case (sent st1)
  then show ?thesis
    using problem_ack [of node kind "Msg c" "Dlv c" st1] assms(4)
      sendProblem_pending [of node kind "Msg c" "Dlv c" st1] by (auto simp: armed_def)
qed

lemma armed_step:
  assumes "armed cooldown L t st" "alert_step node kind st c = (ps, st')"
    and "Op c = Problem_op cooldown" "Tx c \<noteq> Lost" "zero_time < L" "L \<le> t" "t \<le> CheckedAt (Dlv c)"
    and "CheckedAt (Dlv c) \<le> DoneAt (Dlv c)" "0 < cooldown" "cooldown \<le> max_duration"
  shows "armed cooldown L (DoneAt (Dlv c)) st' \<and> (accepted ps \<longrightarrow> cooldown \<le> CheckedAt (Dlv c) - L)"
proof (cases "cooldown \<le> CheckedAt (Dlv c) - L")
  case True
  then show ?thesis using assms(8) by (auto simp: armed_def)
next
  case False
  then have st: "ack st" "NPending st \<or> L \<le> LastProblem st \<and> LastProblem st \<le> t"
    using assms(1,7) by (auto simp: armed_def)
  have cool: "cooldown \<le> time_Sub u v \<longleftrightarrow> cooldown \<le> u - v" for u v
    using assms(9,10) time_Sub_less_iff [of cooldown u v] by (auto simp: min_duration_def not_less [symmetric])
  from assms(2-4) show ?thesis
  proof (cases rule: problem_step_cases)
    case idle
    then show ?thesis using st assms(7,8) by (auto simp: armed_def)
  next
    case (sent st1)
    have "NPending st"
    proof (rule ccontr)
      assume "\<not> NPending st"
      with st(2) have "L \<le> LastProblem st" by simp
      moreover from this sent(4) \<open>\<not> NPending st\<close> have "cooldown \<le> CheckedAt (Dlv c) - LastProblem st"
        using assms(5) by (auto simp: cooling_def cool not_less)
      ultimately show False using False by simp
    qed
    then have "ack st1"
      using sent(3) st(1) by simp
    then show ?thesis
      using problem_keeps [of st1 node kind "Msg c" "Dlv c"] problem_ack [of node kind "Msg c" "Dlv c" st1]
        sendProblem_pending [of node kind "Msg c" "Dlv c" st1] sent(1,2) assms(6-8)
      by (auto simp: armed_def)
  qed
qed

lemma armed_run:
  assumes "armed cooldown L t st" "\<forall>c \<in> set cs. Op c = Problem_op cooldown \<and> Tx c \<noteq> Lost"
    and "zero_time < L" "L \<le> t" "clock_runs t cs" "0 < cooldown" "cooldown \<le> max_duration"
    and "j < length cs" "accepted (fst (run_calls (alert_step node kind) st cs) ! j)"
  shows "cooldown \<le> CheckedAt (Dlv (cs ! j)) - L"
  using assms
proof (induction cs arbitrary: st t j)
  case (Cons c cs)
  obtain ps st' where step: "alert_step node kind st c = (ps, st')"
    by fastforce
  have armed': "armed cooldown L (DoneAt (Dlv c)) st'"
    and now: "accepted ps \<Longrightarrow> cooldown \<le> CheckedAt (Dlv c) - L"
    using armed_step [OF Cons.prems(1) step] Cons.prems by auto
  show ?case
  proof (cases j)
    case 0
    then show ?thesis using now Cons.prems(9) by (simp add: step split_beta)
  next
    case (Suc i)
    then show ?thesis
      using Cons.IH [OF armed', of i] Cons.prems by (auto simp: step split_beta)
  qed
qed simp

lemma problems_spaced:
  assumes "\<forall>c \<in> set cs. Op c = Problem_op cooldown \<and> Tx c \<noteq> Lost"
    and "zero_time < t" "clock_runs t cs" "0 < cooldown" "cooldown \<le> max_duration"
    and "i < j" "j < length cs"
    and "accepted (fst (run_calls (alert_step node kind) st cs) ! i)"
    and "accepted (fst (run_calls (alert_step node kind) st cs) ! j)"
  shows "cooldown \<le> CheckedAt (Dlv (cs ! j)) - DoneAt (Dlv (cs ! i))"
  using assms
proof (induction cs arbitrary: st t i j)
  case (Cons c cs)
  obtain ps st' where step: "alert_step node kind st c = (ps, st')"
    by fastforce
  from Cons.prems(6) obtain j' where j: "j = Suc j'"
    by (cases j) auto
  show ?case
  proof (cases i)
    case 0
    then have "armed cooldown (DoneAt (Dlv c)) (DoneAt (Dlv c)) st'"
      using armed_accepted [OF step] Cons.prems by (simp add: step split_beta)
    from armed_run [OF this, of cs j' node kind] show ?thesis
      using Cons.prems 0 j by (auto simp: step split_beta)
  next
    case (Suc i')
    then show ?thesis
      using Cons.IH [of "DoneAt (Dlv c)" i' j' st'] Cons.prems j by (auto simp: step split_beta)
  qed
qed simp

end

definition hook_accepted :: "post list \<Rightarrow> bool" where
  "hook_accepted ps \<longleftrightarrow> (\<exists>p \<in> set ps. case p of HookPost n k t ok \<Rightarrow> ok | _ \<Rightarrow> False)"

definition tg_accepted :: "post list \<Rightarrow> bool" where
  "tg_accepted ps \<longleftrightarrow> (\<exists>p \<in> set ps. case p of TgPost b c t ok \<Rightarrow> ok | _ \<Rightarrow> False)"

interpretation hook: destination Webhook hook_accepted
  by unfold_locales (auto simp: sendProblem_def sendRecovery_def hook_accepted_def Let_def)

interpretation tg: destination Telegram tg_accepted
  by unfold_locales (auto simp: sendProblem_def sendRecovery_def tg_accepted_def Let_def)

subsection \<open>Properties of alert delivery\<close>

definition accepted_by :: "bool \<Rightarrow> post list \<Rightarrow> bool" where
  "accepted_by telegram = (if telegram then tg_accepted else hook_accepted)"

definition acknowledged :: "bool \<Rightarrow> notificationState \<Rightarrow> bool" where
  "acknowledged telegram = (if telegram then Telegram else Webhook)"

text \<open> C16:
  Whatever the sequence of offline and online calls for a node, and whichever posts fail, each
  destination accepts problems and recoveries in strict alternation, starting with a problem: one
  announcement per outage and destination, a recovery only where the outage was announced, and
  the retry of one destination never repeats the other. (No call's saved state is lost.)
\<close>

theorem offline_alerts_alternate:
  assumes "\<forall>c \<in> set cs. Tx c \<noteq> Lost"
  shows "alternates False (accepted_ops (accepted_by telegram) cs
           (fst (run_calls (alert_step node ''node_offline'') zero_state cs)))"
  using hook.offline_alternates [OF assms, of zero_state node] tg.offline_alternates [OF assms, of zero_state node]
  by (simp add: accepted_by_def zero_state_def)

definition test_delivery :: "bool \<Rightarrow> bool \<Rightarrow> gotime \<Rightarrow> delivery" where
  "test_delivery hook telegram t =
     \<lparr>HookSet = True, HookURL = ''u'', HookAccepts = hook, TgEnabled = True, TgToken = ''t'', TgChat = ''c'',
      TgConfigErr = False, TgAccepts = telegram, CheckedAt = t, DoneAt = t\<rparr>"

definition test_call :: "alert_op \<Rightarrow> bool \<Rightarrow> bool \<Rightarrow> gotime \<Rightarrow> alert_call" where
  "test_call a hook telegram t =
     \<lparr>Tx = Saved, Op = a, Msg = \<lparr>Plain = ''m'', HTML = ''m''\<rparr>, Dlv = test_delivery hook telegram t\<rparr>"

lemma offline_alerts_alternate_witness:
  "alternates False (accepted_ops (accepted_by True)
     [test_call (Problem_op offlineCooldown) True False 0, test_call (Problem_op offlineCooldown) True True 1,
      test_call Recovered_op True True 2]
     (fst (run_calls (alert_step ''n'' ''node_offline'') zero_state
       [test_call (Problem_op offlineCooldown) True False 0, test_call (Problem_op offlineCooldown) True True 1,
        test_call Recovered_op True True 2])))"
  by (rule offline_alerts_alternate) (simp add: test_call_def)

text \<open> Repeated problem calls for one node and kind, on a clock that does not go back: two problems
  accepted by the same destination are at least the cooldown apart, whichever posts of the calls
  between them fail.
\<close>

theorem problem_alerts_spaced:
  assumes "\<forall>c \<in> set cs. Op c = Problem_op cooldown \<and> Tx c \<noteq> Lost"
    and "zero_time < t" "clock_runs t cs" "0 < cooldown" "cooldown \<le> max_duration"
    and "i < j" "j < length cs"
    and "accepted_by telegram (fst (run_calls (alert_step node kind) st cs) ! i)"
    and "accepted_by telegram (fst (run_calls (alert_step node kind) st cs) ! j)"
  shows "cooldown \<le> CheckedAt (Dlv (cs ! j)) - DoneAt (Dlv (cs ! i))"
  using assms hook.problems_spaced [OF assms(1-7), of node kind st] tg.problems_spaced [OF assms(1-7), of node kind st]
  by (cases telegram) (simp_all add: accepted_by_def)

lemma problem_alerts_spaced_witness:
  "applyCooldown \<le> 2 * Hour - Minute"
proof -
  let ?cs = "[test_call (Problem_op applyCooldown) True True Minute, test_call (Problem_op applyCooldown) True True Hour,
    test_call (Problem_op applyCooldown) True True (2 * Hour)]"
  have "applyCooldown \<le> CheckedAt (Dlv (?cs ! 2)) - DoneAt (Dlv (?cs ! 0))"
    by (rule problem_alerts_spaced [where t = 0 and telegram = True and node = "''n''" and kind = "''apply_failed''"
          and st = zero_state])
      (simp_all add: test_call_def test_delivery_def applyCooldown_def duration_units zero_time_def max_duration_def
        accepted_by_def tg_accepted_def alert_step_def problem_def withState_def problem_body_def sendProblem_def
        tg_ready_def zero_state_def time_IsZero_def time_Sub_def min_duration_def Let_def)
  then show ?thesis by (simp add: test_call_def test_delivery_def)
qed

end
