(* ===== verification/Reliability_Alerts.thy ===== *)
theory Reliability_Alerts
  imports Notifications
begin

text \<open>
  The aggregated server alert of \<^verbatim>\<open>internal/worker/reliability_notifications.go\<close>: the table of
  findings per node, the candidate row that dates the current phase, and the alert sent from it.
  The tables are those of \<^verbatim>\<open>migrations/00026_notification_state.sql\<close>: one finding row per
  (node, kind), one candidate row per node; both are modelled for one node. A failing statement
  rolls its transaction back, so the only outcomes are all or nothing.
\<close>

definition reliabilityProblemDelay :: duration where
  "reliabilityProblemDelay = 5 * Minute"

definition reliabilityRecoveryDelay :: duration where
  "reliabilityRecoveryDelay = 10 * Minute"

definition reliabilityFreshness :: duration where
  "reliabilityFreshness = 2 * Minute"

definition reliabilityUnknownExpiry :: duration where
  "reliabilityUnknownExpiry = Hour"

subsection \<open>The findings table\<close>

record finding_row =
  F_source :: string
  F_kind :: string
  F_failed :: bool
  F_known :: bool
  F_observed :: gotime

definition finding_source :: "Finding \<Rightarrow> string" where
  "finding_source f =
     (if Kind f = ''looks_like_blocking'' then ''blocking''
      else if HasPrefix (Kind f) ''probe_'' then TrimSuffix (Kind f) ''_stale''
      else ''health'')"

definition forget_source :: "string \<Rightarrow> gotime \<Rightarrow> finding_row \<Rightarrow> finding_row" where
  "forget_source source now r =
     (if F_source r = source
      then r\<lparr>F_known := False, F_observed := (if F_known r then now else F_observed r)\<rparr> else r)"

definition upsert_finding :: "finding_row \<Rightarrow> finding_row list \<Rightarrow> finding_row list" where
  "upsert_finding r rows =
     (if \<exists>x \<in> set rows. F_kind x = F_kind r then map (\<lambda>x. if F_kind x = F_kind r then r else x) rows
      else rows @ [r])"

definition row_of :: "string \<Rightarrow> gotime \<Rightarrow> Finding \<Rightarrow> finding_row" where
  "row_of source now f =
     \<lparr>F_source = source, F_kind = Kind f, F_failed = Failed f, F_known = Known f, F_observed = now\<rparr>"

definition observeFindings :: "bool \<Rightarrow> Finding list \<Rightarrow> gotime \<Rightarrow> finding_row list \<Rightarrow> finding_row list" where
  "observeFindings committed findings now rows =
     (case findings of
        [] \<Rightarrow> rows
      | f # _ \<Rightarrow>
          if \<not> committed then rows
          else let source = finding_source f;
                   rows1 = map (forget_source source now) rows;
                   rows2 = fold (\<lambda>f. upsert_finding (row_of source now f)) (filter Known findings) rows1
               in filter (\<lambda>r. \<not> (F_source r = source \<and> \<not> F_known r \<and>
                                F_observed r < now - reliabilityUnknownExpiry)) rows2)"

subsection \<open>The candidate row\<close>

datatype phase = Phase_unknown | Phase_bad | Phase_healthy

record candidate =
  C_phase :: phase
  C_since :: gotime
  C_observed :: gotime

text \<open>
  What one call of \<^verbatim>\<open>observeReliability\<close> reads: the table, the unresolved diagnostic alerts
  (\<open>None\<close> when that query fails), whether the node's health is fresh, and the clock.
\<close>

record observation =
  O_rows :: "finding_row list"
  O_alerts :: "string list option"
  O_known :: bool
  O_now :: gotime
  O_saved :: bool

definition openDiagnostic :: "string list \<Rightarrow> bool" where
  "openDiagnostic kinds = (\<exists>k \<in> set kinds. HasPrefix k ''diagnostic_'' \<and> \<not> lifetimeCounterAlert k)"

definition summary_rows :: "finding_row list \<Rightarrow> finding_row list" where
  "summary_rows rows = filter (\<lambda>r. F_source r \<noteq> ''blocking_evidence'') rows"

definition observed_phase :: "observation \<Rightarrow> phase option" where
  "observed_phase ob =
     (case O_alerts ob of
        None \<Rightarrow> None
      | Some kinds \<Rightarrow>
          let rows = summary_rows (O_rows ob);
              limit = O_now ob - reliabilityFreshness;
              bad = ((\<exists>r \<in> set rows. F_failed r \<and> F_known r \<and> limit \<le> F_observed r) \<or> openDiagnostic kinds);
              unknown = (\<exists>r \<in> set rows. \<not> F_known r \<or> F_observed r < limit);
              any = (rows \<noteq> [])
          in Some (if O_known ob \<and> bad then Phase_bad
                   else if O_known ob \<and> any \<and> \<not> unknown then Phase_healthy
                   else Phase_unknown))"

definition upsert_candidate :: "phase \<Rightarrow> gotime \<Rightarrow> candidate option \<Rightarrow> candidate" where
  "upsert_candidate ph now old =
     (case old of
        None \<Rightarrow> \<lparr>C_phase = ph, C_since = now, C_observed = now\<rparr>
      | Some c \<Rightarrow>
          \<lparr>C_phase = ph,
           C_since = (if C_phase c \<noteq> ph \<or> C_observed c < now - reliabilityFreshness \<or> ph = Phase_unknown
                      then now else C_since c),
           C_observed = now\<rparr>)"

definition observeReliability :: "observation \<Rightarrow> candidate option \<Rightarrow> bool \<times> candidate option" where
  "observeReliability ob old =
     (case observed_phase ob of
        None \<Rightarrow> (False, old)
      | Some ph \<Rightarrow> if O_saved ob then (True, Some (upsert_candidate ph (O_now ob) old)) else (False, old))"

subsection \<open>Sending\<close>

definition blocking_now :: "gotime \<Rightarrow> finding_row list \<Rightarrow> bool" where
  "blocking_now now rows =
     (\<exists>r \<in> set rows. F_source r = ''blocking'' \<and> F_kind r = ''looks_like_blocking'' \<and> F_failed r \<and> F_known r \<and>
        now - reliabilityFreshness \<le> F_observed r)"

definition reliability_body ::
  "(bool \<Rightarrow> bool \<Rightarrow> alert_message) \<Rightarrow> string \<Rightarrow> finding_row list option \<Rightarrow> candidate option \<Rightarrow> delivery \<Rightarrow>
     notificationState \<Rightarrow> post list \<times> notificationState" where
  "reliability_body render node rows cand d st =
     (case cand of
        None \<Rightarrow> ([], st)
      | Some c \<Rightarrow>
          if time_Sub (CheckedAt d) (C_observed c) > reliabilityFreshness then ([], st)
          else case C_phase c of
            Phase_bad \<Rightarrow>
              if time_Sub (C_observed c) (C_since c) < reliabilityProblemDelay then ([], st)
              else if cooling incidentCooldown d st then ([], st)
              else (case rows of
                      None \<Rightarrow> ([], st)
                    | Some rs \<Rightarrow> sendProblem node ''server_reliability''
                        (render False (blocking_now (C_observed c) rs)) d (st\<lparr>NPending := True\<rparr>))
          | Phase_healthy \<Rightarrow>
              if time_Sub (C_observed c) (C_since c) < reliabilityRecoveryDelay then ([], st)
              else sendRecovery node ''server_reliability'' (render True False) d (st\<lparr>NPending := False\<rparr>)
          | Phase_unknown \<Rightarrow> ([], st))"

definition sendReliability where
  "sendReliability tx render node rows cand d = withState tx (reliability_body render node rows cand d)"

subsection \<open>How long a phase has held\<close>

definition recorded :: "observation \<Rightarrow> bool" where
  "recorded ob \<longleftrightarrow> fst (observeReliability ob None)"

definition candidate_after :: "observation list \<Rightarrow> candidate option" where
  "candidate_after obs = fold (\<lambda>ob c. snd (observeReliability ob c)) obs None"

text \<open>An unbroken stretch of recorded observations of one phase, no two neighbours further apart than the freshness.\<close>

definition stretch :: "phase \<Rightarrow> observation list \<Rightarrow> bool" where
  "stretch ph mid \<longleftrightarrow>
     mid \<noteq> [] \<and> (\<forall>ob \<in> set mid. observed_phase ob = Some ph) \<and>
     successively (\<lambda>a b. O_now b - O_now a \<le> reliabilityFreshness) mid"

lemma candidate_snoc:
  "candidate_after (obs @ [ob]) =
     (if recorded ob
      then Some (upsert_candidate (the (observed_phase ob)) (O_now ob) (candidate_after obs))
      else candidate_after obs)"
  by (auto simp: candidate_after_def recorded_def observeReliability_def split: option.splits)

lemma recorded_phase: "recorded ob \<Longrightarrow> \<exists>ph. observed_phase ob = Some ph"
  by (auto simp: recorded_def observeReliability_def split: option.splits)

lemma candidate_stretch:
  assumes "candidate_after obs = Some c"
  shows "\<exists>pre mid. filter recorded obs = pre @ mid \<and> stretch (C_phase c) mid \<and>
           O_now (hd mid) = C_since c \<and> O_now (last mid) = C_observed c"
  using assms
proof (induction obs arbitrary: c rule: rev_induct)
  case Nil
  then show ?case by (simp add: candidate_after_def)
next
  case (snoc ob obs)
  show ?case
  proof (cases "recorded ob")
    case False
    then show ?thesis using snoc by (simp add: candidate_snoc)
  next
    case True
    then obtain ph where ph: "observed_phase ob = Some ph"
      using recorded_phase by blast
    have c: "c = upsert_candidate ph (O_now ob) (candidate_after obs)"
      using snoc.prems True ph by (simp add: candidate_snoc)
    show ?thesis
    proof (cases "\<exists>b. candidate_after obs = Some b \<and> C_phase b = ph \<and> C_since c = C_since b
                    \<and> O_now ob - C_observed b \<le> reliabilityFreshness")
      case True
      then obtain b where b: "candidate_after obs = Some b" "C_phase b = ph" "C_since c = C_since b"
        "O_now ob - C_observed b \<le> reliabilityFreshness"
        by blast
      from snoc.IH [OF b(1)] obtain pre mid where
        "filter recorded obs = pre @ mid" "stretch ph mid" "O_now (hd mid) = C_since b"
        "O_now (last mid) = C_observed b"
        using b(2) by blast
      then show ?thesis
        using \<open>recorded ob\<close> ph b c
        by (intro exI [of _ pre] exI [of _ "mid @ [ob]"])
          (auto simp: stretch_def upsert_candidate_def successively_append_iff)
    next
      case False
      then have "C_since c = O_now ob"
        using c by (auto simp: upsert_candidate_def split: option.splits if_splits)
      then show ?thesis
        using \<open>recorded ob\<close> ph c
        by (intro exI [of _ "filter recorded obs"] exI [of _ "[ob]"])
          (auto simp: stretch_def upsert_candidate_def split: option.splits)
    qed
  qed
qed

text \<open>What a body that posts anything found in the candidate row.\<close>

lemma reliability_posts:
  assumes "fst (reliability_body render node rows cand d st) \<noteq> []"
  obtains (problem) c where "cand = Some c" "C_phase c = Phase_bad"
      "CheckedAt d - C_observed c \<le> reliabilityFreshness" "reliabilityProblemDelay \<le> C_observed c - C_since c"
      "\<not> cooling incidentCooldown d st"
  | (recovery) c where "cand = Some c" "C_phase c = Phase_healthy"
      "CheckedAt d - C_observed c \<le> reliabilityFreshness" "reliabilityRecoveryDelay \<le> C_observed c - C_since c"
      "Webhook st \<or> Telegram st"
proof -
  have sub: "time_Sub t u < k * Minute \<longleftrightarrow> t - u < k * Minute"
    "time_Sub t u \<le> k * Minute \<longleftrightarrow> t - u \<le> k * Minute" if "k \<in> {2, 5, 10}" for t u k
    using that by (intro time_Sub_less_iff time_Sub_le_iff; auto simp: duration_units max_duration_def min_duration_def)+
  note defs = reliabilityFreshness_def reliabilityProblemDelay_def reliabilityRecoveryDelay_def
  show thesis
  proof (cases cand)
    case None
    then show thesis using assms by (simp add: reliability_body_def)
  next
    case (Some c)
    then show thesis
      using assms problem [OF Some] recovery [OF Some]
      by (cases "C_phase c")
        (auto simp: reliability_body_def defs sub not_less sendRecovery_def Let_def not_le
          split: if_splits option.splits)
  qed
qed

text \<open> C37:
  The server alert speaks only for a condition that lasted: if a call posts anything, then the
  recorded observations end in an unbroken stretch (no gap above two minutes, the last one at most
  two minutes before the call) that was bad throughout at least five minutes, or healthy
  throughout at least ten.
\<close>

theorem reliability_alert_sustained:
  assumes "fst (sendReliability tx render node rows (candidate_after obs) d st) \<noteq> []"
  shows "\<exists>pre mid ph. filter recorded obs = pre @ mid \<and> stretch ph mid \<and>
           CheckedAt d - O_now (last mid) \<le> 2 * Minute \<and>
           (ph = Phase_bad \<and> 5 * Minute \<le> O_now (last mid) - O_now (hd mid) \<or>
            ph = Phase_healthy \<and> 10 * Minute \<le> O_now (last mid) - O_now (hd mid))"
proof -
  have "fst (reliability_body render node rows (candidate_after obs) d st) \<noteq> []"
    using assms by (auto simp: sendReliability_def withState_def split: txn.splits)
  then show ?thesis
  proof (cases rule: reliability_posts)
    case (problem c)
    with candidate_stretch [OF problem(1)] show ?thesis
      by (fastforce simp: reliabilityFreshness_def reliabilityProblemDelay_def)
  next
    case (recovery c)
    with candidate_stretch [OF recovery(1)] show ?thesis
      by (fastforce simp: reliabilityFreshness_def reliabilityRecoveryDelay_def)
  qed
qed

definition failing_row :: "gotime \<Rightarrow> finding_row" where
  "failing_row t =
     \<lparr>F_source = ''health'', F_kind = ''disk_pressure'', F_failed = True, F_known = True, F_observed = t\<rparr>"

definition bad_at :: "gotime \<Rightarrow> observation" where
  "bad_at t = \<lparr>O_rows = [failing_row t], O_alerts = Some [], O_known = True, O_now = t, O_saved = True\<rparr>"

lemma bad_at_observed [simp]:
  "observed_phase (bad_at t) = Some Phase_bad" "O_now (bad_at t) = t" "O_saved (bad_at t)"
  by (simp_all add: bad_at_def failing_row_def observed_phase_def summary_rows_def reliabilityFreshness_def
      duration_units Let_def)

lemma reliability_alert_sustained_witness:
  "\<exists>pre mid ph. filter recorded (map bad_at [0, 2 * Minute, 4 * Minute, 6 * Minute]) = pre @ mid \<and>
     stretch ph mid \<and> 7 * Minute - O_now (last mid) \<le> 2 * Minute \<and>
     (ph = Phase_bad \<and> 5 * Minute \<le> O_now (last mid) - O_now (hd mid) \<or>
      ph = Phase_healthy \<and> 10 * Minute \<le> O_now (last mid) - O_now (hd mid))"
proof -
  have "candidate_after (map bad_at [0, 2 * Minute, 4 * Minute, 6 * Minute]) =
      Some \<lparr>C_phase = Phase_bad, C_since = 0, C_observed = 6 * Minute\<rparr>"
    by (simp add: candidate_after_def observeReliability_def upsert_candidate_def reliabilityFreshness_def)
  then have "fst (sendReliability Saved (\<lambda>_ _. \<lparr>Plain = [], HTML = []\<rparr>) ''n'' (Some [])
      (candidate_after (map bad_at [0, 2 * Minute, 4 * Minute, 6 * Minute])) (test_delivery True True (7 * Minute))
      zero_state) \<noteq> []"
    by (simp add: sendReliability_def withState_def reliability_body_def cooling_def zero_state_def test_delivery_def
        sendProblem_def tg_ready_def reliabilityFreshness_def reliabilityProblemDelay_def duration_units time_Sub_def
        max_duration_def min_duration_def Let_def)
  from reliability_alert_sustained [OF this] show ?thesis
    by (simp add: test_delivery_def)
qed

subsection \<open>A vanished finding is not a recovery\<close>

lemma upsert_finding_kind:
  "F_kind r \<noteq> k \<Longrightarrow> filter (\<lambda>x. F_kind x = k) (upsert_finding r rows) = filter (\<lambda>x. F_kind x = k) rows"
proof -
  assume "F_kind r \<noteq> k"
  then have "filter (\<lambda>x. F_kind x = k) (map (\<lambda>x. if F_kind x = F_kind r then r else x) xs) =
      filter (\<lambda>x. F_kind x = k) xs" for xs
    by (induction xs) auto
  with \<open>F_kind r \<noteq> k\<close> show ?thesis
    by (simp add: upsert_finding_def)
qed

lemma fold_upsert_kind:
  assumes "\<forall>f \<in> set fs. Kind f \<noteq> k"
  shows "filter (\<lambda>x. F_kind x = k) (fold (\<lambda>f. upsert_finding (row_of source now f)) fs rows) =
    filter (\<lambda>x. F_kind x = k) rows"
  using assms by (induction fs arbitrary: rows) (simp_all add: upsert_finding_kind row_of_def)

text \<open> C38:
  A finding the table knows of, whose source now reports a snapshot without it (or with it
  unknown), stays in the table as unknown, so the server summary cannot turn healthy on that
  snapshot, until it has stayed unknown for more than an hour.
\<close>

theorem vanished_finding_blocks_recovery:
  assumes "r \<in> set rows" "findings = f # fs" "F_source r = finding_source f"
    and "\<forall>g \<in> set findings. Kind g = F_kind r \<longrightarrow> \<not> Known g"
    and "F_known r \<or> now - Hour \<le> F_observed r"
    and "F_source r \<noteq> ''blocking_evidence''"
    and "O_rows ob = observeFindings True findings now rows"
  shows "(\<exists>q \<in> set (O_rows ob). F_kind q = F_kind r \<and> \<not> F_known q) \<and> observed_phase ob \<noteq> Some Phase_healthy"
proof -
  let ?q = "forget_source (finding_source f) now r"
  let ?rows2 = "fold (\<lambda>f'. upsert_finding (row_of (finding_source f) now f')) (filter Known findings)
      (map (forget_source (finding_source f) now) rows)"
  have "?q \<in> set (filter (\<lambda>x. F_kind x = F_kind r) (map (forget_source (finding_source f) now) rows))"
    using assms(1,3) by (auto simp: forget_source_def)
  moreover have "\<forall>g \<in> set (filter Known findings). Kind g \<noteq> F_kind r"
    using assms(4) by auto
  ultimately have "?q \<in> set (filter (\<lambda>x. F_kind x = F_kind r) ?rows2)"
    by (simp only: fold_upsert_kind)
  then have "?q \<in> set ?rows2"
    by simp
  then have q: "?q \<in> set (O_rows ob)"
    using assms(2,3,5,7) Hour_def Minute_def Second_def
    by (auto simp: observeFindings_def forget_source_def reliabilityUnknownExpiry_def Let_def not_less)
  then have "\<exists>x \<in> set (summary_rows (O_rows ob)). \<not> F_known x"
    using assms(3,6) by (auto simp: summary_rows_def forget_source_def)
  then have "observed_phase ob \<noteq> Some Phase_healthy"
    by (auto simp: observed_phase_def Let_def split: option.splits)
  moreover have "F_kind ?q = F_kind r" "\<not> F_known ?q"
    using assms(3) by (simp_all add: forget_source_def)
  ultimately show ?thesis
    using q by blast
qed

lemma vanished_finding_blocks_recovery_witness:
  "observed_phase \<lparr>O_rows = observeFindings True [finding ''memory_pressure'' [] False True] Minute [failing_row 0],
     O_alerts = Some [], O_known = True, O_now = Minute, O_saved = True\<rparr> \<noteq> Some Phase_healthy"
  using vanished_finding_blocks_recovery [of "failing_row 0" "[failing_row 0]"
      "[finding ''memory_pressure'' [] False True]" "finding ''memory_pressure'' [] False True" "[]" Minute
      "\<lparr>O_rows = observeFindings True [finding ''memory_pressure'' [] False True] Minute [failing_row 0],
        O_alerts = Some [], O_known = True, O_now = Minute, O_saved = True\<rparr>"]
  by (simp add: failing_row_def finding_source_def HasPrefix_def)

end
