(* ===== verification/Key_Store.thy ===== *)
theory Key_Store
  imports Quota_Reset
begin

text \<open>
  The tables the key service works on and the statements it runs on them
  (\<^verbatim>\<open>internal/store/db/keys.sql.go\<close>, \<^verbatim>\<open>profiles.sql.go\<close>, \<^verbatim>\<open>nodes.sql.go\<close>; schema in
  \<^verbatim>\<open>internal/store/migrations\<close>), and \<^verbatim>\<open>Store.Tx\<close> of \<^verbatim>\<open>internal/store/store.go\<close>. A table is
  the list of its rows in no particular order; primary keys, unique indexes and foreign keys are
  the errors the statements raise, and deletions cascade as the schema says. Columns no
  statement here reads or writes are left out.
\<close>

subsection \<open>Rows\<close>

datatype KeyStatus = KeyStatusPending | KeyStatusActive | KeyStatusRevoked

datatype SyncState = SyncStatePending | SyncStateSynced | SyncStateFailed

record node_row =
  N_id :: uuid
  N_hostname :: string
  N_max_profiles :: int
  N_dirty :: bool
  N_dirty_seq :: int
  N_dirty_since :: "gotime option"

record AccessKey =
  K_id :: uuid
  K_label :: string
  K_type :: string
  K_owner :: string
  K_secret_enc :: string
  K_status :: KeyStatus
  K_carrier :: string
  K_limits :: string
  K_expires_at :: "gotime option"
  K_revoked_at :: "gotime option"
  K_note :: string
  K_created_by :: "uuid option"
  K_telemt_limits :: string
  K_disabled_at :: "gotime option"
  K_expired_at :: "gotime option"
  K_slug :: "string option"

record Profile =
  P_id :: uuid
  P_node :: uuid
  P_key :: "uuid option"
  P_name :: string
  P_secret_enc :: string
  P_backend :: string
  P_carrier :: string
  P_limits :: string
  P_sync :: SyncState

record Binding =
  B_key :: uuid
  B_node :: uuid
  B_profile :: uuid

record SubscriptionToken =
  T_hash :: string
  T_key :: uuid
  T_revoked_at :: "gotime option"
  T_enc :: string

record keydb =
  nodes :: "node_row list"
  keys :: "AccessKey list"
  profiles :: "Profile list"
  bindings :: "Binding list"
  tokens :: "SubscriptionToken list"

datatype key_error =
    ErrNotFound
  | ErrRevoked
  | ErrCapacity string int int
  | ErrCapacityBatch string int int int
  | ValidationError "(string \<times> string) list"
  | UniqueViolation
  | ForeignKeyViolation
  | Fault

subsection \<open>Statements\<close>

definition update_where :: "('a \<Rightarrow> bool) \<Rightarrow> ('a \<Rightarrow> 'a) \<Rightarrow> 'a list \<Rightarrow> 'a list" where
  "update_where P f xs = map (\<lambda>x. if P x then f x else x) xs"

definition GetNode :: "uuid \<Rightarrow> keydb \<Rightarrow> node_row option" where
  "GetNode i db = find (\<lambda>n. N_id n = i) (nodes db)"

definition GetKey :: "uuid \<Rightarrow> keydb \<Rightarrow> AccessKey option" where
  "GetKey i db = find (\<lambda>k. K_id k = i) (keys db)"

definition CountNodeProfiles :: "uuid \<Rightarrow> keydb \<Rightarrow> int" where
  "CountNodeProfiles n db = int (length (filter (\<lambda>p. P_node p = n) (profiles db)))"

definition SetNodeDirty :: "gotime \<Rightarrow> bool \<Rightarrow> uuid \<Rightarrow> keydb \<Rightarrow> keydb" where
  "SetNodeDirty now dirty i db = db\<lparr>nodes := update_where (\<lambda>n. N_id n = i)
     (\<lambda>n. n\<lparr>N_dirty := dirty,
           N_dirty_seq := (if dirty then N_dirty_seq n + 1 else N_dirty_seq n),
           N_dirty_since := (if dirty then (case N_dirty_since n of None \<Rightarrow> Some now | Some t \<Rightarrow> Some t) else None)\<rparr>)
     (nodes db)\<rparr>"

definition CreateKey :: "AccessKey \<Rightarrow> keydb \<Rightarrow> key_error + keydb" where
  "CreateKey k db =
     (if \<exists>x \<in> set (keys db). K_id x = K_id k then Inl UniqueViolation else Inr (db\<lparr>keys := keys db @ [k]\<rparr>))"

definition CreateProfile :: "Profile \<Rightarrow> keydb \<Rightarrow> key_error + keydb" where
  "CreateProfile p db =
     (if \<exists>x \<in> set (profiles db). P_id x = P_id p \<or> P_node x = P_node p \<and> P_name x = P_name p
      then Inl UniqueViolation
      else if GetNode (P_node p) db = None \<or> (case P_key p of None \<Rightarrow> False | Some k \<Rightarrow> GetKey k db = None)
      then Inl ForeignKeyViolation
      else Inr (db\<lparr>profiles := profiles db @ [p]\<rparr>))"

definition CreateBinding :: "Binding \<Rightarrow> keydb \<Rightarrow> key_error + keydb" where
  "CreateBinding b db =
     (if \<exists>x \<in> set (bindings db). B_key x = B_key b \<and> B_node x = B_node b then Inl UniqueViolation
      else if GetKey (B_key b) db = None \<or> GetNode (B_node b) db = None \<or>
        (\<forall>p \<in> set (profiles db). P_id p \<noteq> B_profile b)
      then Inl ForeignKeyViolation
      else Inr (db\<lparr>bindings := bindings db @ [b]\<rparr>))"

definition ListKeyBindings :: "uuid \<Rightarrow> keydb \<Rightarrow> Binding list" where
  "ListKeyBindings k db =
     filter (\<lambda>b. B_key b = k \<and> GetNode (B_node b) db \<noteq> None \<and> (\<exists>p \<in> set (profiles db). P_id p = B_profile b))
       (bindings db)"

definition DeleteBinding :: "uuid \<Rightarrow> uuid \<Rightarrow> keydb \<Rightarrow> keydb" where
  "DeleteBinding k n db = db\<lparr>bindings := filter (\<lambda>b. \<not> (B_key b = k \<and> B_node b = n)) (bindings db)\<rparr>"

text \<open>Deleting profiles takes their bindings with them.\<close>

definition delete_profiles :: "(Profile \<Rightarrow> bool) \<Rightarrow> keydb \<Rightarrow> keydb" where
  "delete_profiles P db =
     db\<lparr>profiles := filter (\<lambda>p. \<not> P p) (profiles db),
        bindings := filter (\<lambda>b. \<forall>p \<in> set (profiles db). P p \<longrightarrow> P_id p \<noteq> B_profile b) (bindings db)\<rparr>"

definition DeleteProfile :: "uuid \<Rightarrow> keydb \<Rightarrow> keydb" where
  "DeleteProfile i db = delete_profiles (\<lambda>p. P_id p = i) db"

definition DeleteProfilesByKey :: "uuid \<Rightarrow> keydb \<Rightarrow> keydb" where
  "DeleteProfilesByKey k db = delete_profiles (\<lambda>p. P_key p = Some k) db"

definition DeleteKey :: "uuid \<Rightarrow> keydb \<Rightarrow> keydb" where
  "DeleteKey k db =
     (let db1 = DeleteProfilesByKey k db
      in db1\<lparr>keys := filter (\<lambda>x. K_id x \<noteq> k) (keys db1),
             bindings := filter (\<lambda>b. B_key b \<noteq> k) (bindings db1),
             tokens := filter (\<lambda>t. T_key t \<noteq> k) (tokens db1)\<rparr>)"

definition ListProfilesByKey :: "uuid \<Rightarrow> keydb \<Rightarrow> Profile list" where
  "ListProfilesByKey k db = filter (\<lambda>p. P_key p = Some k) (profiles db)"

definition UpdateProfileSecret :: "string \<Rightarrow> uuid \<Rightarrow> keydb \<Rightarrow> keydb" where
  "UpdateProfileSecret enc i db = db\<lparr>profiles := update_where (\<lambda>p. P_id p = i)
     (\<lambda>p. p\<lparr>P_secret_enc := enc, P_sync := SyncStatePending\<rparr>) (profiles db)\<rparr>"

definition UpdateProfileSettings :: "string \<Rightarrow> string \<Rightarrow> uuid \<Rightarrow> keydb \<Rightarrow> keydb" where
  "UpdateProfileSettings carrier limits i db = db\<lparr>profiles := update_where (\<lambda>p. P_id p = i)
     (\<lambda>p. p\<lparr>P_carrier := carrier, P_limits := limits, P_sync := SyncStatePending\<rparr>) (profiles db)\<rparr>"

definition update_key :: "uuid \<Rightarrow> (AccessKey \<Rightarrow> AccessKey) \<Rightarrow> keydb \<Rightarrow> keydb" where
  "update_key i f db = db\<lparr>keys := update_where (\<lambda>k. K_id k = i) f (keys db)\<rparr>"

definition SetKeyStatus :: "gotime \<Rightarrow> KeyStatus \<Rightarrow> uuid \<Rightarrow> keydb \<Rightarrow> keydb" where
  "SetKeyStatus now st i = update_key i (\<lambda>k. k\<lparr>K_status := st,
     K_revoked_at := (if st = KeyStatusRevoked then Some now else K_revoked_at k)\<rparr>)"

definition SetKeySecret :: "string \<Rightarrow> uuid \<Rightarrow> keydb \<Rightarrow> keydb" where
  "SetKeySecret enc i = update_key i (\<lambda>k. k\<lparr>K_secret_enc := enc, K_status := KeyStatusPending, K_revoked_at := None\<rparr>)"

definition SetKeyExpiry :: "gotime option \<Rightarrow> uuid \<Rightarrow> keydb \<Rightarrow> keydb" where
  "SetKeyExpiry e i = update_key i (\<lambda>k. k\<lparr>K_expires_at := e, K_expired_at := None\<rparr>)"

definition SetKeyExpired :: "gotime \<Rightarrow> uuid \<Rightarrow> keydb \<Rightarrow> keydb" where
  "SetKeyExpired now i = update_key i (\<lambda>k. k\<lparr>K_expired_at := Some now\<rparr>)"

definition SetKeyDisabled :: "gotime option \<Rightarrow> uuid \<Rightarrow> keydb \<Rightarrow> keydb" where
  "SetKeyDisabled d i = update_key i (\<lambda>k. k\<lparr>K_disabled_at := d\<rparr>)"

definition SetKeySlug :: "string option \<Rightarrow> uuid \<Rightarrow> keydb \<Rightarrow> key_error + keydb" where
  "SetKeySlug slug i db =
     (if slug \<noteq> None \<and> (\<exists>k \<in> set (keys db). K_id k = i) \<and> (\<exists>k \<in> set (keys db). K_id k \<noteq> i \<and> K_slug k = slug)
      then Inl UniqueViolation
      else Inr (update_key i (\<lambda>k. k\<lparr>K_slug := slug\<rparr>) db))"

definition RevokeSubscriptionTokensForKey :: "gotime \<Rightarrow> uuid \<Rightarrow> keydb \<Rightarrow> keydb" where
  "RevokeSubscriptionTokensForKey now k db = db\<lparr>tokens := update_where (\<lambda>t. T_key t = k \<and> T_revoked_at t = None)
     (\<lambda>t. t\<lparr>T_revoked_at := Some now\<rparr>) (tokens db)\<rparr>"

definition CreateSubscriptionToken :: "string \<Rightarrow> uuid \<Rightarrow> string \<Rightarrow> keydb \<Rightarrow> key_error + keydb" where
  "CreateSubscriptionToken hash k enc db =
     (if \<exists>t \<in> set (tokens db). T_hash t = hash then Inl UniqueViolation
      else if GetKey k db = None then Inl ForeignKeyViolation
      else Inr (db\<lparr>tokens := tokens db @ [\<lparr>T_hash = hash, T_key = k, T_revoked_at = None, T_enc = enc\<rparr>]\<rparr>))"

definition ListSecretsInUse :: "keydb \<Rightarrow> string list" where
  "ListSecretsInUse db =
     map K_secret_enc (filter (\<lambda>k. K_status k \<noteq> KeyStatusRevoked) (keys db)) @
     map P_secret_enc (filter (\<lambda>p. P_key p = None) (profiles db))"

definition ListExpiredActiveKeys :: "gotime \<Rightarrow> keydb \<Rightarrow> AccessKey list" where
  "ListExpiredActiveKeys now db =
     filter (\<lambda>k. K_status k \<noteq> KeyStatusRevoked \<and> (case K_expires_at k of None \<Rightarrow> False | Some e \<Rightarrow> e \<le> now) \<and>
              K_expired_at k = None) (keys db)"

text \<open>
  \<^verbatim>\<open>Store.Tx\<close>: an error of the body rolls everything back, and so does a fault of the
  connection, a statement or the commit (\<open>faulty\<close>).
\<close>

definition Tx :: "bool \<Rightarrow> (keydb \<Rightarrow> key_error + 'a \<times> keydb) \<Rightarrow> keydb \<Rightarrow> (key_error + 'a) \<times> keydb" where
  "Tx faulty body db =
     (if faulty then (Inl Fault, db)
      else case body db of Inl e \<Rightarrow> (Inl e, db) | Inr (x, db') \<Rightarrow> (Inr x, db'))"

end
