(* ===== verification/Key_Service.thy ===== *)
theory Key_Service
  imports Key_Store
begin

text \<open>
  The key service of \<^verbatim>\<open>internal/keys\<close> (\<^verbatim>\<open>service.go\<close>, \<^verbatim>\<open>users.go\<close>, \<^verbatim>\<open>import.go\<close>): creating,
  binding, revoking, rotating, editing and importing access keys. Each operation takes the
  database and gives its result with the database after it.

  What lies outside is a parameter: encryption, hashing, JSON encoding and PostgreSQL's
  normalisation of \<^verbatim>\<open>jsonb\<close> are the fields of \<open>key_env\<close>; the random values of one key's
  creation (secret, nonces, generated identifiers, subscription token) are a \<open>key_rand\<close>; the
  clock and whether the transaction meets a database fault are arguments.
\<close>

record key_env =
  Encrypt :: "nat \<Rightarrow> string \<Rightarrow> string option"
  Decrypt :: "string \<Rightarrow> string option"
  HashToken :: "string \<Rightarrow> string"
  MarshalLimits :: "ProfileLimits \<Rightarrow> string"
  MarshalTelemt :: "TelemtLimits \<Rightarrow> string"
  jsonb :: "string \<Rightarrow> string"
  id_text :: "uuid \<Rightarrow> string"
  limits_text :: "limits_error \<Rightarrow> string"
  limit_orders :: "string list \<times> string list \<times> string list \<times> string list"

record key_rand =
  R_secret :: "string option"
  R_nonce :: nat
  R_key :: uuid
  R_profile :: "uuid \<Rightarrow> uuid"
  R_token :: "string option"
  R_token_nonce :: nat

record CreateInput =
  Label :: string
  OwnerLabel :: string
  Note :: string
  Type :: string
  In_CarrierMode :: CarrierMode
  Limits :: ProfileLimits
  In_TelemtLimits :: TelemtLimits
  ExpiresAt :: "gotime option"
  NodeIDs :: "uuid list"
  CreatedBy :: "uuid option"
  SubSlug :: string
  Secret :: string

subsection \<open>Validation\<close>

text \<open>The pattern \<^verbatim>\<open>^[a-z0-9][a-z0-9-]{1,30}[a-z0-9]$\<close>.\<close>

definition ValidSlug :: "string \<Rightarrow> bool" where
  "ValidSlug s \<longleftrightarrow>
     3 \<le> length s \<and> length s \<le> 32 \<and> label_edge (hd s) \<and> label_edge (last s) \<and>
     list_all (\<lambda>c. label_edge c \<or> c = CHR ''-'') (butlast (tl s))"

definition relay_check :: "key_env \<Rightarrow> ProfileLimits \<Rightarrow> limits_error err" where
  "relay_check env l = (case limit_orders env of (o1, _) \<Rightarrow> ProfileLimits_Validate o1 l)"

definition telemt_check :: "key_env \<Rightarrow> TelemtLimits \<Rightarrow> limits_error err" where
  "telemt_check env l = (case limit_orders env of (_, o1, o2, o3) \<Rightarrow> TelemtLimits_Validate o1 o2 o3 l)"

definition field_err :: "key_env \<Rightarrow> string \<Rightarrow> limits_error err \<Rightarrow> (string \<times> string) list" where
  "field_err env field e = (case e of None \<Rightarrow> [] | Some x \<Rightarrow> [(field, limits_text env x)])"

text \<open>The fields with a validation error, in the order of the checks; none is \<^verbatim>\<open>nil\<close>.\<close>

definition validate_fields :: "key_env \<Rightarrow> gotime \<Rightarrow> bool \<Rightarrow> CreateInput \<Rightarrow> (string \<times> string) list" where
  "validate_fields env now requireLabel inp =
     (if requireLabel \<and> TrimSpace (Label inp) = [] then [(''label'', ''required'')] else []) @
     (if Type inp \<noteq> ''SHARED'' \<and> Type inp \<noteq> ''PERSONAL'' then [(''type'', ''SHARED or PERSONAL'')] else []) @
     (if \<not> CarrierMode_Valid (In_CarrierMode inp)
      then [(''carrier_mode'', ''https, https-lanes, websocket or websocket-lanes'')] else []) @
     field_err env ''limits'' (relay_check env (Limits inp)) @
     field_err env ''telemt_limits'' (telemt_check env (In_TelemtLimits inp)) @
     (if NodeIDs inp = [] then [(''node_ids'', ''bind at least one node'')] else []) @
     (if (case ExpiresAt inp of None \<Rightarrow> False | Some e \<Rightarrow> e < now) then [(''expires_at'', ''must be in the future'')] else []) @
     (if SubSlug inp \<noteq> [] \<and> (\<not> ValidSlug (SubSlug inp) \<or> Type inp \<noteq> ''SHARED'')
      then [(''sub_slug'', ''3-32 characters: a-z, 0-9 and dashes, shared keys only'')] else [])"

definition validate :: "key_env \<Rightarrow> gotime \<Rightarrow> bool \<Rightarrow> CreateInput \<Rightarrow> key_error err" where
  "validate env now requireLabel inp =
     (let ve = validate_fields env now requireLabel inp in if ve = [] then None else Some (ValidationError ve))"

subsection \<open>Binding\<close>

definition profile_name :: "key_env \<Rightarrow> uuid \<Rightarrow> string" where
  "profile_name env k = (case ProfileName (id_text env k) of None \<Rightarrow> [] | Some n \<Rightarrow> n)"

definition unknown_node :: "key_env \<Rightarrow> uuid \<Rightarrow> key_error" where
  "unknown_node env n = ValidationError [(''node_ids'', ''unknown node '' @ id_text env n)]"

definition new_profile :: "key_env \<Rightarrow> AccessKey \<Rightarrow> uuid \<Rightarrow> uuid \<Rightarrow> Profile" where
  "new_profile env key nodeID pid =
     \<lparr>P_id = pid, P_node = nodeID, P_key = Some (K_id key), P_name = profile_name env (K_id key),
      P_secret_enc = K_secret_enc key, P_backend = ''127.0.0.1:2398'', P_carrier = K_carrier key,
      P_limits = jsonb env (K_limits key), P_sync = SyncStatePending\<rparr>"

definition bindTx :: "key_env \<Rightarrow> gotime \<Rightarrow> AccessKey \<Rightarrow> uuid \<Rightarrow> uuid \<Rightarrow> keydb \<Rightarrow> key_error + unit \<times> keydb" where
  "bindTx env now key nodeID pid db =
     (case GetNode nodeID db of
        None \<Rightarrow> Inl (unknown_node env nodeID)
      | Some node \<Rightarrow>
          if CountNodeProfiles nodeID db \<ge> N_max_profiles node
          then Inl (ErrCapacity (N_hostname node) (CountNodeProfiles nodeID db) (N_max_profiles node))
          else case CreateProfile (new_profile env key nodeID pid) db of
                 Inl e \<Rightarrow> Inl e
               | Inr db1 \<Rightarrow>
                   (case CreateBinding \<lparr>B_key = K_id key, B_node = nodeID, B_profile = pid\<rparr> db1 of
                      Inl e \<Rightarrow> Inl e
                    | Inr db2 \<Rightarrow> Inr ((), SetNodeDirty now True nodeID db2)))"

fun bind_nodes ::
  "key_env \<Rightarrow> gotime \<Rightarrow> AccessKey \<Rightarrow> (uuid \<Rightarrow> uuid) \<Rightarrow> uuid list \<Rightarrow> keydb \<Rightarrow> key_error + unit \<times> keydb" where
  "bind_nodes env now key pids [] db = Inr ((), db)"
| "bind_nodes env now key pids (n # ns) db =
     (case bindTx env now key n (pids n) db of Inl e \<Rightarrow> Inl e | Inr (_, db') \<Rightarrow> bind_nodes env now key pids ns db')"

definition Bind :: "key_env \<Rightarrow> gotime \<Rightarrow> bool \<Rightarrow> uuid \<Rightarrow> uuid \<Rightarrow> uuid \<Rightarrow> keydb \<Rightarrow> (key_error + unit) \<times> keydb" where
  "Bind env now faulty keyID nodeID pid db =
     (case GetKey keyID db of
        None \<Rightarrow> (Inl ErrNotFound, db)
      | Some key \<Rightarrow>
          if K_status key = KeyStatusRevoked then (Inl (ValidationError [(''status'', ''key is revoked'')]), db)
          else Tx faulty (bindTx env now key nodeID pid) db)"

definition Unbind :: "gotime \<Rightarrow> bool \<Rightarrow> uuid \<Rightarrow> uuid \<Rightarrow> keydb \<Rightarrow> (key_error + unit) \<times> keydb" where
  "Unbind now faulty keyID nodeID =
     Tx faulty (\<lambda>db. case find (\<lambda>b. B_node b = nodeID) (ListKeyBindings keyID db) of
        None \<Rightarrow> Inr ((), db)
      | Some b \<Rightarrow> Inr ((), SetNodeDirty now True nodeID (DeleteProfile (B_profile b) (DeleteBinding keyID nodeID db))))"

definition dirtyKeyNodes :: "gotime \<Rightarrow> uuid \<Rightarrow> keydb \<Rightarrow> keydb" where
  "dirtyKeyNodes now keyID db = fold (\<lambda>b. SetNodeDirty now True (B_node b)) (ListKeyBindings keyID db) db"

subsection \<open>Creation\<close>

definition issueSubscriptionTx ::
  "key_env \<Rightarrow> gotime \<Rightarrow> key_rand \<Rightarrow> uuid \<Rightarrow> keydb \<Rightarrow> key_error + string \<times> keydb" where
  "issueSubscriptionTx env now r keyID db =
     (case R_token r of
        None \<Rightarrow> Inl Fault
      | Some token \<Rightarrow>
          (case Encrypt env (R_token_nonce r) token of
             None \<Rightarrow> Inl Fault
           | Some enc \<Rightarrow>
               (case CreateSubscriptionToken (HashToken env token) keyID enc
                       (RevokeSubscriptionTokensForKey now keyID db) of
                  Inl e \<Rightarrow> Inl e
                | Inr db' \<Rightarrow> Inr (token, db'))))"

definition new_key :: "key_env \<Rightarrow> CreateInput \<Rightarrow> uuid \<Rightarrow> string \<Rightarrow> AccessKey" where
  "new_key env inp i enc =
     \<lparr>K_id = i, K_label = Label inp, K_type = Type inp, K_owner = OwnerLabel inp, K_secret_enc = enc,
      K_status = KeyStatusPending, K_carrier = In_CarrierMode inp,
      K_limits = jsonb env (MarshalLimits env (Limits inp)), K_expires_at = ExpiresAt inp, K_revoked_at = None,
      K_note = Note inp, K_created_by = CreatedBy inp,
      K_telemt_limits = jsonb env (MarshalTelemt env (In_TelemtLimits inp)), K_disabled_at = None,
      K_expired_at = None, K_slug = None\<rparr>"

definition set_new_slug :: "string \<Rightarrow> AccessKey \<Rightarrow> keydb \<Rightarrow> key_error + AccessKey \<times> keydb" where
  "set_new_slug slug key db =
     (if slug = [] then Inr (key, db)
      else case SetKeySlug (Some slug) (K_id key) db of
             Inl e \<Rightarrow> Inl (if e = UniqueViolation then ValidationError [(''sub_slug'', ''taken'')] else e)
           | Inr db' \<Rightarrow> Inr (key\<lparr>K_slug := Some slug\<rparr>, db'))"

definition createTx :: "key_env \<Rightarrow> gotime \<Rightarrow> CreateInput \<Rightarrow> key_rand \<Rightarrow> keydb \<Rightarrow> key_error + AccessKey \<times> keydb" where
  "createTx env now inp r db =
     (case (if Secret inp = [] then R_secret r else Some (Secret inp)) of
        None \<Rightarrow> Inl Fault
      | Some secret \<Rightarrow>
          (case Encrypt env (R_nonce r) secret of
             None \<Rightarrow> Inl Fault
           | Some enc \<Rightarrow>
               (let key = new_key env inp (R_key r) enc
                in case CreateKey key db of
                     Inl e \<Rightarrow> Inl e
                   | Inr db1 \<Rightarrow>
                       (case bind_nodes env now key (R_profile r) (NodeIDs inp) db1 of
                          Inl e \<Rightarrow> Inl e
                        | Inr (_, db2) \<Rightarrow>
                            (case issueSubscriptionTx env now r (K_id key) db2 of
                               Inl e \<Rightarrow> Inl e
                             | Inr (_, db3) \<Rightarrow> set_new_slug (SubSlug inp) key db3)))))"

definition Create :: "key_env \<Rightarrow> gotime \<Rightarrow> bool \<Rightarrow> CreateInput \<Rightarrow> key_rand \<Rightarrow> keydb \<Rightarrow> (key_error + AccessKey) \<times> keydb" where
  "Create env now faulty inp r db =
     (case validate env now True inp of
        Some e \<Rightarrow> (Inl e, db)
      | None \<Rightarrow> Tx faulty (createTx env now inp r) db)"

fun checkCapacity :: "key_env \<Rightarrow> uuid list \<Rightarrow> int \<Rightarrow> keydb \<Rightarrow> key_error err" where
  "checkCapacity env [] count db = None"
| "checkCapacity env (n # ns) count db =
     (case GetNode n db of
        None \<Rightarrow> Some (unknown_node env n)
      | Some node \<Rightarrow>
          if CountNodeProfiles n db + count > N_max_profiles node
          then Some (ErrCapacityBatch (N_hostname node) (CountNodeProfiles n db) (N_max_profiles node) count)
          else checkCapacity env ns count db)"

text \<open>The loops of \<^verbatim>\<open>CreateBatch\<close> and \<^verbatim>\<open>Import\<close>: the keys made so far are returned in order.\<close>

fun create_each ::
  "(CreateInput \<Rightarrow> key_error err) \<Rightarrow> key_env \<Rightarrow> gotime \<Rightarrow> (CreateInput \<times> key_rand) list \<Rightarrow> keydb \<Rightarrow>
     key_error + AccessKey list \<times> keydb" where
  "create_each chk env now [] db = Inr ([], db)"
| "create_each chk env now ((item, r) # rest) db =
     (case chk item of
        Some e \<Rightarrow> Inl e
      | None \<Rightarrow>
          (case createTx env now item r db of
             Inl e \<Rightarrow> Inl e
           | Inr (k, db') \<Rightarrow>
               (case create_each chk env now rest db' of
                  Inl e \<Rightarrow> Inl e
                | Inr (ks, db'') \<Rightarrow> Inr (k # ks, db''))))"

definition with_rand :: "CreateInput list \<Rightarrow> (nat \<Rightarrow> key_rand) \<Rightarrow> (CreateInput \<times> key_rand) list" where
  "with_rand inputs rs = zip inputs (map rs [0..<length inputs])"

definition CreateBatch ::
  "key_env \<Rightarrow> gotime \<Rightarrow> bool \<Rightarrow> CreateInput \<Rightarrow> string \<Rightarrow> int \<Rightarrow> (nat \<Rightarrow> key_rand) \<Rightarrow> keydb \<Rightarrow>
     (key_error + AccessKey list) \<times> keydb" where
  "CreateBatch env now faulty inp prefix count rs db =
     (if count < 1 \<or> count > 100 then (Inl (ValidationError [(''count'', ''1..100'')]), db)
      else if TrimSpace prefix = [] then (Inl (ValidationError [(''prefix'', ''required'')]), db)
      else Tx faulty (\<lambda>db.
        case checkCapacity env (NodeIDs inp) count db of
          Some e \<Rightarrow> Inl e
        | None \<Rightarrow>
            create_each (validate env now True) env now
              (with_rand (map (\<lambda>i. inp\<lparr>SubSlug := [], Label := prefix @ ''-'' @ Itoa i\<rparr>) [1..count]) rs) db) db)"

subsection \<open>Import\<close>

definition MaxImport :: nat where
  "MaxImport = 500"

record ImportItem =
  I_Label :: string
  I_OwnerLabel :: string
  I_Secret :: string

text \<open>
  Lower-casing is modelled on ASCII letters: no other letter lower-cases to a hexadecimal digit,
  so the pattern accepts the same strings.
\<close>

definition NormalizeSecret :: "string \<Rightarrow> string \<times> bool" where
  "NormalizeSecret s = (let t = map lower_ascii (TrimSpace s) in (t, secretRe t))"

text \<open>
  The loop over the items: the errors by line, and the line each secret was last seen on
  (\<^verbatim>\<open>seen\<close>).
\<close>

fun check_items ::
  "nat \<Rightarrow> ImportItem list \<Rightarrow> (string \<times> nat) list \<Rightarrow> (string \<times> string) list \<times> (string \<times> nat) list" where
  "check_items i [] seen = ([], seen)"
| "check_items i (it # its) seen =
     (let (secret, ok) = NormalizeSecret (I_Secret it); line = ''items.'' @ digits_of i
      in if TrimSpace (I_Label it) = []
         then (let (ve, s) = check_items (Suc i) its seen in ((line, ''name required'') # ve, s))
         else if \<not> ok
         then (let (ve, s) = check_items (Suc i) its seen in ((line, ''secret must be 32 hex characters'') # ve, s))
         else (let (ve, s) = check_items (Suc i) its ((secret, i) # seen)
               in (case map_of seen secret of
                     None \<Rightarrow> (ve, s)
                   | Some j \<Rightarrow> ((line, ''same secret as line '' @ digits_of (Suc j)) # ve, s))))"

definition taken_secrets :: "key_env \<Rightarrow> (string \<times> nat) list \<Rightarrow> keydb \<Rightarrow> (string \<times> string) list" where
  "taken_secrets env seen db =
     List.map_filter (\<lambda>enc. case Decrypt env enc of
         None \<Rightarrow> None
       | Some plain \<Rightarrow> (case map_of seen plain of
           None \<Rightarrow> None
         | Some i \<Rightarrow> Some (''items.'' @ digits_of i, ''secret already belongs to another user'')))
       (ListSecretsInUse db)"

definition import_item :: "CreateInput \<Rightarrow> ImportItem \<Rightarrow> CreateInput" where
  "import_item inp it =
     inp\<lparr>SubSlug := [], Label := TrimSpace (I_Label it), OwnerLabel := TrimSpace (I_OwnerLabel it),
         Secret := fst (NormalizeSecret (I_Secret it))\<rparr>"

definition Import ::
  "key_env \<Rightarrow> gotime \<Rightarrow> bool \<Rightarrow> CreateInput \<Rightarrow> ImportItem list \<Rightarrow> (nat \<Rightarrow> key_rand) \<Rightarrow> keydb \<Rightarrow>
     (key_error + AccessKey list) \<times> keydb" where
  "Import env now faulty inp items rs db =
     (if items = [] \<or> length items > MaxImport
      then (Inl (ValidationError [(''items'', ''1..500 users'')]), db)
      else case check_items 0 items [] of
        (ve, seen) \<Rightarrow>
          if ve \<noteq> [] then (Inl (ValidationError ve), db)
          else case validate env now True (inp\<lparr>SubSlug := [], Label := I_Label (hd items)\<rparr>) of
                 Some e \<Rightarrow> (Inl e, db)
               | None \<Rightarrow>
                   Tx faulty (\<lambda>db.
                     if taken_secrets env seen db \<noteq> [] then Inl (ValidationError (taken_secrets env seen db))
                     else case checkCapacity env (NodeIDs inp) (int (length items)) db of
                            Some e \<Rightarrow> Inl e
                          | None \<Rightarrow> create_each (\<lambda>_. None) env now (with_rand (map (import_item inp) items) rs) db) db)"

subsection \<open>Changes to one key\<close>

definition key_is_revoked :: key_error where
  "key_is_revoked = ValidationError [(''status'', ''key is revoked'')]"

definition Revoke :: "gotime \<Rightarrow> bool \<Rightarrow> uuid \<Rightarrow> keydb \<Rightarrow> (key_error + unit) \<times> keydb" where
  "Revoke now faulty keyID =
     Tx faulty (\<lambda>db. case GetKey keyID db of
        None \<Rightarrow> Inl ErrNotFound
      | Some _ \<Rightarrow> Inr ((), SetKeyStatus now KeyStatusRevoked keyID
                         (DeleteProfilesByKey keyID (dirtyKeyNodes now keyID db))))"

definition rotate_profiles :: "string \<Rightarrow> Profile list \<Rightarrow> keydb \<Rightarrow> keydb" where
  "rotate_profiles enc ps db = fold (\<lambda>p. UpdateProfileSecret enc (P_id p)) ps db"

definition Rotate :: "key_env \<Rightarrow> gotime \<Rightarrow> bool \<Rightarrow> key_rand \<Rightarrow> uuid \<Rightarrow> keydb \<Rightarrow> (key_error + AccessKey) \<times> keydb" where
  "Rotate env now faulty r keyID db =
     (case Option.bind (R_secret r) (Encrypt env (R_nonce r)) of
        None \<Rightarrow> (Inl Fault, db)
      | Some enc \<Rightarrow>
          Tx faulty (\<lambda>db.
            case GetKey keyID db of
              None \<Rightarrow> Inl ErrNotFound
            | Some old \<Rightarrow>
                if K_status old = KeyStatusRevoked then Inl key_is_revoked
                else let db1 = SetKeySecret enc keyID db;
                         db2 = rotate_profiles enc (ListProfilesByKey keyID db1) db1;
                         db3 = dirtyKeyNodes now keyID db2
                     in case GetKey keyID db3 of None \<Rightarrow> Inl Fault | Some key \<Rightarrow> Inr (key, db3)) db)"

definition Delete :: "gotime \<Rightarrow> bool \<Rightarrow> uuid \<Rightarrow> keydb \<Rightarrow> (key_error + unit) \<times> keydb" where
  "Delete now faulty keyID = Tx faulty (\<lambda>db. Inr ((), DeleteKey keyID (dirtyKeyNodes now keyID db)))"

record UpdateInput =
  U_Label :: string
  U_OwnerLabel :: string
  U_Note :: string
  U_ExpiresAt :: "gotime option"
  U_CarrierMode :: CarrierMode
  U_Limits :: ProfileLimits
  U_TelemtLimits :: TelemtLimits

definition sameTime :: "gotime option \<Rightarrow> gotime option \<Rightarrow> bool" where
  "sameTime a b = (case (a, b) of (Some x, Some y) \<Rightarrow> x = y | (None, None) \<Rightarrow> True | _ \<Rightarrow> False)"

definition UpdateKey :: "key_env \<Rightarrow> gotime \<Rightarrow> UpdateInput \<Rightarrow> uuid \<Rightarrow> keydb \<Rightarrow> keydb" where
  "UpdateKey env now u i =
     update_key i (\<lambda>k. k\<lparr>K_label := U_Label u, K_owner := U_OwnerLabel u, K_note := U_Note u,
       K_expires_at := U_ExpiresAt u, K_carrier := U_CarrierMode u,
       K_limits := jsonb env (MarshalLimits env (U_Limits u)),
       K_expired_at := (case U_ExpiresAt u of None \<Rightarrow> None | Some e \<Rightarrow> if e > now then None else K_expired_at k),
       K_telemt_limits := jsonb env (MarshalTelemt env (U_TelemtLimits u))\<rparr>)"

definition resettle_profiles :: "string \<Rightarrow> string \<Rightarrow> Profile list \<Rightarrow> keydb \<Rightarrow> keydb" where
  "resettle_profiles carrier limits ps db = fold (\<lambda>p. UpdateProfileSettings carrier limits (P_id p)) ps db"

definition settings_changed :: "key_env \<Rightarrow> UpdateInput \<Rightarrow> AccessKey \<Rightarrow> bool" where
  "settings_changed env u old \<longleftrightarrow>
     K_carrier old \<noteq> U_CarrierMode u \<or> K_limits old \<noteq> MarshalLimits env (U_Limits u) \<or>
     K_telemt_limits old \<noteq> MarshalTelemt env (U_TelemtLimits u)"

definition Update :: "key_env \<Rightarrow> gotime \<Rightarrow> bool \<Rightarrow> UpdateInput \<Rightarrow> uuid \<Rightarrow> keydb \<Rightarrow> (key_error + AccessKey) \<times> keydb" where
  "Update env now faulty u keyID db =
     (if TrimSpace (U_Label u) = [] then (Inl (ValidationError [(''label'', ''required'')]), db)
      else if \<not> CarrierMode_Valid (U_CarrierMode u) then (Inl (ValidationError [(''carrier_mode'', ''invalid'')]), db)
      else if relay_check env (U_Limits u) \<noteq> None
      then (Inl (ValidationError (field_err env ''limits'' (relay_check env (U_Limits u)))), db)
      else if telemt_check env (U_TelemtLimits u) \<noteq> None
      then (Inl (ValidationError (field_err env ''telemt_limits'' (telemt_check env (U_TelemtLimits u)))), db)
      else Tx faulty (\<lambda>db.
        case GetKey keyID db of
          None \<Rightarrow> Inl ErrNotFound
        | Some old \<Rightarrow>
            let db1 = UpdateKey env now u keyID db
            in case GetKey keyID db1 of
                 None \<Rightarrow> Inl Fault
               | Some key \<Rightarrow>
                   if settings_changed env u old
                   then Inr (key, dirtyKeyNodes now keyID
                          (resettle_profiles (U_CarrierMode u) (jsonb env (MarshalLimits env (U_Limits u)))
                             (ListProfilesByKey keyID db1) db1))
                   else if \<not> sameTime (K_expires_at old) (U_ExpiresAt u) then Inr (key, dirtyKeyNodes now keyID db1)
                   else Inr (key, db1)) db)"

definition Extend :: "gotime \<Rightarrow> bool \<Rightarrow> gotime \<Rightarrow> uuid \<Rightarrow> keydb \<Rightarrow> (key_error + unit) \<times> keydb" where
  "Extend now faulty expiresAt keyID db =
     (if \<not> expiresAt > now then (Inl (ValidationError [(''expires_at'', ''must be in the future'')]), db)
      else Tx faulty (\<lambda>db.
        case GetKey keyID db of
          None \<Rightarrow> Inl ErrNotFound
        | Some k \<Rightarrow>
            if K_status k = KeyStatusRevoked then Inl key_is_revoked
            else Inr ((), dirtyKeyNodes now keyID (SetKeyExpiry (Some expiresAt) keyID db))) db)"

definition IssueSubscription ::
  "key_env \<Rightarrow> gotime \<Rightarrow> bool \<Rightarrow> key_rand \<Rightarrow> uuid \<Rightarrow> keydb \<Rightarrow> (key_error + string) \<times> keydb" where
  "IssueSubscription env now faulty r keyID =
     Tx faulty (\<lambda>db. case GetKey keyID db of
        None \<Rightarrow> Inl ErrNotFound
      | Some k \<Rightarrow>
          if K_status k = KeyStatusRevoked then Inl ErrRevoked else issueSubscriptionTx env now r keyID db)"

definition SetDisabled :: "gotime \<Rightarrow> bool \<Rightarrow> bool \<Rightarrow> uuid \<Rightarrow> keydb \<Rightarrow> (key_error + unit) \<times> keydb" where
  "SetDisabled now faulty disabled keyID =
     Tx faulty (\<lambda>db. case GetKey keyID db of
        None \<Rightarrow> Inl ErrNotFound
      | Some k \<Rightarrow>
          if K_status k = KeyStatusRevoked then Inl key_is_revoked
          else if (K_disabled_at k \<noteq> None) = disabled then Inr ((), db)
          else Inr ((), dirtyKeyNodes now keyID (SetKeyDisabled (if disabled then Some now else None) keyID db)))"

definition Expire :: "gotime \<Rightarrow> bool \<Rightarrow> uuid \<Rightarrow> keydb \<Rightarrow> (key_error + unit) \<times> keydb" where
  "Expire now faulty keyID = Tx faulty (\<lambda>db. Inr ((), dirtyKeyNodes now keyID (SetKeyExpired now keyID db)))"

definition SetSlug :: "bool \<Rightarrow> uuid \<Rightarrow> string \<Rightarrow> keydb \<Rightarrow> (key_error + unit) \<times> keydb" where
  "SetSlug faulty keyID slug db =
     (if slug \<noteq> [] \<and> \<not> ValidSlug slug
      then (Inl (ValidationError [(''sub_slug'', ''3-32 characters: a-z, 0-9 and dashes, not at the ends'')]), db)
      else case GetKey keyID db of
        None \<Rightarrow> (Inl ErrNotFound, db)
      | Some k \<Rightarrow>
          if slug \<noteq> [] \<and> K_type k \<noteq> ''SHARED''
          then (Inl (ValidationError [(''sub_slug'', ''only shared keys have a short address'')]), db)
          else if faulty then (Inl Fault, db)
          else (case SetKeySlug (if slug = [] then None else Some slug) keyID db of
                  Inl e \<Rightarrow> (Inl (if e = UniqueViolation then ValidationError [(''sub_slug'', ''taken'')] else e), db)
                | Inr db' \<Rightarrow> (Inr (), db')))"

text \<open>
  \<^verbatim>\<open>Expiry.RunOnce\<close> of \<^verbatim>\<open>internal/worker/expiry.go\<close>: every key past its time is expired, a
  failing one is skipped; \<open>faulty\<close> says for which keys the transaction fails.
\<close>

definition Expiry_RunOnce :: "gotime \<Rightarrow> (uuid \<Rightarrow> bool) \<Rightarrow> keydb \<Rightarrow> nat \<times> keydb" where
  "Expiry_RunOnce now faulty db =
     fold (\<lambda>k (n, db). case Expire now (faulty (K_id k)) (K_id k) db of
             (Inl _, db') \<Rightarrow> (n, db') | (Inr _, db') \<Rightarrow> (Suc n, db'))
       (ListExpiredActiveKeys now db) (0, db)"

end
