(* ===== verification/Key_Invariants.thy ===== *)
theory Key_Invariants
  imports Key_Service
begin

text \<open>
  What the key service keeps true of its tables: references hold, a profile exists exactly where
  a key is bound and carries its key's secret and settings, a revoked key has none, no node is
  above its capacity, a short address names one key and a key has at most one live subscription
  link. Every operation, failed ones included, keeps it; and every operation that changes what a
  node has to serve marks the node dirty.
\<close>

subsection \<open>Well-formed tables\<close>

text \<open>The bindings the profiles call for.\<close>

definition binding_of :: "Profile \<Rightarrow> Binding" where
  "binding_of p = \<lparr>B_key = the (P_key p), B_node = P_node p, B_profile = P_id p\<rparr>"

lemma binding_of_fields [simp]: "B_profile (binding_of p) = P_id p" "B_node (binding_of p) = P_node p"
  "B_key (binding_of p) = the (P_key p)"
  by (simp_all add: binding_of_def)

definition profile_bindings :: "keydb \<Rightarrow> Binding list" where
  "profile_bindings db = map binding_of (filter (\<lambda>p. P_key p \<noteq> None) (profiles db))"

definition mirrors :: "Profile \<Rightarrow> AccessKey \<Rightarrow> bool" where
  "mirrors p k \<longleftrightarrow> P_secret_enc p = K_secret_enc k \<and> P_carrier p = K_carrier k \<and> P_limits p = K_limits k"

definition wf_ids :: "keydb \<Rightarrow> bool" where
  "wf_ids db \<longleftrightarrow> distinct (map N_id (nodes db)) \<and> distinct (map K_id (keys db)) \<and> distinct (map P_id (profiles db))"

definition wf_bindings :: "keydb \<Rightarrow> bool" where
  "wf_bindings db \<longleftrightarrow>
     set (bindings db) = set (profile_bindings db) \<and> distinct (map (\<lambda>b. (B_key b, B_node b)) (bindings db))"

definition wf_profiles :: "keydb \<Rightarrow> bool" where
  "wf_profiles db \<longleftrightarrow>
     (\<forall>p \<in> set (profiles db). P_node p \<in> N_id ` set (nodes db) \<and>
        (\<forall>k. P_key p = Some k \<longrightarrow>
           (\<exists>key \<in> set (keys db). K_id key = k \<and> K_status key \<noteq> KeyStatusRevoked \<and> mirrors p key)))"

definition wf_capacity :: "keydb \<Rightarrow> bool" where
  "wf_capacity db \<longleftrightarrow> (\<forall>n \<in> set (nodes db). CountNodeProfiles (N_id n) db \<le> N_max_profiles n)"

definition wf_slugs :: "keydb \<Rightarrow> bool" where
  "wf_slugs db \<longleftrightarrow>
     (\<forall>a \<in> set (keys db). \<forall>b \<in> set (keys db). \<forall>s. K_slug a = Some s \<and> K_slug b = Some s \<longrightarrow> K_id a = K_id b)"

definition live_tokens :: "uuid \<Rightarrow> keydb \<Rightarrow> SubscriptionToken list" where
  "live_tokens k db = filter (\<lambda>t. T_key t = k \<and> T_revoked_at t = None) (tokens db)"

definition wf_tokens :: "keydb \<Rightarrow> bool" where
  "wf_tokens db \<longleftrightarrow> (\<forall>k. length (live_tokens k db) \<le> 1)"

definition wf_json :: "key_env \<Rightarrow> keydb \<Rightarrow> bool" where
  "wf_json env db \<longleftrightarrow>
     (\<forall>k \<in> set (keys db). jsonb env (K_limits k) = K_limits k \<and> jsonb env (K_telemt_limits k) = K_telemt_limits k)"

definition wf :: "key_env \<Rightarrow> keydb \<Rightarrow> bool" where
  "wf env db \<longleftrightarrow>
     wf_ids db \<and> wf_bindings db \<and> wf_profiles db \<and> wf_capacity db \<and> wf_slugs db \<and> wf_tokens db \<and> wf_json env db"

lemmas wf_defs = wf_ids_def wf_bindings_def wf_profiles_def wf_capacity_def wf_slugs_def wf_tokens_def wf_json_def

text \<open>PostgreSQL's \<^verbatim>\<open>jsonb\<close> output is its own normal form.\<close>

definition jsonb_normal :: "key_env \<Rightarrow> bool" where
  "jsonb_normal env \<longleftrightarrow> (\<forall>s. jsonb env (jsonb env s) = jsonb env s)"

subsection \<open>Statements\<close>

lemma set_update_where: "set (update_where P f xs) = (\<lambda>x. if P x then f x else x) ` set xs"
  by (simp add: update_where_def)

lemma ball_update_where: "(\<forall>x \<in> set (update_where P f xs). Q x) \<longleftrightarrow> (\<forall>x \<in> set xs. Q (if P x then f x else x))"
  by (auto simp: update_where_def)

lemma map_update_where [simp]:
  assumes "\<And>x. g (f x) = g x"
  shows "map g (update_where P f xs) = map g xs"
  using assms by (simp add: update_where_def)

lemma filter_update_where:
  assumes "\<And>x. Q (f x) = Q x"
  shows "filter Q (update_where P f xs) = update_where P f (filter Q xs)"
  using assms by (induction xs) (auto simp: update_where_def)

lemma length_update_where [simp]: "length (update_where P f xs) = length xs"
  by (simp add: update_where_def)

lemma find_id_iff:
  "distinct (map f xs) \<Longrightarrow> find (\<lambda>x. f x = i) xs = Some x \<longleftrightarrow> x \<in> set xs \<and> f x = i"
  by (induction xs) auto

lemma find_None_id: "find (\<lambda>x. f x = i) xs = None \<longleftrightarrow> i \<notin> f ` set xs"
  by (auto simp: find_None_iff)

lemma find_update_where:
  assumes "\<And>x. f (g x) = f x"
  shows "find (\<lambda>x. f x = i) (update_where (\<lambda>x. f x = j) g xs) =
           map_option (\<lambda>x. if i = j then g x else x) (find (\<lambda>x. f x = i) xs)"
  using assms by (induction xs) (auto simp: update_where_def)

text \<open>Marking nodes dirty touches nothing but the dirty columns of the nodes.\<close>

lemma SetNodeDirty_frame [simp]:
  "keys (SetNodeDirty now d i db) = keys db" "profiles (SetNodeDirty now d i db) = profiles db"
  "bindings (SetNodeDirty now d i db) = bindings db" "tokens (SetNodeDirty now d i db) = tokens db"
  "map N_id (nodes (SetNodeDirty now d i db)) = map N_id (nodes db)"
  "GetKey k (SetNodeDirty now d i db) = GetKey k db"
  "CountNodeProfiles n (SetNodeDirty now d i db) = CountNodeProfiles n db"
  by (simp_all add: SetNodeDirty_def GetKey_def CountNodeProfiles_def)

lemma node_ids_SetNodeDirty [simp]: "N_id ` set (nodes (SetNodeDirty now d i db)) = N_id ` set (nodes db)"
  by (metis SetNodeDirty_frame(5) list.set_map)

lemma wf_SetNodeDirty [simp]: "wf env (SetNodeDirty now d i db) = wf env db"
proof -
  have "wf_capacity (SetNodeDirty now d i db) = wf_capacity db"
    by (auto simp: wf_capacity_def CountNodeProfiles_def SetNodeDirty_def ball_update_where)
  then show ?thesis
    by (simp add: wf_def wf_ids_def wf_bindings_def wf_profiles_def wf_slugs_def wf_tokens_def wf_json_def
        live_tokens_def profile_bindings_def)
qed

lemma GetNode_SetNodeDirty:
  "GetNode n (SetNodeDirty now True i db) =
     map_option (\<lambda>x. if n = i then x\<lparr>N_dirty := True, N_dirty_seq := N_dirty_seq x + 1,
        N_dirty_since := (case N_dirty_since x of None \<Rightarrow> Some now | Some t \<Rightarrow> Some t)\<rparr> else x) (GetNode n db)"
  by (auto simp: GetNode_def SetNodeDirty_def find_update_where if_distrib cong: if_cong)

definition mark_nodes_dirty :: "gotime \<Rightarrow> uuid list \<Rightarrow> keydb \<Rightarrow> keydb" where
  "mark_nodes_dirty now ns db = fold (SetNodeDirty now True) ns db"

lemma mark_nodes_frame [simp]:
  "keys (mark_nodes_dirty now ns db) = keys db" "profiles (mark_nodes_dirty now ns db) = profiles db"
  "bindings (mark_nodes_dirty now ns db) = bindings db" "tokens (mark_nodes_dirty now ns db) = tokens db"
  "wf env (mark_nodes_dirty now ns db) = wf env db"
  by (induction ns arbitrary: db) (simp_all add: mark_nodes_dirty_def)

lemma dirtyKeyNodes_mark:
  "dirtyKeyNodes now k db = mark_nodes_dirty now (map B_node (ListKeyBindings k db)) db"
  by (simp add: dirtyKeyNodes_def mark_nodes_dirty_def fold_map comp_def)

lemma wf_dirtyKeyNodes [simp]: "wf env (dirtyKeyNodes now k db) = wf env db"
  by (simp add: dirtyKeyNodes_mark)

subsection \<open>Changes of key columns\<close>

text \<open>A change of a key row that no other table mirrors.\<close>

definition keeps_mirror :: "(AccessKey \<Rightarrow> AccessKey) \<Rightarrow> bool" where
  "keeps_mirror f \<longleftrightarrow>
     (\<forall>k. K_id (f k) = K_id k \<and> K_secret_enc (f k) = K_secret_enc k \<and>
          K_carrier (f k) = K_carrier k \<and> K_limits (f k) = K_limits k \<and>
          (K_status (f k) = KeyStatusRevoked) = (K_status k = KeyStatusRevoked))"

lemma wf_profiles_update_key:
  assumes "wf_profiles db" "keeps_mirror f"
  shows "wf_profiles (update_key i f db)"
  unfolding wf_profiles_def
proof (intro ballI conjI allI impI)
  fix p assume p: "p \<in> set (profiles (update_key i f db))"
  then show "P_node p \<in> N_id ` set (nodes (update_key i f db))"
    using assms(1) by (simp add: wf_profiles_def update_key_def)
  fix k assume "P_key p = Some k"
  with p assms(1) obtain key where key: "key \<in> set (keys db)" "K_id key = k" "K_status key \<noteq> KeyStatusRevoked"
    "mirrors p key"
    by (auto simp: wf_profiles_def update_key_def)
  let ?key = "if K_id key = i then f key else key"
  have "?key \<in> set (keys (update_key i f db))"
    using key(1) by (auto simp: update_key_def set_update_where)
  moreover have "K_id ?key = k \<and> K_status ?key \<noteq> KeyStatusRevoked \<and> mirrors p ?key"
    using key assms(2) by (simp add: keeps_mirror_def mirrors_def)
  ultimately show "\<exists>key \<in> set (keys (update_key i f db)).
      K_id key = k \<and> K_status key \<noteq> KeyStatusRevoked \<and> mirrors p key"
    by blast
qed

lemma wf_update_key_but_slugs:
  assumes "wf env db" "keeps_mirror f" "\<And>k. jsonb env (K_telemt_limits k) = K_telemt_limits k \<Longrightarrow>
      jsonb env (K_telemt_limits (f k)) = K_telemt_limits (f k)"
    and "wf_slugs (update_key i f db)"
  shows "wf env (update_key i f db)"
proof -
  have f: "K_id (f k) = K_id k" "K_limits (f k) = K_limits k" for k
    using assms(2) by (simp_all add: keeps_mirror_def)
  have "wf_json env (update_key i f db)" "wf_ids (update_key i f db)"
    using assms(1,3) by (simp_all add: wf_def wf_json_def wf_ids_def update_key_def ball_update_where f)
  moreover have "wf_bindings (update_key i f db)" "wf_capacity (update_key i f db)" "wf_tokens (update_key i f db)"
    using assms(1)
    by (simp_all add: wf_def wf_bindings_def wf_capacity_def wf_tokens_def update_key_def profile_bindings_def
        CountNodeProfiles_def live_tokens_def)
  ultimately show ?thesis
    using wf_profiles_update_key [OF _ assms(2)] assms(1,4) by (simp add: wf_def)
qed

lemma wf_slugs_keys: "wf_slugs db \<Longrightarrow> keys db' = keys db \<Longrightarrow> wf_slugs db'"
  unfolding wf_slugs_def by (simp only:)

lemma wf_json_keys: "wf_json env db \<Longrightarrow> keys db' = keys db \<Longrightarrow> wf_json env db'"
  unfolding wf_json_def by (simp only:)

lemma wf_tokens_tokens: "wf_tokens db \<Longrightarrow> tokens db' = tokens db \<Longrightarrow> wf_tokens db'"
  unfolding wf_tokens_def live_tokens_def by simp

text \<open>An operation that leaves keys and tokens alone keeps what is said of them alone.\<close>

lemma wf_frame:
  assumes "wf env db" "keys db' = keys db" "tokens db' = tokens db"
    and "wf_ids db'" "wf_bindings db'" "wf_profiles db'" "wf_capacity db'"
  shows "wf env db'"
  using assms wf_slugs_keys [of db db'] wf_json_keys [of env db db'] wf_tokens_tokens [of db db']
  unfolding wf_def by blast

lemma wf_slugsD:
  "wf_slugs db \<Longrightarrow> a \<in> set (keys db) \<Longrightarrow> b \<in> set (keys db) \<Longrightarrow> K_slug a = Some s \<Longrightarrow> K_slug b = Some s \<Longrightarrow>
     K_id a = K_id b"
  unfolding wf_slugs_def by blast

lemma wf_slugs_update_key:
  assumes "wf_slugs db" "\<And>k. K_id (f k) = K_id k" "\<And>k. K_slug (f k) = K_slug k"
  shows "wf_slugs (update_key i f db)"
  unfolding wf_slugs_def
proof (intro ballI allI impI)
  fix a b s
  assume "a \<in> set (keys (update_key i f db))" "b \<in> set (keys (update_key i f db))"
    and s: "K_slug a = Some s \<and> K_slug b = Some s"
  then obtain a0 b0 where a0: "a0 \<in> set (keys db)" "a = a0 \<or> a = f a0" "b0 \<in> set (keys db)" "b = b0 \<or> b = f b0"
    by (auto simp: update_key_def set_update_where)
  then have "K_slug a0 = Some s" "K_slug b0 = Some s"
    using s assms(3) by auto
  from wf_slugsD [OF assms(1) a0(1,3) this] show "K_id a = K_id b"
    using a0(2,4) assms(2) by auto
qed

lemma wf_key_columns:
  assumes "wf env db"
  shows "wf env (SetKeyExpiry e i db)" "wf env (SetKeyExpired t i db)" "wf env (SetKeyDisabled d i db)"
proof -
  have "wf_slugs db"
    using assms by (simp add: wf_def)
  then show "wf env (SetKeyExpiry e i db)" "wf env (SetKeyExpired t i db)" "wf env (SetKeyDisabled d i db)"
    unfolding SetKeyExpiry_def SetKeyExpired_def SetKeyDisabled_def
    by (intro wf_update_key_but_slugs [OF assms] wf_slugs_update_key; simp add: keeps_mirror_def)+
qed

lemma wf_SetKeySlug:
  assumes "wf env db" "SetKeySlug slug i db = Inr db'"
  shows "wf env db'"
proof -
  let ?f = "\<lambda>k. k\<lparr>K_slug := slug\<rparr>"
  from assms(2) have db': "db' = update_key i ?f db"
    and free: "slug = None \<or> (\<forall>k \<in> set (keys db). K_id k \<noteq> i) \<or> (\<forall>k \<in> set (keys db). K_id k \<noteq> i \<longrightarrow> K_slug k \<noteq> slug)"
    by (auto simp: SetKeySlug_def split: if_splits)
  have "wf_slugs db'"
    unfolding wf_slugs_def
  proof (intro ballI allI impI)
    fix a b s assume ab: "a \<in> set (keys db')" "b \<in> set (keys db')" "K_slug a = Some s \<and> K_slug b = Some s"
    then obtain a0 b0 where a0: "a0 \<in> set (keys db)" "a = (if K_id a0 = i then ?f a0 else a0)"
      and b0: "b0 \<in> set (keys db)" "b = (if K_id b0 = i then ?f b0 else b0)"
      by (auto simp: db' update_key_def set_update_where)
    show "K_id a = K_id b"
    proof (cases "K_id a0 = i \<or> K_id b0 = i")
      case True
      then have "slug = Some s" using a0(2) b0(2) ab(3) by (auto split: if_splits)
      then show ?thesis using True free a0 b0 ab(3) by (auto split: if_splits)
    next
      case False
      then show ?thesis
        using wf_slugsD [of db a0 b0 s] assms(1) a0 b0 ab(3) by (simp add: wf_def)
    qed
  qed
  then show ?thesis
    unfolding db' using assms(1) by (intro wf_update_key_but_slugs) (simp_all add: keeps_mirror_def)
qed

subsection \<open>Changes of a key together with its profiles\<close>

definition update_both :: "uuid \<Rightarrow> (AccessKey \<Rightarrow> AccessKey) \<Rightarrow> (Profile \<Rightarrow> Profile) \<Rightarrow> keydb \<Rightarrow> keydb" where
  "update_both i f g db =
     db\<lparr>keys := update_where (\<lambda>k. K_id k = i) f (keys db),
        profiles := update_where (\<lambda>p. P_key p = Some i) g (profiles db)\<rparr>"

definition keeps_place :: "(Profile \<Rightarrow> Profile) \<Rightarrow> bool" where
  "keeps_place g \<longleftrightarrow> (\<forall>p. P_id (g p) = P_id p \<and> P_node (g p) = P_node p \<and> P_key (g p) = P_key p)"

lemma profile_bindings_update:
  assumes "keeps_place g"
  shows "profile_bindings (db\<lparr>keys := ks, profiles := update_where P g (profiles db)\<rparr>) = profile_bindings db"
proof -
  have "binding_of (g p) = binding_of p" "P_key (g p) = P_key p" for p
    using assms by (simp_all add: keeps_place_def binding_of_def)
  then show ?thesis
    by (simp add: profile_bindings_def filter_update_where)
qed

lemma wf_update_both:
  assumes "wf env db" "keeps_place g"
    and f: "\<And>k. K_id (f k) = K_id k" "\<And>k. K_slug (f k) = K_slug k"
    and json: "\<And>k. k \<in> set (keys db) \<Longrightarrow> jsonb env (K_limits (f k)) = K_limits (f k) \<and>
        jsonb env (K_telemt_limits (f k)) = K_telemt_limits (f k)"
    and mirror: "\<And>k p. k \<in> set (keys db) \<Longrightarrow> K_id k = i \<Longrightarrow> p \<in> set (profiles db) \<Longrightarrow> P_key p = Some i \<Longrightarrow>
        K_status k \<noteq> KeyStatusRevoked \<Longrightarrow> mirrors p k \<Longrightarrow> K_status (f k) \<noteq> KeyStatusRevoked \<and> mirrors (g p) (f k)"
  shows "wf env (update_both i f g db)"
proof -
  let ?db = "update_both i f g db"
  have g: "P_id (g p) = P_id p" "P_node (g p) = P_node p" "P_key (g p) = P_key p" for p
    using assms(2) by (simp_all add: keeps_place_def)
  have old: "wf_profiles db"
    using assms(1) by (simp add: wf_def)
  have "wf_profiles ?db"
    unfolding wf_profiles_def
  proof (intro ballI conjI allI impI)
    fix p assume "p \<in> set (profiles ?db)"
    then obtain p0 where p0: "p0 \<in> set (profiles db)" "p = (if P_key p0 = Some i then g p0 else p0)"
      by (auto simp: update_both_def set_update_where)
    then show "P_node p \<in> N_id ` set (nodes ?db)"
      using old g by (simp add: wf_profiles_def update_both_def)
    fix k assume "P_key p = Some k"
    then have "P_key p0 = Some k"
      using p0 g by (simp split: if_splits)
    with p0 old obtain key where key: "key \<in> set (keys db)" "K_id key = k" "K_status key \<noteq> KeyStatusRevoked"
      "mirrors p0 key"
      by (auto simp: wf_profiles_def)
    let ?key = "if K_id key = i then f key else key"
    have "?key \<in> set (keys ?db)"
      using key(1) by (auto simp: update_both_def set_update_where)
    moreover have "K_id ?key = k \<and> K_status ?key \<noteq> KeyStatusRevoked \<and> mirrors p ?key"
      using key p0 \<open>P_key p0 = Some k\<close> f(1) mirror [of key p0] by (cases "k = i") simp_all
    ultimately show "\<exists>key \<in> set (keys ?db). K_id key = k \<and> K_status key \<noteq> KeyStatusRevoked \<and> mirrors p key"
      by blast
  qed
  moreover have "wf_slugs ?db"
  proof -
    have "wf_slugs (update_key i f db)"
      using assms(1) f by (intro wf_slugs_update_key) (simp_all add: wf_def)
    moreover have "keys (update_key i f db) = keys ?db"
      by (simp add: update_key_def update_both_def)
    ultimately show ?thesis
      by (simp only: wf_slugs_def)
  qed
  moreover have "wf_json env ?db" "wf_ids ?db" "wf_tokens ?db"
    using assms(1) json
    by (simp_all add: wf_def wf_json_def wf_ids_def wf_tokens_def live_tokens_def update_both_def ball_update_where f g)
  moreover have "wf_bindings ?db"
    using assms(1) profile_bindings_update [OF assms(2)] by (simp add: wf_def wf_bindings_def update_both_def)
  moreover have "wf_capacity ?db"
    using assms(1)
    by (simp add: wf_def wf_capacity_def CountNodeProfiles_def update_both_def filter_update_where g)
  ultimately show ?thesis
    by (simp add: wf_def)
qed

subsection \<open>Deletion\<close>

lemma wf_delete_profiles:
  assumes "wf env db"
  shows "wf env (delete_profiles P db)"
proof -
  let ?db = "delete_profiles P db"
  have inj: "p = q" if "p \<in> set (profiles db)" "q \<in> set (profiles db)" "P_id p = P_id q" for p q
    using assms that by (auto simp: wf_def wf_ids_def distinct_map dest: inj_onD)
  have old: "set (bindings db) = set (profile_bindings db)"
    using assms by (simp add: wf_def wf_bindings_def)
  have "set (bindings ?db) =
      {b \<in> set (profile_bindings db). \<forall>p \<in> set (profiles db). P p \<longrightarrow> P_id p \<noteq> B_profile b}"
    by (auto simp: delete_profiles_def old)
  also have "\<dots> = set (profile_bindings ?db)"
  proof -
    have "(\<forall>p \<in> set (profiles db). P p \<longrightarrow> P_id p \<noteq> P_id x) \<longleftrightarrow> \<not> P x" if "x \<in> set (profiles db)" for x
      using inj [OF _ that] that by blast
    then have "{x \<in> set (profiles db). P_key x \<noteq> None \<and> (\<forall>p \<in> set (profiles db). P p \<longrightarrow> P_id p \<noteq> P_id x)} =
        {x \<in> set (profiles db). P_key x \<noteq> None \<and> \<not> P x}"
      by blast
    moreover have "{b \<in> binding_of ` {x \<in> set (profiles db). P_key x \<noteq> None}.
          \<forall>p \<in> set (profiles db). P p \<longrightarrow> P_id p \<noteq> B_profile b} =
        binding_of ` {x \<in> set (profiles db). P_key x \<noteq> None \<and> (\<forall>p \<in> set (profiles db). P p \<longrightarrow> P_id p \<noteq> P_id x)}"
      by auto
    moreover have "set (profile_bindings db) = binding_of ` {x \<in> set (profiles db). P_key x \<noteq> None}"
      "set (profile_bindings ?db) = binding_of ` {x \<in> set (profiles db). P_key x \<noteq> None \<and> \<not> P x}"
      by (auto simp: profile_bindings_def delete_profiles_def)
    ultimately show ?thesis
      by (simp only:)
  qed
  finally have "set (bindings ?db) = set (profile_bindings ?db)" .
  moreover have "distinct (map (\<lambda>b. (B_key b, B_node b)) (bindings ?db))"
    using assms by (simp add: wf_def wf_bindings_def delete_profiles_def distinct_map_filter)
  moreover have "wf_capacity ?db"
    unfolding wf_capacity_def
  proof
    fix n assume "n \<in> set (nodes ?db)"
    then have "n \<in> set (nodes db)" by (simp add: delete_profiles_def)
    then have "CountNodeProfiles (N_id n) db \<le> N_max_profiles n"
      using assms by (simp add: wf_def wf_capacity_def)
    moreover have "CountNodeProfiles (N_id n) ?db \<le> CountNodeProfiles (N_id n) db"
    proof -
      have "filter (\<lambda>p. P_node p = N_id n) (profiles ?db) = filter (\<lambda>p. \<not> P p) (filter (\<lambda>p. P_node p = N_id n) (profiles db))"
        by (simp add: delete_profiles_def conj_commute)
      then show ?thesis
        by (simp add: CountNodeProfiles_def del: filter_filter)
    qed
    ultimately show "CountNodeProfiles (N_id n) ?db \<le> N_max_profiles n" by simp
  qed
  moreover have "wf_ids ?db"
    using assms by (simp add: wf_def wf_ids_def delete_profiles_def distinct_map_filter)
  moreover have "wf_profiles ?db"
    using assms by (simp add: wf_def wf_profiles_def delete_profiles_def)
  ultimately show ?thesis
    by (intro wf_frame [OF assms]) (simp_all add: wf_bindings_def, simp_all add: delete_profiles_def)
qed

lemma wf_bindingsD:
  assumes "wf env db"
  shows "b \<in> set (bindings db) \<longleftrightarrow>
    (\<exists>p \<in> set (profiles db). P_key p = Some (B_key b) \<and> P_node p = B_node b \<and> P_id p = B_profile b)"
  using assms by (cases b) (force simp: wf_def wf_bindings_def profile_bindings_def binding_of_def)

lemma ListKeyBindings_nodes:
  assumes "wf env db"
  shows "set (map B_node (ListKeyBindings k db)) = {n. \<exists>p \<in> set (profiles db). P_key p = Some k \<and> P_node p = n}"
proof -
  have "GetNode (P_node p) db \<noteq> None" if "p \<in> set (profiles db)" for p
    using assms that by (auto simp: wf_def wf_profiles_def GetNode_def find_None_id)
  moreover have "\<exists>b \<in> set (bindings db). B_key b = k \<and> B_node b = P_node p \<and> B_profile b = P_id p"
    if "p \<in> set (profiles db)" "P_key p = Some k" for p
    using wf_bindingsD [OF assms, of "binding_of p"] that by (metis binding_of_fields option.sel)
  ultimately have "n \<in> B_node ` set (ListKeyBindings k db) \<longleftrightarrow> (\<exists>p \<in> set (profiles db). P_key p = Some k \<and> P_node p = n)" for n
    using wf_bindingsD [OF assms] by (auto simp: ListKeyBindings_def image_iff Bex_def) metis+
  then show ?thesis by auto
qed

lemma DeleteProfile_DeleteBinding:
  assumes "wf env db" "b \<in> set (bindings db)" "B_key b = k" "B_node b = n"
  shows "DeleteProfile (B_profile b) (DeleteBinding k n db) = DeleteProfile (B_profile b) db"
proof -
  have "inj_on (\<lambda>b. (B_key b, B_node b)) (set (bindings db))"
    using assms(1) unfolding wf_def wf_bindings_def distinct_map by blast
  then have same: "c = b" if "c \<in> set (bindings db)" "B_key c = k" "B_node c = n" for c
    using assms(2-4) that by (auto dest: inj_onD)
  obtain p where "p \<in> set (profiles db)" "P_id p = B_profile b"
    using wf_bindingsD [OF assms(1), of b] assms(2) by blast
  then have "filter (\<lambda>c. (\<forall>p \<in> set (profiles db). P_id p = B_profile b \<longrightarrow> P_id p \<noteq> B_profile c) \<and>
        \<not> (B_key c = k \<and> B_node c = n)) (bindings db) =
      filter (\<lambda>c. \<forall>p \<in> set (profiles db). P_id p = B_profile b \<longrightarrow> P_id p \<noteq> B_profile c) (bindings db)"
    using same by (intro filter_cong) auto
  then show ?thesis
    by (simp add: DeleteProfile_def DeleteBinding_def delete_profiles_def conj_commute)
qed

lemma wf_DeleteKey:
  assumes "wf env db"
  shows "wf env (DeleteKey k db)"
proof -
  let ?db1 = "DeleteProfilesByKey k db"
  have db1: "wf env ?db1"
    unfolding DeleteProfilesByKey_def using assms by (rule wf_delete_profiles)
  have none: "P_key p \<noteq> Some k" if "p \<in> set (profiles ?db1)" for p
    using that by (auto simp: DeleteProfilesByKey_def delete_profiles_def)
  then have "filter (\<lambda>b. B_key b \<noteq> k) (bindings ?db1) = bindings ?db1"
    using wf_bindingsD [OF db1] by (auto intro!: filter_True)
  then have DK: "DeleteKey k db = ?db1\<lparr>keys := filter (\<lambda>x. K_id x \<noteq> k) (keys ?db1),
      tokens := filter (\<lambda>t. T_key t \<noteq> k) (tokens ?db1)\<rparr>"
    by (simp add: DeleteKey_def Let_def)
  have "wf_profiles (DeleteKey k db)"
    using db1 none by (fastforce simp: DK wf_def wf_profiles_def)
  moreover have "wf_tokens (DeleteKey k db)"
    unfolding wf_tokens_def
  proof
    fix j
    have "live_tokens j (DeleteKey k db) = filter (\<lambda>t. T_key t \<noteq> k) (live_tokens j ?db1)"
      by (simp add: live_tokens_def DK conj_commute conj_left_commute)
    moreover have "length (live_tokens j ?db1) \<le> 1"
      using db1 by (simp add: wf_def wf_tokens_def)
    ultimately show "length (live_tokens j (DeleteKey k db)) \<le> 1"
      using length_filter_le order_trans by metis
  qed
  moreover have "wf_slugs (DeleteKey k db)"
    using db1 unfolding wf_def wf_slugs_def DK by simp
  ultimately show ?thesis
    using db1 by (simp add: DK wf_def wf_bindings_def wf_ids_def wf_capacity_def wf_json_def
        profile_bindings_def CountNodeProfiles_def distinct_map_filter)
qed

subsection \<open>Creation and binding\<close>

lemma GetNode_SomeD: "GetNode i db = Some n \<Longrightarrow> n \<in> set (nodes db) \<and> N_id n = i"
  by (auto simp: GetNode_def find_Some_iff)

lemma GetKey_SomeD: "GetKey i db = Some k \<Longrightarrow> k \<in> set (keys db) \<and> K_id k = i"
  by (auto simp: GetKey_def find_Some_iff)

lemma wf_node_unique:
  "wf env db \<Longrightarrow> a \<in> set (nodes db) \<Longrightarrow> b \<in> set (nodes db) \<Longrightarrow> N_id a = N_id b \<Longrightarrow> a = b"
  by (auto simp: wf_def wf_ids_def distinct_map dest: inj_onD)

lemma wf_key_unique:
  "wf env db \<Longrightarrow> a \<in> set (keys db) \<Longrightarrow> b \<in> set (keys db) \<Longrightarrow> K_id a = K_id b \<Longrightarrow> a = b"
  by (auto simp: wf_def wf_ids_def distinct_map dest: inj_onD)

lemma wf_profile_unique:
  "wf env db \<Longrightarrow> a \<in> set (profiles db) \<Longrightarrow> b \<in> set (profiles db) \<Longrightarrow> P_id a = P_id b \<Longrightarrow> a = b"
  unfolding wf_def wf_ids_def distinct_map by (blast dest: inj_onD)

lemma wf_CreateKey:
  assumes "wf env db" "CreateKey k db = Inr db'" "K_slug k = None"
    and "jsonb env (K_limits k) = K_limits k" "jsonb env (K_telemt_limits k) = K_telemt_limits k"
  shows "wf env db'"
proof -
  from assms(2) have db': "db' = db\<lparr>keys := keys db @ [k]\<rparr>" and new: "K_id k \<notin> K_id ` set (keys db)"
    by (auto simp: CreateKey_def split: if_splits)
  have "wf_profiles db'"
    using assms(1) by (fastforce simp: db' wf_def wf_profiles_def)
  moreover have "wf_slugs db'"
    using assms(1,3) unfolding wf_def wf_slugs_def db' by auto
  ultimately show ?thesis
    using assms(1,4,5) new
    by (simp add: db' wf_def wf_bindings_def wf_ids_def wf_capacity_def wf_json_def wf_tokens_def live_tokens_def
        profile_bindings_def CountNodeProfiles_def)
qed

text \<open>Binding a key adds one profile and its binding, or fails.\<close>

lemma bindTx_shape:
  assumes "bindTx env now key n pid db = Inr (u, db')"
  shows "\<exists>node. GetNode n db = Some node \<and> CountNodeProfiles n db < N_max_profiles node \<and>
      (\<forall>x \<in> set (profiles db). P_id x \<noteq> pid) \<and>
      (\<forall>x \<in> set (bindings db). \<not> (B_key x = K_id key \<and> B_node x = n)) \<and>
      db' = SetNodeDirty now True n (db\<lparr>profiles := profiles db @ [new_profile env key n pid],
        bindings := bindings db @ [\<lparr>B_key = K_id key, B_node = n, B_profile = pid\<rparr>]\<rparr>)"
  using assms
  by (auto simp: bindTx_def CreateProfile_def CreateBinding_def new_profile_def not_le
      split: option.splits if_splits sum.splits)

lemma wf_bindTx:
  assumes "wf env db" "bindTx env now key n pid db = Inr (u, db')"
    and "\<exists>k \<in> set (keys db). K_id k = K_id key \<and> K_status k \<noteq> KeyStatusRevoked \<and> K_secret_enc k = K_secret_enc key \<and>
      K_carrier k = K_carrier key \<and> K_limits k = jsonb env (K_limits key)"
  shows "wf env db'"
proof -
  let ?p = "new_profile env key n pid" and ?b = "\<lparr>B_key = K_id key, B_node = n, B_profile = pid\<rparr>"
  let ?db1 = "db\<lparr>profiles := profiles db @ [?p], bindings := bindings db @ [?b]\<rparr>"
  from bindTx_shape [OF assms(2)] obtain node where
    node: "GetNode n db = Some node" and room: "CountNodeProfiles n db < N_max_profiles node"
    and fresh: "\<forall>x \<in> set (profiles db). P_id x \<noteq> pid" "\<forall>x \<in> set (bindings db). \<not> (B_key x = K_id key \<and> B_node x = n)"
    and db': "db' = SetNodeDirty now True n ?db1"
    by blast
  have p: "P_id ?p = pid" "P_node ?p = n" "P_key ?p = Some (K_id key)" "binding_of ?p = ?b"
    by (simp_all add: new_profile_def binding_of_def)
  have "wf_ids ?db1" "wf_bindings ?db1"
    using assms(1) fresh by (auto simp: wf_def wf_ids_def wf_bindings_def profile_bindings_def p image_iff)
  moreover have "wf_profiles ?db1"
  proof -
    obtain k where k: "k \<in> set (keys db)" "K_id k = K_id key" "K_status k \<noteq> KeyStatusRevoked" "mirrors ?p k"
      using assms(3) by (auto simp: mirrors_def new_profile_def)
    moreover have "P_node ?p \<in> N_id ` set (nodes db)"
      using GetNode_SomeD [OF node] p by auto
    ultimately have "\<forall>q \<in> {?p}. P_node q \<in> N_id ` set (nodes db) \<and> (\<forall>j. P_key q = Some j \<longrightarrow>
        (\<exists>key \<in> set (keys db). K_id key = j \<and> K_status key \<noteq> KeyStatusRevoked \<and> mirrors q key))"
      using p by auto
    moreover have "wf_profiles db"
      using assms(1) by (simp add: wf_def)
    ultimately show ?thesis
      unfolding wf_profiles_def by simp
  qed
  moreover have "wf_capacity ?db1"
  proof -
    have "CountNodeProfiles (N_id m) ?db1 \<le> N_max_profiles m" if "m \<in> set (nodes db)" for m
    proof (cases "N_id m = n")
      case True
      then have "m = node"
        using wf_node_unique [OF assms(1) that] GetNode_SomeD [OF node] by auto
      then show ?thesis using room True p by (simp add: CountNodeProfiles_def)
    next
      case False
      then show ?thesis using assms(1) that p by (simp add: CountNodeProfiles_def wf_def wf_capacity_def)
    qed
    then show ?thesis by (simp add: wf_capacity_def)
  qed
  ultimately have "wf env ?db1"
    by (intro wf_frame [OF assms(1)]) simp_all
  then show ?thesis by (simp add: db')
qed

end
