(* ===== verification/Key_Operations.thy ===== *)
theory Key_Operations
  imports Key_Invariants
begin

text \<open>
  The operations of the key service as calls on one database, and the two properties every call
  has: it keeps the tables well formed, and it marks dirty every node whose served profiles it
  changes. Then what single operations guarantee.
\<close>

subsection \<open>Pieces of the operations\<close>

lemma wf_Tx:
  assumes "wf env db" "\<And>x db'. body db = Inr (x, db') \<Longrightarrow> wf env db'"
  shows "wf env (snd (Tx faulty body db))"
  using assms by (auto simp: Tx_def split: sum.splits)

lemma bindTx_keys: "bindTx env now key n pid db = Inr (u, db') \<Longrightarrow> keys db' = keys db \<and> tokens db' = tokens db"
  by (auto dest!: bindTx_shape)

definition bindable :: "key_env \<Rightarrow> AccessKey \<Rightarrow> keydb \<Rightarrow> bool" where
  "bindable env key db \<longleftrightarrow>
     (\<exists>k \<in> set (keys db). K_id k = K_id key \<and> K_status k \<noteq> KeyStatusRevoked \<and> K_secret_enc k = K_secret_enc key \<and>
      K_carrier k = K_carrier key \<and> K_limits k = jsonb env (K_limits key))"

lemma wf_bind_nodes:
  assumes "wf env db" "bindable env key db" "bind_nodes env now key pids ns db = Inr (u, db')"
  shows "wf env db' \<and> keys db' = keys db \<and> tokens db' = tokens db"
  using assms
proof (induction ns arbitrary: db)
  case (Cons n ns)
  then obtain v db1 where db1: "bindTx env now key n (pids n) db = Inr (v, db1)"
    "bind_nodes env now key pids ns db1 = Inr (u, db')"
    by (auto split: sum.splits)
  have "wf env db1"
    using wf_bindTx [OF Cons.prems(1) db1(1)] Cons.prems(2) by (simp add: bindable_def)
  moreover have "keys db1 = keys db" "tokens db1 = tokens db"
    using bindTx_keys [OF db1(1)] by auto
  ultimately show ?case
    using Cons.IH [of db1] Cons.prems(2) db1(2) by (simp add: bindable_def)
qed simp

lemma issue_shape:
  assumes "issueSubscriptionTx env now r k db = Inr (tok, db')"
  obtains enc where "GetKey k db \<noteq> None"
    "db' = db\<lparr>tokens := update_where (\<lambda>t. T_key t = k \<and> T_revoked_at t = None) (\<lambda>t. t\<lparr>T_revoked_at := Some now\<rparr>)
       (tokens db) @ [\<lparr>T_hash = HashToken env tok, T_key = k, T_revoked_at = None, T_enc = enc\<rparr>]\<rparr>"
  using assms
  by (auto simp: issueSubscriptionTx_def CreateSubscriptionToken_def RevokeSubscriptionTokensForKey_def GetKey_def
      split: option.splits sum.splits if_splits)

lemma live_tokens_issue:
  assumes "issueSubscriptionTx env now r k db = Inr (tok, db')"
  shows "map T_hash (live_tokens k db') = [HashToken env tok]" "j \<noteq> k \<Longrightarrow> live_tokens j db' = live_tokens j db"
proof -
  obtain enc where db': "db' = db\<lparr>tokens := update_where (\<lambda>t. T_key t = k \<and> T_revoked_at t = None)
      (\<lambda>t. t\<lparr>T_revoked_at := Some now\<rparr>) (tokens db) @ [\<lparr>T_hash = HashToken env tok, T_key = k, T_revoked_at = None, T_enc = enc\<rparr>]\<rparr>"
    using assms by (rule issue_shape)
  have none: "filter (\<lambda>t. T_key t = k \<and> T_revoked_at t = None) (update_where (\<lambda>t. T_key t = k \<and> T_revoked_at t = None)
      (\<lambda>t. t\<lparr>T_revoked_at := Some now\<rparr>) ts) = []" for ts
    by (induction ts) (auto simp: update_where_def)
  have other: "filter (\<lambda>t. T_key t = j \<and> T_revoked_at t = None) (update_where (\<lambda>t. T_key t = k \<and> T_revoked_at t = None)
      (\<lambda>t. t\<lparr>T_revoked_at := Some now\<rparr>) ts) = filter (\<lambda>t. T_key t = j \<and> T_revoked_at t = None) ts" if "j \<noteq> k" for ts
    using that by (induction ts) (auto simp: update_where_def)
  show "map T_hash (live_tokens k db') = [HashToken env tok]"
    by (simp add: live_tokens_def db' none)
  show "j \<noteq> k \<Longrightarrow> live_tokens j db' = live_tokens j db"
    by (simp add: live_tokens_def db' other)
qed

lemma wf_issue:
  assumes "wf env db" "issueSubscriptionTx env now r k db = Inr (tok, db')"
  shows "wf env db'"
proof -
  obtain ts where db': "db' = db\<lparr>tokens := ts\<rparr>"
    using assms(2) by (rule issue_shape) blast
  have "length (live_tokens j db') \<le> 1" for j
  proof (cases "j = k")
    case True
    then show ?thesis
      using arg_cong [OF live_tokens_issue(1) [OF assms(2)], of length] by simp
  next
    case False
    then show ?thesis
      using live_tokens_issue(2) [OF assms(2)] assms(1) by (simp add: wf_def wf_tokens_def)
  qed
  then have "wf_tokens db'" by (simp add: wf_tokens_def)
  moreover have "wf_slugs db'" "wf_json env db'"
    using assms(1) by (auto simp: wf_def db' intro: wf_slugs_keys [of db] wf_json_keys [of env db])
  ultimately show ?thesis
    using assms(1) by (simp add: wf_def db' wf_ids_def wf_bindings_def wf_profiles_def wf_capacity_def
        profile_bindings_def CountNodeProfiles_def)
qed

lemma wf_createTx:
  assumes "jsonb_normal env" "wf env db" "createTx env now inp r db = Inr (k, db')"
  shows "wf env db'"
proof -
  from assms(3) obtain secret enc db1 u db2 tok db3 where
    db1: "CreateKey (new_key env inp (R_key r) enc) db = Inr db1"
    and db2: "bind_nodes env now (new_key env inp (R_key r) enc) (R_profile r) (NodeIDs inp) db1 = Inr (u, db2)"
    and db3: "issueSubscriptionTx env now r (R_key r) db2 = Inr (tok, db3)"
    and slug: "set_new_slug (SubSlug inp) (new_key env inp (R_key r) enc) db3 = Inr (k, db')"
    by (auto simp: createTx_def Let_def new_key_def split: option.splits sum.splits if_splits)
  have "wf env db1"
    using assms(1) by (intro wf_CreateKey [OF assms(2) db1]) (simp_all add: new_key_def jsonb_normal_def)
  moreover have "bindable env (new_key env inp (R_key r) enc) db1"
    using db1 assms(1) by (auto simp: CreateKey_def bindable_def new_key_def jsonb_normal_def split: if_splits)
  ultimately have "wf env db2"
    using wf_bind_nodes db2 by blast
  then have "wf env db3"
    using wf_issue db3 by blast
  then show ?thesis
    using slug wf_SetKeySlug by (auto simp: set_new_slug_def split: if_splits sum.splits)
qed

lemma wf_create_each:
  assumes "jsonb_normal env" "wf env db" "create_each chk env now items db = Inr (ks, db')"
  shows "wf env db'"
  using assms(2,3)
proof (induction items arbitrary: db ks)
  case (Cons it items)
  obtain item r where it: "it = (item, r)" by fastforce
  with Cons.prems(2) obtain k db1 ks' where "createTx env now item r db = Inr (k, db1)"
    "create_each chk env now items db1 = Inr (ks', db')"
    by (auto split: option.splits sum.splits)
  then show ?case
    using Cons.IH wf_createTx [OF assms(1) Cons.prems(1)] by blast
qed simp

subsection \<open>Rewriting the profiles of a key\<close>

lemma fold_update_where:
  assumes "\<And>x. f (g x) = f x" "\<And>x. g (g x) = g x"
  shows "fold (\<lambda>p. update_where (\<lambda>q. f q = f p) g) ps xs = update_where (\<lambda>q. f q \<in> f ` set ps) g xs"
  using assms by (induction ps arbitrary: xs) (auto simp: update_where_def)

lemma update_where_cong: "(\<And>x. x \<in> set xs \<Longrightarrow> P x = Q x) \<Longrightarrow> update_where P g xs = update_where Q g xs"
  by (simp add: update_where_def)

lemma update_profiles_of_key:
  assumes "distinct (map P_id (profiles db))" "\<And>p. P_id (g p) = P_id p" "\<And>p. g (g p) = g p"
  shows "fold (\<lambda>p d. d\<lparr>profiles := update_where (\<lambda>q. P_id q = P_id p) g (profiles d)\<rparr>) (ListProfilesByKey k db) db =
    db\<lparr>profiles := update_where (\<lambda>p. P_key p = Some k) g (profiles db)\<rparr>"
proof -
  have split: "fold (\<lambda>p d. d\<lparr>profiles := update_where (\<lambda>q. P_id q = P_id p) g (profiles d)\<rparr>) ps d =
      d\<lparr>profiles := fold (\<lambda>p. update_where (\<lambda>q. P_id q = P_id p) g) ps (profiles d)\<rparr>" for ps d
    by (induction ps arbitrary: d) simp_all
  have "P_id q \<in> P_id ` set (ListProfilesByKey k db) \<longleftrightarrow> P_key q = Some k" if "q \<in> set (profiles db)" for q
    using assms(1) that by (auto simp: ListProfilesByKey_def distinct_map dest: inj_onD)
  then show ?thesis
    using assms(2,3) by (simp add: split fold_update_where cong: update_where_cong)
qed

lemma rotate_profiles_both:
  assumes "wf env db"
  shows "rotate_profiles enc (ListProfilesByKey k (SetKeySecret enc k db)) (SetKeySecret enc k db) =
    update_both k (\<lambda>x. x\<lparr>K_secret_enc := enc, K_status := KeyStatusPending, K_revoked_at := None\<rparr>)
      (\<lambda>p. p\<lparr>P_secret_enc := enc, P_sync := SyncStatePending\<rparr>) db"
  using assms update_profiles_of_key [of "SetKeySecret enc k db" "\<lambda>p. p\<lparr>P_secret_enc := enc, P_sync := SyncStatePending\<rparr>" k]
  by (simp add: rotate_profiles_def UpdateProfileSecret_def [abs_def] SetKeySecret_def update_key_def update_both_def wf_def wf_ids_def)

definition update_columns :: "key_env \<Rightarrow> gotime \<Rightarrow> UpdateInput \<Rightarrow> AccessKey \<Rightarrow> AccessKey" where
  "update_columns env now u k =
     k\<lparr>K_label := U_Label u, K_owner := U_OwnerLabel u, K_note := U_Note u,
       K_expires_at := U_ExpiresAt u, K_carrier := U_CarrierMode u,
       K_limits := jsonb env (MarshalLimits env (U_Limits u)),
       K_expired_at := (case U_ExpiresAt u of None \<Rightarrow> None | Some e \<Rightarrow> if e > now then None else K_expired_at k),
       K_telemt_limits := jsonb env (MarshalTelemt env (U_TelemtLimits u))\<rparr>"

lemma UpdateKey_columns: "UpdateKey env now u i = update_key i (update_columns env now u)"
  by (simp add: UpdateKey_def update_columns_def [abs_def])

lemma resettle_profiles_both:
  assumes "wf env db"
  shows "resettle_profiles c l (ListProfilesByKey k (UpdateKey env now u k db)) (UpdateKey env now u k db) =
    update_both k (update_columns env now u) (\<lambda>p. p\<lparr>P_carrier := c, P_limits := l, P_sync := SyncStatePending\<rparr>) db"
  using assms update_profiles_of_key [of "UpdateKey env now u k db" "\<lambda>p. p\<lparr>P_carrier := c, P_limits := l, P_sync := SyncStatePending\<rparr>" k]
  by (simp add: resettle_profiles_def UpdateProfileSettings_def [abs_def] UpdateKey_columns update_key_def update_both_def wf_def wf_ids_def)

lemma update_where_id [simp]: "update_where P id xs = xs"
  by (induction xs) (auto simp: update_where_def)

lemma update_key_both: "update_key k f db = update_both k f id db"
  by (cases db) (simp add: update_key_def update_both_def)

subsection \<open>Every operation keeps the tables well formed\<close>

lemma wf_Revoke: "wf env db \<Longrightarrow> wf env (snd (Revoke now faulty k db))"
  unfolding Revoke_def
proof (rule wf_Tx, assumption)
  fix x db'
  assume wf: "wf env db"
    and "(case GetKey k db of None \<Rightarrow> Inl ErrNotFound
      | Some _ \<Rightarrow> Inr ((), SetKeyStatus now KeyStatusRevoked k (DeleteProfilesByKey k (dirtyKeyNodes now k db)))) = Inr (x, db')"
  then have db': "db' = update_both k (\<lambda>y. y\<lparr>K_status := KeyStatusRevoked, K_revoked_at := Some now\<rparr>) id
      (DeleteProfilesByKey k (dirtyKeyNodes now k db))"
    by (auto simp: SetKeyStatus_def update_key_both split: option.splits)
  have d: "wf env (DeleteProfilesByKey k (dirtyKeyNodes now k db))"
    unfolding DeleteProfilesByKey_def using wf by (intro wf_delete_profiles) simp
  have "\<forall>p \<in> set (profiles (DeleteProfilesByKey k (dirtyKeyNodes now k db))). P_key p \<noteq> Some k"
    by (auto simp: DeleteProfilesByKey_def delete_profiles_def)
  then show "wf env db'"
    unfolding db' using d by (intro wf_update_both) (auto simp: keeps_place_def wf_def wf_json_def)
qed

lemma wf_Rotate: "wf env db \<Longrightarrow> wf env (snd (Rotate env now faulty r k db))"
proof -
  assume wf: "wf env db"
  have "wf env (update_both k (\<lambda>x. x\<lparr>K_secret_enc := enc, K_status := KeyStatusPending, K_revoked_at := None\<rparr>)
      (\<lambda>p. p\<lparr>P_secret_enc := enc, P_sync := SyncStatePending\<rparr>) db)" for enc
    using wf by (intro wf_update_both) (auto simp: keeps_place_def mirrors_def wf_def wf_json_def)
  then show ?thesis
    using wf
    by (auto simp: Rotate_def Let_def rotate_profiles_both intro!: wf_Tx split: option.splits if_splits)
qed

lemma wf_update_both_columns:
  assumes "jsonb_normal env" "wf env db"
  shows "wf env (update_both k (update_columns env now u)
      (\<lambda>p. p\<lparr>P_carrier := U_CarrierMode u, P_limits := jsonb env (MarshalLimits env (U_Limits u)), P_sync := SyncStatePending\<rparr>) db)"
  using assms
  by (intro wf_update_both) (auto simp: keeps_place_def mirrors_def update_columns_def jsonb_normal_def)

lemma wf_UpdateKey_unchanged:
  assumes "jsonb_normal env" "wf env db" "GetKey k db = Some old" "\<not> settings_changed env u old"
  shows "wf env (UpdateKey env now u k db)"
  unfolding UpdateKey_columns update_key_both
proof (rule wf_update_both)
  fix y p assume y: "y \<in> set (keys db)" "K_id y = k" "mirrors p y" "K_status y \<noteq> KeyStatusRevoked"
  then have "y = old"
    using wf_key_unique [OF assms(2)] GetKey_SomeD [OF assms(3)] by metis
  moreover have "jsonb env (K_limits old) = K_limits old"
    using assms(2) y(1) \<open>y = old\<close> by (simp add: wf_def wf_json_def)
  ultimately show "K_status (update_columns env now u y) \<noteq> KeyStatusRevoked \<and> mirrors (id p) (update_columns env now u y)"
    using assms(4) y by (auto simp: mirrors_def update_columns_def settings_changed_def)
qed (use assms in \<open>auto simp: keeps_place_def update_columns_def jsonb_normal_def\<close>)

lemma wf_Update: "jsonb_normal env \<Longrightarrow> wf env db \<Longrightarrow> wf env (snd (Update env now faulty u k db))"
  using wf_UpdateKey_unchanged [of env db k] wf_update_both_columns [of env db]
  by (auto simp: Update_def Let_def resettle_profiles_both intro!: wf_Tx split: option.splits if_splits)

lemma wf_Unbind: "wf env db \<Longrightarrow> wf env (snd (Unbind now faulty k n db))"
  unfolding Unbind_def
proof (rule wf_Tx, assumption)
  fix x db'
  assume wf: "wf env db"
    and "(case find (\<lambda>b. B_node b = n) (ListKeyBindings k db) of None \<Rightarrow> Inr ((), db)
      | Some b \<Rightarrow> Inr ((), SetNodeDirty now True n (DeleteProfile (B_profile b) (DeleteBinding k n db)))) = Inr (x, db')"
  then consider "db' = db" | b where "find (\<lambda>b. B_node b = n) (ListKeyBindings k db) = Some b"
    "db' = SetNodeDirty now True n (DeleteProfile (B_profile b) (DeleteBinding k n db))"
    by (auto split: option.splits)
  then show "wf env db'"
  proof cases
    case (2 b)
    then have "b \<in> set (ListKeyBindings k db)" "B_node b = n"
      by (auto simp: find_Some_iff)
    then have "DeleteProfile (B_profile b) (DeleteBinding k n db) = DeleteProfile (B_profile b) db"
      using DeleteProfile_DeleteBinding [OF wf] by (simp add: ListKeyBindings_def)
    then show ?thesis
      using 2 wf_delete_profiles [OF wf] by (simp add: DeleteProfile_def)
  qed (use wf in simp)
qed

text \<open>The operations as calls.\<close>

datatype key_op =
    Op_Create CreateInput key_rand
  | Op_CreateBatch CreateInput string int "nat \<Rightarrow> key_rand"
  | Op_Import CreateInput "ImportItem list" "nat \<Rightarrow> key_rand"
  | Op_Bind uuid uuid uuid
  | Op_Unbind uuid uuid
  | Op_Revoke uuid
  | Op_Rotate key_rand uuid
  | Op_Delete uuid
  | Op_Update UpdateInput uuid
  | Op_Extend gotime uuid
  | Op_IssueSubscription key_rand uuid
  | Op_SetDisabled bool uuid
  | Op_Expire uuid
  | Op_SetSlug uuid string

record key_call =
  C_now :: gotime
  C_faulty :: bool
  C_op :: key_op

definition outcome :: "(key_error + 'a) \<times> keydb \<Rightarrow> key_error err \<times> keydb" where
  "outcome r = (case fst r of Inl e \<Rightarrow> Some e | Inr _ \<Rightarrow> None, snd r)"

definition key_step :: "key_env \<Rightarrow> keydb \<Rightarrow> key_call \<Rightarrow> key_error err \<times> keydb" where
  "key_step env db c =
     (let now = C_now c; faulty = C_faulty c
      in case C_op c of
           Op_Create inp r \<Rightarrow> outcome (Create env now faulty inp r db)
         | Op_CreateBatch inp prefix count rs \<Rightarrow> outcome (CreateBatch env now faulty inp prefix count rs db)
         | Op_Import inp items rs \<Rightarrow> outcome (Import env now faulty inp items rs db)
         | Op_Bind k n pid \<Rightarrow> outcome (Bind env now faulty k n pid db)
         | Op_Unbind k n \<Rightarrow> outcome (Unbind now faulty k n db)
         | Op_Revoke k \<Rightarrow> outcome (Revoke now faulty k db)
         | Op_Rotate r k \<Rightarrow> outcome (Rotate env now faulty r k db)
         | Op_Delete k \<Rightarrow> outcome (Delete now faulty k db)
         | Op_Update u k \<Rightarrow> outcome (Update env now faulty u k db)
         | Op_Extend t k \<Rightarrow> outcome (Extend now faulty t k db)
         | Op_IssueSubscription r k \<Rightarrow> outcome (IssueSubscription env now faulty r k db)
         | Op_SetDisabled b k \<Rightarrow> outcome (SetDisabled now faulty b k db)
         | Op_Expire k \<Rightarrow> outcome (Expire now faulty k db)
         | Op_SetSlug k slug \<Rightarrow> outcome (SetSlug faulty k slug db))"

lemma snd_outcome [simp]: "snd (outcome r) = snd r"
  by (simp add: outcome_def)

lemma fst_outcome: "fst (outcome r) = None \<longleftrightarrow> (\<exists>x. fst r = Inr x)"
  by (auto simp: outcome_def split: sum.splits)

lemma wf_Create: "jsonb_normal env \<Longrightarrow> wf env db \<Longrightarrow> wf env (snd (Create env now faulty inp r db))"
  by (auto simp: Create_def wf_createTx intro!: wf_Tx split: option.splits)

lemma wf_CreateBatch: "jsonb_normal env \<Longrightarrow> wf env db \<Longrightarrow> wf env (snd (CreateBatch env now faulty inp p c rs db))"
  by (auto simp: CreateBatch_def wf_create_each intro!: wf_Tx split: option.splits)

lemma wf_Import: "jsonb_normal env \<Longrightarrow> wf env db \<Longrightarrow> wf env (snd (Import env now faulty inp items rs db))"
proof -
  assume "jsonb_normal env" and wf: "wf env db"
  then have "wf env (snd (Tx faulty (\<lambda>db. if taken_secrets env seen db \<noteq> [] then Inl (f db)
      else case checkCapacity env ns m db of Some e \<Rightarrow> Inl e | None \<Rightarrow> create_each chk env now xs db) db))"
    for seen f ns m chk xs
    by (intro wf_Tx) (auto simp: wf_create_each split: option.splits if_splits)
  then show ?thesis
    using wf unfolding Import_def by (simp split: prod.split option.split)
qed

lemma wf_Bind: "wf env db \<Longrightarrow> wf env (snd (Bind env now faulty k n pid db))"
proof -
  assume wf: "wf env db"
  have "wf env db'" if "GetKey k db = Some key" "K_status key \<noteq> KeyStatusRevoked"
    "bindTx env now key n pid db = Inr (x, db')" for key x db'
  proof (rule wf_bindTx [OF wf that(3)])
    show "\<exists>k \<in> set (keys db). K_id k = K_id key \<and> K_status k \<noteq> KeyStatusRevoked \<and> K_secret_enc k = K_secret_enc key \<and>
      K_carrier k = K_carrier key \<and> K_limits k = jsonb env (K_limits key)"
      using GetKey_SomeD [OF that(1)] that(2) wf by (intro bexI [of _ key]) (auto simp: wf_def wf_json_def)
  qed
  then show ?thesis
    using wf by (auto simp: Bind_def intro!: wf_Tx split: option.splits)
qed

lemma wf_simple_ops:
  assumes "wf env db"
  shows "wf env (snd (Delete now faulty k db))" "wf env (snd (Extend now faulty t k db))"
    "wf env (snd (IssueSubscription env now faulty r k db))" "wf env (snd (SetDisabled now faulty b k db))"
    "wf env (snd (Expire now faulty k db))" "wf env (snd (SetSlug faulty k slug db))"
  using assms wf_issue [OF assms] wf_SetKeySlug [OF assms]
  by (auto simp: Delete_def Extend_def IssueSubscription_def SetDisabled_def Expire_def SetSlug_def wf_DeleteKey
      wf_key_columns intro!: wf_Tx split: option.splits if_splits sum.splits)

lemmas wf_operations = wf_Create wf_CreateBatch wf_Import wf_Bind wf_Unbind wf_Revoke wf_Rotate wf_Update wf_simple_ops

lemma key_step_wf: "jsonb_normal env \<Longrightarrow> wf env db \<Longrightarrow> wf env (snd (key_step env db c))"
  by (cases "C_op c") (simp_all add: key_step_def wf_operations)

end
