(* ===== verification/Key_Dirty.thy ===== *)
theory Key_Dirty
  imports Key_Operations
begin

text \<open>
  The panel pushes a node's profiles only when the node is marked dirty, so an operation that
  changes what a node should serve and forgets the mark leaves the change unapplied. Here: every
  operation of the key service marks every node whose served profiles it changes, with a new
  dirty sequence number (which is what the apply worker compares).
\<close>

subsection \<open>What a node serves\<close>

text \<open>
  The columns of \<^verbatim>\<open>ListNodeProfilesWithKey\<close> that \<^verbatim>\<open>desiredState\<close>
  (\<^verbatim>\<open>internal/worker/desired.go\<close>) turns into a profile of the apply request.
\<close>

definition key_view :: "keydb \<Rightarrow> Profile \<Rightarrow> (string \<times> gotime option \<times> bool \<times> bool) option" where
  "key_view db p =
     Option.bind (P_key p) (\<lambda>k. map_option (\<lambda>x. (K_telemt_limits x, K_expires_at x, K_status x = KeyStatusRevoked,
        K_disabled_at x \<noteq> None)) (GetKey k db))"

definition served where
  "served db n =
     (\<lambda>p. (P_name p, P_secret_enc p, P_backend p, P_carrier p, P_limits p, key_view db p)) `
       {p \<in> set (profiles db). P_node p = n}"

definition dirtied :: "keydb \<Rightarrow> keydb \<Rightarrow> uuid \<Rightarrow> bool" where
  "dirtied db db' n \<longleftrightarrow>
     (\<exists>a b. GetNode n db = Some a \<and> GetNode n db' = Some b \<and> N_dirty b \<and> N_dirty_seq a < N_dirty_seq b)"

definition nodes_grow :: "keydb \<Rightarrow> keydb \<Rightarrow> bool" where
  "nodes_grow db db' \<longleftrightarrow>
     (\<forall>n a. GetNode n db = Some a \<longrightarrow>
        (\<exists>b. GetNode n db' = Some b \<and> N_dirty_seq a \<le> N_dirty_seq b \<and> (N_dirty a \<longrightarrow> N_dirty b) \<and>
           (N_dirty_seq a < N_dirty_seq b \<longrightarrow> N_dirty b)))"

definition marks :: "keydb \<Rightarrow> keydb \<Rightarrow> bool" where
  "marks db db' \<longleftrightarrow> nodes_grow db db' \<and> (\<forall>n. served db' n \<noteq> served db n \<longrightarrow> dirtied db db' n)"

lemma nodes_grow_refl [simp]: "nodes db' = nodes db \<Longrightarrow> nodes_grow db db'"
  by (simp add: nodes_grow_def GetNode_def)

lemma marks_refl [simp]: "marks db db"
  by (simp add: marks_def)

lemma marks_same_nodes: "nodes db' = nodes db \<Longrightarrow> (\<And>n. served db' n = served db n) \<Longrightarrow> marks db db'"
  by (simp add: marks_def)

lemma nodes_grow_trans:
  assumes "nodes_grow a b" "nodes_grow b c"
  shows "nodes_grow a c"
  unfolding nodes_grow_def
proof (intro allI impI)
  fix n x assume "GetNode n a = Some x"
  then obtain y z where "GetNode n b = Some y" "GetNode n c = Some z" "N_dirty_seq x \<le> N_dirty_seq y"
    "N_dirty_seq y \<le> N_dirty_seq z" "N_dirty x \<longrightarrow> N_dirty y" "N_dirty y \<longrightarrow> N_dirty z"
    "N_dirty_seq x < N_dirty_seq y \<longrightarrow> N_dirty y" "N_dirty_seq y < N_dirty_seq z \<longrightarrow> N_dirty z"
    using assms unfolding nodes_grow_def by blast
  then show "\<exists>z. GetNode n c = Some z \<and> N_dirty_seq x \<le> N_dirty_seq z \<and> (N_dirty x \<longrightarrow> N_dirty z) \<and>
      (N_dirty_seq x < N_dirty_seq z \<longrightarrow> N_dirty z)"
    by auto
qed

lemma dirtied_grow: "dirtied a b n \<Longrightarrow> nodes_grow b c \<Longrightarrow> dirtied a c n"
  unfolding nodes_grow_def dirtied_def by (meson order_less_le_trans)

lemma grow_dirtied: "nodes_grow a b \<Longrightarrow> dirtied b c n \<Longrightarrow> GetNode n a \<noteq> None \<Longrightarrow> dirtied a c n"
  unfolding nodes_grow_def dirtied_def by (metis not_None_eq option.sel order_le_less_trans)

text \<open>No operation creates or removes a node.\<close>

definition same_nodes :: "keydb \<Rightarrow> keydb \<Rightarrow> bool" where
  "same_nodes db db' \<longleftrightarrow> (\<forall>n. GetNode n db = None \<longleftrightarrow> GetNode n db' = None)"

definition marks_all :: "keydb \<Rightarrow> keydb \<Rightarrow> bool" where
  "marks_all db db' \<longleftrightarrow> same_nodes db db' \<and> marks db db'"

lemma marks_all_trans:
  assumes "marks_all a b" "marks_all b c"
  shows "marks_all a c"
proof -
  have grow: "nodes_grow a b" "nodes_grow b c" "same_nodes a b" "same_nodes b c"
    using assms by (simp_all add: marks_all_def marks_def)
  have "dirtied a c n" if "served c n \<noteq> served a n" for n
  proof (cases "served b n = served a n")
    case True
    with that assms(2) have "dirtied b c n"
      by (auto simp: marks_all_def marks_def)
    moreover from this grow(3) have "GetNode n a \<noteq> None"
      by (auto simp: dirtied_def same_nodes_def)
    ultimately show ?thesis
      using grow_dirtied [OF grow(1)] by blast
  next
    case False
    with assms(1) have "dirtied a b n"
      by (auto simp: marks_all_def marks_def)
    then show ?thesis
      using dirtied_grow grow(2) by blast
  qed
  then show ?thesis
    using nodes_grow_trans [OF grow(1,2)] grow(3,4) by (simp add: marks_all_def marks_def same_nodes_def)
qed

lemma marks_all_same: "nodes db' = nodes db \<Longrightarrow> (\<And>n. served db' n = served db n) \<Longrightarrow> marks_all db db'"
  by (simp add: marks_all_def same_nodes_def marks_same_nodes GetNode_def)

subsection \<open>Marking\<close>

lemma SetNodeDirty_grows:
  "nodes_grow db (SetNodeDirty now True i db)" "same_nodes db (SetNodeDirty now True i db)"
  "GetNode i db \<noteq> None \<Longrightarrow> dirtied db (SetNodeDirty now True i db) i"
  by (auto simp: nodes_grow_def same_nodes_def dirtied_def GetNode_SetNodeDirty)

lemma mark_nodes_grow:
  "nodes_grow db (mark_nodes_dirty now ns db) \<and> same_nodes db (mark_nodes_dirty now ns db) \<and>
   (\<forall>n \<in> set ns. GetNode n db \<noteq> None \<longrightarrow> dirtied db (mark_nodes_dirty now ns db) n)"
proof (induction ns arbitrary: db)
  case Nil
  then show ?case by (simp add: mark_nodes_dirty_def same_nodes_def)
next
  case (Cons m ns)
  let ?db1 = "SetNodeDirty now True m db"
  have eq: "mark_nodes_dirty now (m # ns) db = mark_nodes_dirty now ns ?db1"
    by (simp add: mark_nodes_dirty_def)
  note step = SetNodeDirty_grows [where db = db and now = now and i = m] and rest = Cons.IH [of ?db1]
  have "dirtied db (mark_nodes_dirty now ns ?db1) n" if "n \<in> set (m # ns)" "GetNode n db \<noteq> None" for n
  proof (cases "n = m")
    case True
    then show ?thesis using step(3) that(2) rest dirtied_grow by blast
  next
    case False
    moreover have "GetNode n ?db1 \<noteq> None"
      using step(2) that(2) by (simp only: same_nodes_def) blast
    ultimately have "dirtied ?db1 (mark_nodes_dirty now ns ?db1) n"
      using rest that(1) by simp
    then show ?thesis using grow_dirtied [OF step(1)] that(2) by blast
  qed
  moreover have "nodes_grow db (mark_nodes_dirty now ns ?db1)"
    using rest step(1) nodes_grow_trans by blast
  moreover have "same_nodes db (mark_nodes_dirty now ns ?db1)"
    using rest step(2) unfolding same_nodes_def by blast
  ultimately show ?case
    unfolding eq by blast
qed

text \<open>
  The shape all changes of one key share: its nodes are marked, and nothing that any other
  node serves has changed.
\<close>

lemma marks_all_key:
  assumes "nodes db' = nodes (mark_nodes_dirty now ns db)"
    and "\<And>n. n \<notin> set ns \<or> GetNode n db = None \<Longrightarrow> served db' n = served db n"
  shows "marks_all db db'"
proof -
  have G: "GetNode n db' = GetNode n (mark_nodes_dirty now ns db)" for n
    using assms(1) by (simp add: GetNode_def)
  note m = mark_nodes_grow [of db now ns]
  have "nodes_grow db db'" "same_nodes db db'"
    using m by (simp_all add: nodes_grow_def same_nodes_def G)
  moreover have "dirtied db db' n" if "served db' n \<noteq> served db n" for n
  proof -
    have "n \<in> set ns" "GetNode n db \<noteq> None"
      using assms(2) [of n] that by blast+
    then have "dirtied db (mark_nodes_dirty now ns db) n"
      using m by blast
    then show ?thesis
      by (simp add: dirtied_def G)
  qed
  ultimately show ?thesis
    by (simp add: marks_all_def marks_def)
qed

lemma served_frame:
  assumes "\<And>p. p \<in> set (profiles db') \<and> P_node p = n \<longleftrightarrow> p \<in> set (profiles db) \<and> P_node p = n"
    and "\<And>p. p \<in> set (profiles db) \<Longrightarrow> P_node p = n \<Longrightarrow> key_view db' p = key_view db p"
  shows "served db' n = served db n"
  unfolding served_def using assms by (intro image_cong) auto

lemma nodes_mark_cong: "nodes db = nodes db' \<Longrightarrow> nodes (mark_nodes_dirty now ns db) = nodes (mark_nodes_dirty now ns db')"
  by (induction ns arbitrary: db db') (simp_all add: mark_nodes_dirty_def SetNodeDirty_def)

lemma GetKey_cong: "keys db = keys db' \<Longrightarrow> GetKey k db = GetKey k db'"
  by (simp add: GetKey_def)

lemma served_mark [simp]: "served (mark_nodes_dirty now ns db) n = served db n"
  by (rule served_frame) (simp_all add: key_view_def GetKey_def)

lemma served_SetNodeDirty [simp]: "served (SetNodeDirty now d i db) n = served db n"
  by (rule served_frame) (simp_all add: key_view_def)

text \<open>The nodes where a key has a profile; the service marks exactly these.\<close>

definition key_nodes :: "uuid \<Rightarrow> keydb \<Rightarrow> uuid set" where
  "key_nodes k db = {n. \<exists>p \<in> set (profiles db). P_key p = Some k \<and> P_node p = n}"

lemma GetKey_update_both: "j \<noteq> k \<Longrightarrow> (\<And>x. K_id (f x) = K_id x) \<Longrightarrow> GetKey j (update_both k f g db) = GetKey j db"
  by (simp add: GetKey_def update_both_def find_update_where option.map_ident)

lemma served_update_both:
  assumes "n \<notin> key_nodes k db" "\<And>x. K_id (f x) = K_id x" "keeps_place g"
  shows "served (update_both k f g db) n = served db n"
proof (rule served_frame)
  fix p
  have g: "P_node (g q) = P_node q" "P_key (g q) = P_key q" for q
    using assms(3) by (simp_all add: keeps_place_def)
  show "p \<in> set (profiles (update_both k f g db)) \<and> P_node p = n \<longleftrightarrow> p \<in> set (profiles db) \<and> P_node p = n"
    using assms(1) g by (auto simp: update_both_def set_update_where key_nodes_def)
  assume "p \<in> set (profiles db)" "P_node p = n"
  then have "P_key p \<noteq> Some k"
    using assms(1) by (auto simp: key_nodes_def)
  then show "key_view (update_both k f g db) p = key_view db p"
    using GetKey_update_both [of _ k f g db] assms(2) by (cases "P_key p") (auto simp: key_view_def)
qed

lemma served_delete_profiles:
  assumes "\<And>p. p \<in> set (profiles db) \<Longrightarrow> P p \<Longrightarrow> P_node p \<noteq> n"
  shows "served (delete_profiles P db) n = served db n"
  using assms by (intro served_frame) (auto simp: delete_profiles_def key_view_def GetKey_def)

lemma marks_dirtyKeyNodes:
  assumes "wf env db" "nodes db' = nodes (mark_nodes_dirty now (map B_node (ListKeyBindings k db)) db)"
    and "\<And>n. n \<notin> key_nodes k db \<Longrightarrow> served db' n = served db n"
  shows "marks_all db db'"
proof (rule marks_all_key [OF assms(2)])
  fix n assume "n \<notin> set (map B_node (ListKeyBindings k db)) \<or> GetNode n db = None"
  moreover have "set (map B_node (ListKeyBindings k db)) = key_nodes k db"
    using ListKeyBindings_nodes [OF assms(1)] by (simp add: key_nodes_def)
  moreover have "GetNode m db \<noteq> None" if "m \<in> key_nodes k db" for m
    using assms(1) that by (auto simp: key_nodes_def wf_def wf_profiles_def GetNode_def find_None_id)
  ultimately show "served db' n = served db n"
    using assms(3) by blast
qed

text \<open>The bindings of a key do not depend on its own columns or those of its profiles.\<close>

lemma ListKeyBindings_update_both:
  assumes "keeps_place g"
  shows "ListKeyBindings j (update_both k f g db) = ListKeyBindings j db"
proof -
  have "(\<exists>p \<in> set (profiles (update_both k f g db)). P_id p = i) \<longleftrightarrow> (\<exists>p \<in> set (profiles db). P_id p = i)" for i
    using assms by (auto simp: update_both_def set_update_where keeps_place_def)
  then show ?thesis
    by (simp add: ListKeyBindings_def update_both_def GetNode_def)
qed

lemma marks_update_both:
  assumes "wf env db" "\<And>x. K_id (f x) = K_id x" "keeps_place g"
  shows "marks_all db (dirtyKeyNodes now k (update_both k f g db))"
proof (rule marks_dirtyKeyNodes [OF assms(1)])
  show "nodes (dirtyKeyNodes now k (update_both k f g db)) =
      nodes (mark_nodes_dirty now (map B_node (ListKeyBindings k db)) db)"
    using assms(3) nodes_mark_cong [of "update_both k f g db" db]
    by (simp add: dirtyKeyNodes_mark ListKeyBindings_update_both) (simp add: update_both_def)
  show "served (dirtyKeyNodes now k (update_both k f g db)) n = served db n" if "n \<notin> key_nodes k db" for n
    using served_update_both [OF that assms(2,3)] by (simp add: dirtyKeyNodes_mark)
qed

subsection \<open>Every operation\<close>

lemma marks_Tx:
  assumes "\<And>x db'. body db = Inr (x, db') \<Longrightarrow> marks_all db db'"
  shows "marks_all db (snd (Tx faulty body db))"
  using assms marks_all_same [of db db] by (auto simp: Tx_def split: sum.splits)

lemma marks_all_refl [simp]: "marks_all db db"
  by (simp add: marks_all_same)

lemma marks_delete_key_profiles:
  assumes "wf env db"
  shows "marks_all db (DeleteProfilesByKey k (dirtyKeyNodes now k db))"
proof (rule marks_dirtyKeyNodes [OF assms])
  show "nodes (DeleteProfilesByKey k (dirtyKeyNodes now k db)) = nodes (mark_nodes_dirty now (map B_node (ListKeyBindings k db)) db)"
    by (simp add: DeleteProfilesByKey_def delete_profiles_def dirtyKeyNodes_mark)
  show "served (DeleteProfilesByKey k (dirtyKeyNodes now k db)) n = served db n" if "n \<notin> key_nodes k db" for n
    using that by (subst DeleteProfilesByKey_def, subst served_delete_profiles)
      (auto simp: dirtyKeyNodes_mark key_nodes_def)
qed

text \<open>A key without profiles can change or go without any node noticing.\<close>

lemma marks_unbound_key:
  assumes "key_nodes k db = {}" "\<And>x. K_id (f x) = K_id x"
  shows "marks_all db (update_key k f db)"
  unfolding update_key_both
  using assms by (intro marks_all_same served_update_both) (auto simp: update_both_def keeps_place_def)

lemma key_nodes_deleted: "key_nodes k (DeleteProfilesByKey k db) = {}"
  by (auto simp: key_nodes_def DeleteProfilesByKey_def delete_profiles_def)

lemma marks_Revoke: "wf env db \<Longrightarrow> marks_all db (snd (Revoke now faulty k db))"
proof -
  assume wf: "wf env db"
  let ?db1 = "DeleteProfilesByKey k (dirtyKeyNodes now k db)"
  have "marks_all ?db1 (SetKeyStatus now KeyStatusRevoked k ?db1)"
    unfolding SetKeyStatus_def by (intro marks_unbound_key key_nodes_deleted) simp
  then show ?thesis
    unfolding Revoke_def using marks_all_trans [OF marks_delete_key_profiles [OF wf]]
    by (intro marks_Tx) (auto split: option.splits)
qed

lemma marks_Delete: "wf env db \<Longrightarrow> marks_all db (snd (Delete now faulty k db))"
proof -
  assume wf: "wf env db"
  let ?db1 = "DeleteProfilesByKey k (dirtyKeyNodes now k db)"
  have "marks_all ?db1 (DeleteKey k (dirtyKeyNodes now k db))"
  proof (rule marks_all_same)
    show "nodes (DeleteKey k (dirtyKeyNodes now k db)) = nodes ?db1"
      by (simp add: DeleteKey_def Let_def)
    have "find (\<lambda>x. K_id x = j) (filter (\<lambda>x. K_id x \<noteq> k) ks) = find (\<lambda>x. K_id x = j) ks" if "j \<noteq> k" for j ks
      using that by (induction ks) auto
    then have "GetKey j (DeleteKey k (dirtyKeyNodes now k db)) = GetKey j ?db1" if "j \<noteq> k" for j
      using that by (simp add: DeleteKey_def Let_def GetKey_def)
    then have "key_view (DeleteKey k (dirtyKeyNodes now k db)) p = key_view ?db1 p" if "p \<in> set (profiles ?db1)" for p
    proof -
      have "P_key p \<noteq> Some k"
        using that by (simp add: DeleteProfilesByKey_def delete_profiles_def)
      then show ?thesis
        using \<open>\<And>j. j \<noteq> k \<Longrightarrow> GetKey j (DeleteKey k (dirtyKeyNodes now k db)) = GetKey j ?db1\<close>
        by (cases "P_key p") (simp_all add: key_view_def)
    qed
    then show "served (DeleteKey k (dirtyKeyNodes now k db)) n = served ?db1 n" for n
      by (intro served_frame) (auto simp: DeleteKey_def Let_def)
  qed
  then show ?thesis
    unfolding Delete_def using marks_all_trans [OF marks_delete_key_profiles [OF wf]] by (intro marks_Tx) auto
qed

lemma marks_Rotate: "wf env db \<Longrightarrow> marks_all db (snd (Rotate env now faulty r k db))"
  by (auto simp: Rotate_def Let_def rotate_profiles_both keeps_place_def
      intro!: marks_Tx marks_update_both split: option.splits if_splits)

lemma marks_key_columns:
  assumes "wf env db"
  shows "marks_all db (dirtyKeyNodes now k (SetKeyExpiry e k db))" "marks_all db (dirtyKeyNodes now k (SetKeyExpired t k db))"
    "marks_all db (dirtyKeyNodes now k (SetKeyDisabled d k db))"
  unfolding SetKeyExpiry_def SetKeyExpired_def SetKeyDisabled_def update_key_both
  using assms by (intro marks_update_both; simp add: keeps_place_def)+

text \<open>Changes of a key that no node can see.\<close>

lemma GetKey_update_key:
  "(\<And>x. K_id (f x) = K_id x) \<Longrightarrow>
     GetKey j (update_key k f db) = map_option (\<lambda>x. if j = k then f x else x) (GetKey j db)"
  by (simp add: GetKey_def update_key_def find_update_where)

lemma marks_unseen:
  assumes "\<And>x. x \<in> set (keys db) \<Longrightarrow> K_id x = k \<Longrightarrow> K_telemt_limits (f x) = K_telemt_limits x \<and>
      K_expires_at (f x) = K_expires_at x \<and> K_status (f x) = K_status x \<and> K_disabled_at (f x) = K_disabled_at x"
    and "\<And>x. K_id (f x) = K_id x"
  shows "marks_all db (update_key k f db)"
proof (rule marks_all_same)
  have "key_view (update_key k f db) p = key_view db p" for p
  proof (cases "P_key p")
    case (Some j)
    show ?thesis
    proof (cases "GetKey j db")
      case key: (Some x)
      then have "x \<in> set (keys db)" "K_id x = j"
        using GetKey_SomeD by auto
      then show ?thesis
        using assms(1) [of x] Some key by (simp add: key_view_def GetKey_update_key [OF assms(2)])
    qed (simp add: Some key_view_def GetKey_update_key [OF assms(2)])
  qed (simp add: key_view_def)
  then show "served (update_key k f db) n = served db n" for n
    by (intro served_frame) (simp_all add: update_key_def)
qed (simp add: update_key_def)

lemma marks_SetKeySlug: "SetKeySlug slug k db = Inr db' \<Longrightarrow> marks_all db db'"
  by (auto simp: SetKeySlug_def marks_unseen split: if_splits)

lemma marks_issue: "issueSubscriptionTx env now r k db = Inr (tok, db') \<Longrightarrow> marks_all db db'"
  by (erule issue_shape) (auto intro!: marks_all_same served_frame simp: key_view_def GetKey_def)

lemma marks_bindTx:
  assumes "bindTx env now key n pid db = Inr (u, db')"
  shows "marks_all db db'"
proof -
  from bindTx_shape [OF assms] obtain db1 where
    db': "db' = SetNodeDirty now True n db1" and n: "GetNode n db \<noteq> None"
    and db1: "nodes db1 = nodes db" "keys db1 = keys db" "set (profiles db1) = insert (new_profile env key n pid) (set (profiles db))"
    by auto
  show ?thesis
  proof (rule marks_all_key [where ns = "[n]"])
    show "nodes db' = nodes (mark_nodes_dirty now [n] db)"
      using db1(1) by (simp add: db' mark_nodes_dirty_def SetNodeDirty_def)
    show "served db' m = served db m" if "m \<notin> set [n] \<or> GetNode m db = None" for m
      using that n db1(2,3)
      by (intro served_frame) (auto simp: db' key_view_def GetKey_def new_profile_def)
  qed
qed

lemma marks_bind_nodes: "bind_nodes env now key pids ns db = Inr (u, db') \<Longrightarrow> marks_all db db'"
proof (induction ns arbitrary: db)
  case (Cons n ns)
  then show ?case
    using marks_bindTx marks_all_trans by (fastforce split: sum.splits)
qed simp

lemma marks_CreateKey:
  assumes "wf env db" "CreateKey k db = Inr db'"
  shows "marks_all db db'"
proof -
  have db': "db' = db\<lparr>keys := keys db @ [k]\<rparr>"
    using assms(2) by (simp add: CreateKey_def split: if_splits)
  have "GetKey j db' = GetKey j db" if "GetKey j db \<noteq> None" for j
  proof -
    have "find P (xs @ ys) = find P xs" if "find P xs \<noteq> None" for P :: "AccessKey \<Rightarrow> bool" and xs ys
      using that by (induction xs) auto
    then show ?thesis using that by (simp add: GetKey_def db')
  qed
  moreover have "GetKey j db \<noteq> None" if "p \<in> set (profiles db)" "P_key p = Some j" for p j
    using assms(1) that by (auto simp: wf_def wf_profiles_def GetKey_def find_None_id)
  ultimately have "key_view db' p = key_view db p" if "p \<in> set (profiles db)" for p
    using that by (cases "P_key p") (auto simp: key_view_def simp del: not_None_eq)
  then show ?thesis
    by (intro marks_all_same served_frame) (auto simp: db')
qed

lemma marks_createTx:
  assumes "wf env db" "createTx env now inp r db = Inr (k, db')"
  shows "marks_all db db'"
proof -
  from assms(2) obtain enc db1 u db2 tok db3 where
    db1: "CreateKey (new_key env inp (R_key r) enc) db = Inr db1"
    and db2: "bind_nodes env now (new_key env inp (R_key r) enc) (R_profile r) (NodeIDs inp) db1 = Inr (u, db2)"
    and db3: "issueSubscriptionTx env now r (R_key r) db2 = Inr (tok, db3)"
    and slug: "set_new_slug (SubSlug inp) (new_key env inp (R_key r) enc) db3 = Inr (k, db')"
    by (auto simp: createTx_def Let_def new_key_def split: option.splits sum.splits if_splits)
  have "marks_all db3 db'"
    using slug marks_SetKeySlug by (auto simp: set_new_slug_def split: if_splits sum.splits)
  then show ?thesis
    using marks_CreateKey [OF assms(1) db1] marks_bind_nodes [OF db2] marks_issue [OF db3] marks_all_trans by blast
qed

lemma marks_create_each:
  assumes "jsonb_normal env" "wf env db" "create_each chk env now items db = Inr (ks, db')"
  shows "marks_all db db'"
  using assms(2,3)
proof (induction items arbitrary: db ks)
  case (Cons it items)
  obtain item r where it: "it = (item, r)" by fastforce
  with Cons.prems(2) obtain k db1 ks' where db1: "createTx env now item r db = Inr (k, db1)"
    "create_each chk env now items db1 = Inr (ks', db')"
    by (auto split: option.splits sum.splits)
  then show ?case
    using Cons.IH wf_createTx [OF assms(1) Cons.prems(1) db1(1)] marks_createTx [OF Cons.prems(1) db1(1)]
      marks_all_trans by blast
qed simp

lemma marks_creations:
  assumes "jsonb_normal env" "wf env db"
  shows "marks_all db (snd (Create env now faulty inp r db))"
    "marks_all db (snd (CreateBatch env now faulty inp p c rs db))"
    "marks_all db (snd (Bind env now faulty k n pid db))"
  using assms marks_createTx [OF assms(2)] marks_create_each [OF assms] marks_bindTx
  by (auto simp: Create_def CreateBatch_def Bind_def intro!: marks_Tx split: option.splits)

lemma marks_Import:
  assumes "jsonb_normal env" "wf env db"
  shows "marks_all db (snd (Import env now faulty inp items rs db))"
proof -
  have "marks_all db (snd (Tx faulty (\<lambda>db. if taken_secrets env seen db \<noteq> [] then Inl (f db)
      else case checkCapacity env ns m db of Some e \<Rightarrow> Inl e | None \<Rightarrow> create_each chk env now xs db) db))"
    for seen f ns m chk xs
    using marks_create_each [OF assms] by (intro marks_Tx) (auto split: option.splits if_splits)
  then show ?thesis
    unfolding Import_def by (simp split: prod.split option.split)
qed

lemma marks_Unbind: "wf env db \<Longrightarrow> marks_all db (snd (Unbind now faulty k n db))"
  unfolding Unbind_def
proof (rule marks_Tx)
  fix x db'
  assume wf: "wf env db"
    and "(case find (\<lambda>b. B_node b = n) (ListKeyBindings k db) of None \<Rightarrow> Inr ((), db)
      | Some b \<Rightarrow> Inr ((), SetNodeDirty now True n (DeleteProfile (B_profile b) (DeleteBinding k n db)))) = Inr (x, db')"
  then consider "db' = db" | b where "find (\<lambda>b. B_node b = n) (ListKeyBindings k db) = Some b"
    "db' = SetNodeDirty now True n (DeleteProfile (B_profile b) (DeleteBinding k n db))"
    by (auto split: option.splits)
  then show "marks_all db db'"
  proof cases
    case (2 b)
    then have b: "b \<in> set (bindings db)" "B_node b = n" "B_key b = k" "GetNode n db \<noteq> None"
      by (auto simp: find_Some_iff ListKeyBindings_def dest!: nth_mem)
    then have db': "db' = SetNodeDirty now True n (delete_profiles (\<lambda>p. P_id p = B_profile b) db)"
      using 2 DeleteProfile_DeleteBinding [OF wf] by (simp add: DeleteProfile_def)
    have at_n: "P_node p = n" if "p \<in> set (profiles db)" "P_id p = B_profile b" for p
    proof -
      obtain q where "q \<in> set (profiles db)" "P_node q = n" "P_id q = B_profile b"
        using wf_bindingsD [OF wf, of b] b(1,2) by auto
      then show ?thesis
        using wf_profile_unique [OF wf that(1), of q] that(2) by simp
    qed
    show ?thesis
    proof (rule marks_all_key [where ns = "[n]"])
      show "nodes db' = nodes (mark_nodes_dirty now [n] db)"
        by (simp add: db' mark_nodes_dirty_def SetNodeDirty_def delete_profiles_def)
      show "served db' m = served db m" if "m \<notin> set [n] \<or> GetNode m db = None" for m
        unfolding db' served_SetNodeDirty using that at_n b(4) by (intro served_delete_profiles) auto
    qed
  qed simp
qed

lemma marks_Update:
  assumes "jsonb_normal env" "wf env db"
  shows "marks_all db (snd (Update env now faulty u k db))"
proof -
  have id: "K_id (update_columns env now u x) = K_id x" for x
    by (simp add: update_columns_def)
  have both: "marks_all db (dirtyKeyNodes now k (update_both k (update_columns env now u) g db))" if "keeps_place g" for g
    by (rule marks_update_both [OF assms(2) id that])
  have same: "marks_all db (UpdateKey env now u k db)"
    if old: "GetKey k db = Some old" "\<not> settings_changed env u old" "sameTime (K_expires_at old) (U_ExpiresAt u)" for old
    unfolding UpdateKey_columns
  proof (rule marks_unseen)
    fix x assume "x \<in> set (keys db)" "K_id x = k"
    then have "x = old" "jsonb env (K_telemt_limits old) = K_telemt_limits old"
      using wf_key_unique [OF assms(2)] GetKey_SomeD [OF old(1)] assms(2) by (auto simp: wf_def wf_json_def)
    then show "K_telemt_limits (update_columns env now u x) = K_telemt_limits x \<and>
        K_expires_at (update_columns env now u x) = K_expires_at x \<and>
        K_status (update_columns env now u x) = K_status x \<and> K_disabled_at (update_columns env now u x) = K_disabled_at x"
      using old(2,3) by (auto simp: update_columns_def settings_changed_def sameTime_def split: option.splits)
  qed (rule id)
  have "marks_all db (dirtyKeyNodes now k (UpdateKey env now u k db))"
    unfolding UpdateKey_columns update_key_both by (rule both) (simp add: keeps_place_def)
  then show ?thesis
    using both same
    by (auto simp: Update_def Let_def resettle_profiles_both [OF assms(2)] keeps_place_def
        intro!: marks_Tx split: option.splits if_splits)
qed

lemma marks_simple_ops:
  assumes "wf env db"
  shows "marks_all db (snd (Extend now faulty t k db))" "marks_all db (snd (IssueSubscription env now faulty r k db))"
    "marks_all db (snd (SetDisabled now faulty b k db))" "marks_all db (snd (Expire now faulty k db))"
    "marks_all db (snd (SetSlug faulty k slug db))"
  using marks_key_columns [OF assms] marks_issue marks_SetKeySlug
  by (auto simp: Extend_def IssueSubscription_def SetDisabled_def Expire_def SetSlug_def
      intro!: marks_Tx split: option.splits if_splits sum.splits)

lemmas marks_operations = marks_creations marks_Import marks_Unbind marks_Revoke marks_Rotate marks_Delete marks_Update
  marks_simple_ops

lemma key_step_marks: "jsonb_normal env \<Longrightarrow> wf env db \<Longrightarrow> marks_all db (snd (key_step env db c))"
  by (cases "C_op c") (simp_all add: key_step_def marks_operations)

end
