(* ===== verification/Key_Properties.thy ===== *)
theory Key_Properties
  imports Key_Dirty
begin

text \<open>
  What the key service guarantees to its callers, over the whole component: the invariant of any
  sequence of calls, atomicity of failures, and the effect of the operations that matter most
  (revocation, rotation, subscription links, batch creation and import).
\<close>

subsection \<open>Any sequence of calls\<close>

definition fresh_panel :: "node_row list \<Rightarrow> keydb" where
  "fresh_panel ns = \<lparr>nodes = ns, keys = [], profiles = [], bindings = [], tokens = []\<rparr>"

definition good_nodes :: "node_row list \<Rightarrow> bool" where
  "good_nodes ns \<longleftrightarrow> distinct (map N_id ns) \<and> (\<forall>n \<in> set ns. 0 \<le> N_max_profiles n)"

lemma wf_fresh_panel: "good_nodes ns \<Longrightarrow> wf env (fresh_panel ns)"
  by (simp add: good_nodes_def fresh_panel_def wf_def wf_defs profile_bindings_def CountNodeProfiles_def live_tokens_def)

interpretation keysvc: guarded_object "\<lambda>db. jsonb_normal env \<and> good_nodes ns \<longrightarrow> wf env db" "key_step env" "fresh_panel ns"
  for env ns
  by unfold_locales (simp_all add: wf_fresh_panel key_step_wf)


definition test_env :: key_env where
  "test_env =
     \<lparr>Encrypt = (\<lambda>n s. Some (CHR ''#'' # s)), Decrypt = (\<lambda>c. case c of [] \<Rightarrow> None | _ # s \<Rightarrow> Some s),
      HashToken = (\<lambda>t. CHR ''h'' # t), MarshalLimits = (\<lambda>_. ''{}''), MarshalTelemt = (\<lambda>_. ''{}''), jsonb = id,
      id_text = (\<lambda>i. ''123456789012''), limits_text = (\<lambda>_. ''bad''), limit_orders = ([], [], [], [])\<rparr>"

definition test_node :: "uuid \<Rightarrow> node_row" where
  "test_node i = \<lparr>N_id = i, N_hostname = ''h'', N_max_profiles = 2, N_dirty = False, N_dirty_seq = 0, N_dirty_since = None\<rparr>"

definition test_input :: CreateInput where
  "test_input =
     \<lparr>Label = ''a'', OwnerLabel = [], Note = [], Type = ''PERSONAL'', In_CarrierMode = ''https'',
      Limits = \<lparr>MaxSessions = 0, MaxStreams = 0, MaxBackendDialsInFlight = 0, NewSessionsPerMinute = 0,
        NewSessionsBurst = 0, NewStreamsPerMinute = 0, NewStreamsBurst = 0, MaxStreamsPerSession = 0, MaxPendingPerSession = 0\<rparr>,
      In_TelemtLimits = \<lparr>DataQuotaBytes = 0, RateLimitUpBps = 0, RateLimitDownBps = 0, MaxUniqueIPs = 0, MaxTCPConns = 0,
        DataQuotaPeriod = ''''\<rparr>,
      ExpiresAt = None, NodeIDs = [7], CreatedBy = None, SubSlug = [], Secret = []\<rparr>"

definition test_rand :: "nat \<Rightarrow> key_rand" where
  "test_rand i = \<lparr>R_secret = Some ''s'', R_nonce = 0, R_key = i, R_profile = (\<lambda>n. n + i), R_token = Some ''t'', R_token_nonce = 0\<rparr>"

lemma test_env_normal: "jsonb_normal test_env"
  by (simp add: jsonb_normal_def test_env_def)

lemma test_nodes_good: "good_nodes [test_node 7]"
  by (simp add: good_nodes_def test_node_def)

definition test_calls :: "key_call list" where
  "test_calls = [\<lparr>C_now = 0, C_faulty = False, C_op = Op_Create test_input (test_rand 1)\<rparr>,
     \<lparr>C_now = 1, C_faulty = False, C_op = Op_Revoke 1\<rparr>]"


text \<open>A small panel with one key on one node, for the examples below.\<close>

definition test_key :: AccessKey where
  "test_key = new_key test_env test_input 1 ''#s''"

definition bound_panel :: keydb where
  "bound_panel = \<lparr>nodes = [test_node 7], keys = [test_key], profiles = [new_profile test_env test_key 7 8],
     bindings = [\<lparr>B_key = 1, B_node = 7, B_profile = 8\<rparr>], tokens = []\<rparr>"

lemma bound_panel_wf: "wf test_env bound_panel"
  by (simp add: wf_def wf_defs bound_panel_def test_node_def test_key_def new_key_def new_profile_def test_env_def
      profile_bindings_def binding_of_def CountNodeProfiles_def live_tokens_def mirrors_def test_input_def)

subsection \<open>Changes reach the nodes\<close>

text \<open> C2:
  Whenever a call to the key service changes what a node has to serve (a profile of it, or the
  expiry, revocation, switch or limits it inherits from its key), the node is marked dirty by
  that call and its dirty sequence number grows.
\<close>

theorem served_change_marks_node_dirty:
  assumes "jsonb_normal env" "wf env db" "served (snd (key_step env db c)) n \<noteq> served db n"
  shows "\<exists>a b. GetNode n db = Some a \<and> GetNode n (snd (key_step env db c)) = Some b \<and> N_dirty b \<and>
    N_dirty_seq a < N_dirty_seq b"
  using key_step_marks [OF assms(1,2), of c] assms(3) by (auto simp: marks_all_def marks_def dirtied_def)

lemma served_change_marks_node_dirty_witness:
  "\<exists>a b. GetNode 7 bound_panel = Some a \<and>
     GetNode 7 (snd (key_step test_env bound_panel \<lparr>C_now = 5, C_faulty = False, C_op = Op_Revoke 1\<rparr>)) = Some b \<and>
     N_dirty b \<and> N_dirty_seq a < N_dirty_seq b"
  by (rule served_change_marks_node_dirty [OF test_env_normal bound_panel_wf])
    (simp add: served_def key_step_def Revoke_def Tx_def GetKey_def bound_panel_def test_key_def new_key_def
      new_profile_def SetKeyStatus_def update_key_def DeleteProfilesByKey_def delete_profiles_def dirtyKeyNodes_mark)

subsection \<open>Failures\<close>

lemma Tx_error: "fst (Tx faulty body db) = Inl e \<Longrightarrow> snd (Tx faulty body db) = db"
  by (auto simp: Tx_def split: if_splits sum.splits)

lemma outcome_Tx_error: "fst (outcome (Tx faulty body db)) = Some e \<Longrightarrow> snd (Tx faulty body db) = db"
  by (auto simp: outcome_def Tx_def split: if_splits sum.splits)

lemma outcome_pair [simp]: "fst (outcome (Inl e, db)) = Some e" "fst (outcome (Inr x, db)) = None"
  by (simp_all add: outcome_def)

lemma outcome_Import_error: "fst (outcome (Import env now faulty inp items rs db)) = Some e \<Longrightarrow>
    snd (Import env now faulty inp items rs db) = db"
  unfolding Import_def by (auto dest: outcome_Tx_error simp del: check_items.simps split: if_splits prod.splits option.splits)



subsection \<open>Revocation and rotation\<close>

lemma GetKey_Some_frame [simp]:
  "GetKey k (DeleteProfilesByKey j db) = GetKey k db" "GetKey k (dirtyKeyNodes now j db) = GetKey k db"
  by (simp_all add: GetKey_def DeleteProfilesByKey_def delete_profiles_def dirtyKeyNodes_mark)

lemma Revoke_result:
  assumes "Revoke now faulty k db = (Inr u, db')"
  shows "\<exists>key. GetKey k db = Some key"
    "db' = SetKeyStatus now KeyStatusRevoked k (DeleteProfilesByKey k (dirtyKeyNodes now k db))"
  using assms by (auto simp: Revoke_def Tx_def split: if_splits option.splits)

lemma bound_nodes_dirtied:
  assumes "wf env db" "p \<in> set (profiles db)" "P_key p = Some k" "nodes d = nodes db"
    and "nodes db' = nodes (mark_nodes_dirty now (map B_node (ListKeyBindings k db)) d)"
  shows "dirtied db db' (P_node p)"
proof -
  have "P_node p \<in> set (map B_node (ListKeyBindings k db))" "GetNode (P_node p) d \<noteq> None"
    using ListKeyBindings_nodes [OF assms(1)] assms(1-4)
    by (auto simp: wf_def wf_profiles_def GetNode_def find_None_id)
  then have "dirtied d (mark_nodes_dirty now (map B_node (ListKeyBindings k db)) d) (P_node p)"
    using mark_nodes_grow [of d now "map B_node (ListKeyBindings k db)"] by blast
  then show ?thesis
    using assms(4,5) by (simp add: dirtied_def GetNode_def)
qed

text \<open> C19:
  After a successful revocation the key is revoked and has no profile and no binding on any node,
  the profiles of other keys are untouched, and every node it was on is dirty with a new sequence
  number. Revoking it again succeeds and changes neither the nodes nor the profiles.
\<close>

theorem revoke_removes_key_everywhere:
  assumes "wf env db" "Revoke now faulty k db = (Inr u, db')"
  shows "(\<exists>key. GetKey k db' = Some key \<and> K_status key = KeyStatusRevoked) \<and>
    (\<forall>p \<in> set (profiles db'). P_key p \<noteq> Some k) \<and> (\<forall>b \<in> set (bindings db'). B_key b \<noteq> k) \<and>
    profiles db' = filter (\<lambda>p. P_key p \<noteq> Some k) (profiles db) \<and>
    (\<forall>p \<in> set (profiles db). P_key p = Some k \<longrightarrow> dirtied db db' (P_node p)) \<and>
    (\<exists>db''. Revoke later False k db' = (Inr (), db'') \<and> nodes db'' = nodes db' \<and> profiles db'' = profiles db')"
proof -
  note r = Revoke_result [OF assms(2)]
  have wf': "wf env db'"
    using wf_Revoke [OF assms(1), of now faulty k] assms(2) by simp
  have st: "\<exists>key. GetKey k db' = Some key \<and> K_status key = KeyStatusRevoked"
    using r by (auto simp: SetKeyStatus_def GetKey_update_key)
  have prof: "profiles db' = filter (\<lambda>p. P_key p \<noteq> Some k) (profiles db)"
    using r(2) by (simp add: SetKeyStatus_def update_key_def DeleteProfilesByKey_def delete_profiles_def dirtyKeyNodes_mark)
  then have none: "\<forall>p \<in> set (profiles db'). P_key p \<noteq> Some k" by simp
  then have bnd: "\<forall>b \<in> set (bindings db'). B_key b \<noteq> k"
    using wf_bindingsD [OF wf'] by auto
  have nodes': "nodes db' = nodes (mark_nodes_dirty now (map B_node (ListKeyBindings k db)) db)"
    using r(2) by (simp add: SetKeyStatus_def update_key_def DeleteProfilesByKey_def delete_profiles_def dirtyKeyNodes_mark)
  have dirty: "\<forall>p \<in> set (profiles db). P_key p = Some k \<longrightarrow> dirtied db db' (P_node p)"
    using bound_nodes_dirtied [OF assms(1) _ _ refl nodes'] by blast
  have "ListKeyBindings k db' = []"
    using bnd by (auto simp: ListKeyBindings_def filter_empty_conv)
  moreover have "filter (\<lambda>p. P_key p \<noteq> Some k) (profiles db') = profiles db'"
    using none by (auto intro: filter_True)
  ultimately have "\<exists>db''. Revoke later False k db' = (Inr (), db'') \<and> nodes db'' = nodes db' \<and> profiles db'' = profiles db'"
    using st by (auto simp: Revoke_def Tx_def SetKeyStatus_def update_key_def DeleteProfilesByKey_def delete_profiles_def
        dirtyKeyNodes_def)
  then show ?thesis
    using st none bnd prof dirty by blast
qed

lemma revoke_removes_key_everywhere_witness:
  "dirtied bound_panel (snd (Revoke 5 False 1 bound_panel)) 7"
proof -
  have "Revoke 5 False 1 bound_panel = (Inr (), snd (Revoke 5 False 1 bound_panel))"
    by (simp add: Revoke_def Tx_def GetKey_def bound_panel_def test_key_def new_key_def)
  from revoke_removes_key_everywhere [OF bound_panel_wf this] show ?thesis
    by (simp add: bound_panel_def new_profile_def test_key_def new_key_def)
qed



subsection \<open>The key Bind reads\<close>

definition race_panel :: keydb where
  "race_panel = \<lparr>nodes = [test_node 7], keys = [test_key], profiles = [], bindings = [], tokens = []\<rparr>"

text \<open> C24:
  \<^verbatim>\<open>Bind\<close> reads the key and checks its status before its transaction begins, and the
  transaction does not look again: when the key is revoked in between, the bind still succeeds
  and leaves a revoked key with a profile that takes a place of the node's capacity, which no
  sequence of uninterrupted calls can reach.
\<close>

theorem bind_races_with_revoke:
  "\<exists>key db1 db2. GetKey 1 race_panel = Some key \<and> K_status key \<noteq> KeyStatusRevoked \<and>
     Revoke 5 False 1 race_panel = (Inr (), db1) \<and> Tx False (bindTx test_env 6 key 7 8) db1 = (Inr (), db2) \<and>
     (\<exists>p \<in> set (profiles db2). P_key p = Some 1) \<and> (\<exists>k. GetKey 1 db2 = Some k \<and> K_status k = KeyStatusRevoked) \<and>
     \<not> wf test_env db2"
proof -
  let ?key = test_key
  have key: "GetKey 1 race_panel = Some ?key" "K_status ?key \<noteq> KeyStatusRevoked"
    by (simp_all add: race_panel_def GetKey_def test_key_def new_key_def)
  obtain db1 where db1: "Revoke 5 False 1 race_panel = (Inr (), db1)"
    "db1 = race_panel\<lparr>keys := [test_key\<lparr>K_status := KeyStatusRevoked, K_revoked_at := Some 5\<rparr>]\<rparr>"
    by (simp add: Revoke_def Tx_def race_panel_def GetKey_def test_key_def new_key_def SetKeyStatus_def update_key_def
        update_where_def DeleteProfilesByKey_def delete_profiles_def dirtyKeyNodes_def ListKeyBindings_def)
  obtain db2 where db2: "Tx False (bindTx test_env 6 ?key 7 8) db1 = (Inr (), db2)"
    "profiles db2 = [new_profile test_env test_key 7 8]" "keys db2 = keys db1"
    by (simp add: Tx_def db1(2) race_panel_def bindTx_def GetNode_def test_node_def CountNodeProfiles_def CreateProfile_def
        new_profile_def CreateBinding_def GetKey_def test_key_def new_key_def SetNodeDirty_def)
  have p: "P_key (new_profile test_env test_key 7 8) = Some 1" and k: "GetKey 1 db2 =
      Some (test_key\<lparr>K_status := KeyStatusRevoked, K_revoked_at := Some 5\<rparr>)"
    using db2(3) by (simp_all add: new_profile_def test_key_def new_key_def GetKey_def db1(2))
  have "\<not> wf_profiles db2"
    using db2(2,3) p by (simp add: wf_profiles_def db1(2))
  then show ?thesis
    using key db1(1) db2(1,2) p k by (auto simp: wf_def)
qed

end
