(* ===== verification/Key_Import.thy ===== *)
theory Key_Import
  imports Key_Properties
begin

text \<open>
  Creation in bulk: what \<^verbatim>\<open>CreateBatch\<close> and \<^verbatim>\<open>Import\<close> add to the tables when they succeed, and
  when a secret is accepted for import.
\<close>

subsection \<open>One key\<close>

lemma createTx_adds:
  assumes "createTx env now inp r db = Inr (k, db')" "SubSlug inp = []"
  shows "keys db' = keys db @ [k]" "K_label k = Label inp" "K_owner k = OwnerLabel inp" "K_slug k = None"
    "\<exists>secret. Encrypt env (R_nonce r) secret = Some (K_secret_enc k) \<and>
       (if Secret inp = [] then R_secret r = Some secret else secret = Secret inp)"
proof -
  from assms obtain secret enc db1 u db2 tok db3 where
    sec: "Encrypt env (R_nonce r) secret = Some enc" "if Secret inp = [] then R_secret r = Some secret else secret = Secret inp"
    and db1: "CreateKey (new_key env inp (R_key r) enc) db = Inr db1"
    and db2: "bind_nodes env now (new_key env inp (R_key r) enc) (R_profile r) (NodeIDs inp) db1 = Inr (u, db2)"
    and db3: "issueSubscriptionTx env now r (R_key r) db2 = Inr (tok, db3)"
    and slug: "k = new_key env inp (R_key r) enc" "db' = db3"
    by (auto simp: createTx_def Let_def new_key_def set_new_slug_def split: option.splits sum.splits if_splits)
  have bind_keys: "bind_nodes env now key pids ns d = Inr (v, d') \<Longrightarrow> keys d' = keys d" for key pids ns d v d'
  proof (induction ns arbitrary: d)
    case (Cons n ns)
    then show ?case
      using bindTx_keys by (fastforce split: sum.splits)
  qed simp
  have "keys db3 = keys db2"
    using db3 by (rule issue_shape) simp
  moreover have "keys db2 = keys db1"
    using bind_keys [OF db2] .
  moreover have "keys db1 = keys db @ [new_key env inp (R_key r) enc]"
    using db1 by (auto simp: CreateKey_def split: if_splits)
  ultimately show "keys db' = keys db @ [k]"
    using slug by simp
  show "K_label k = Label inp" "K_owner k = OwnerLabel inp" "K_slug k = None"
    using slug by (simp_all add: new_key_def)
  show "\<exists>secret. Encrypt env (R_nonce r) secret = Some (K_secret_enc k) \<and>
       (if Secret inp = [] then R_secret r = Some secret else secret = Secret inp)"
    using sec slug by (auto simp: new_key_def)
qed

lemma create_each_adds:
  assumes "create_each chk env now items db = Inr (ks, db')" "\<forall>(inp, r) \<in> set items. SubSlug inp = []"
  shows "keys db' = keys db @ ks \<and> map K_label ks = map (Label \<circ> fst) items \<and> map K_owner ks = map (OwnerLabel \<circ> fst) items \<and>
    list_all2 (\<lambda>k (inp, r). \<exists>secret. Encrypt env (R_nonce r) secret = Some (K_secret_enc k) \<and>
       (if Secret inp = [] then R_secret r = Some secret else secret = Secret inp)) ks items"
  using assms
proof (induction items arbitrary: db ks)
  case (Cons it items)
  obtain inp r where it: "it = (inp, r)" by fastforce
  with Cons.prems(1) obtain k db1 ks' where k: "createTx env now inp r db = Inr (k, db1)"
    and rest: "create_each chk env now items db1 = Inr (ks', db')" and ks: "ks = k # ks'"
    by (auto split: option.splits sum.splits)
  have "SubSlug inp = []"
    using Cons.prems(2) it by simp
  from createTx_adds [OF k this] Cons.IH [OF rest] Cons.prems(2) it ks show ?case
    by simp
qed simp

subsection \<open>Import\<close>

definition item_secret :: "ImportItem \<Rightarrow> string" where
  "item_secret it = fst (NormalizeSecret (I_Secret it))"

lemma check_items_ok:
  assumes "check_items i items seen = ([], seen')"
  shows "distinct (map item_secret items) \<and> (\<forall>it \<in> set items. secretRe (item_secret it) \<and> TrimSpace (I_Label it) \<noteq> []) \<and>
    item_secret ` set items \<inter> dom (map_of seen) = {} \<and> dom (map_of seen') = dom (map_of seen) \<union> item_secret ` set items"
  using assms
proof (induction items arbitrary: i seen)
  case (Cons it items)
  obtain secret ok where n: "NormalizeSecret (I_Secret it) = (secret, ok)" by fastforce
  obtain ve s where rec: "check_items (Suc i) items ((secret, i) # seen) = (ve, s)" by fastforce
  have c: "TrimSpace (I_Label it) \<noteq> []" "ok" "map_of seen secret = None" "ve = []" "s = seen'"
    using Cons.prems n rec by (auto simp: Let_def split: if_splits prod.splits option.splits)
  moreover have "secretRe secret = ok" "item_secret it = secret"
    using n by (auto simp: NormalizeSecret_def item_secret_def Let_def)
  moreover note Cons.IH [of "Suc i" "(secret, i) # seen"]
  ultimately show ?case
    using rec by (auto simp: dom_def)
qed simp

lemma taken_none:
  assumes "taken_secrets env seen db = []" "enc \<in> set (ListSecretsInUse db)" "Decrypt env enc = Some plain"
  shows "plain \<notin> dom (map_of seen)"
proof -
  have none: "List.map_filter f xs = [] \<longleftrightarrow> (\<forall>x \<in> set xs. f x = None)" for f :: "string \<Rightarrow> (string \<times> string) option" and xs
    by (induction xs) (auto simp: map_filter_simps split: option.splits)
  have "\<forall>enc \<in> set (ListSecretsInUse db). (case Decrypt env enc of None \<Rightarrow> None | Some plain \<Rightarrow> (case map_of seen plain of
      None \<Rightarrow> None | Some i \<Rightarrow> Some (''items.'' @ digits_of i, ''secret already belongs to another user''))) = None"
    using assms(1) by (simp only: taken_secrets_def none)
  from bspec [OF this assms(2)] show ?thesis
    using assms(3) by (auto split: option.splits)
qed

definition box_ok :: "key_env \<Rightarrow> bool" where
  "box_ok env \<longleftrightarrow> (\<forall>n s c. Encrypt env n s = Some c \<longrightarrow> Decrypt env c = Some s)"

text \<open>An accepted secret: not empty, so the item never falls back to a generated one.\<close>

lemma import_items_secrets:
  assumes "box_ok env"
    and "list_all2 (\<lambda>k (inp, r). \<exists>secret. Encrypt env (R_nonce r) secret = Some (K_secret_enc k) \<and>
       (if Secret inp = [] then R_secret r = Some secret else secret = Secret inp)) ks (with_rand (map (import_item inp) items) rs)"
    and "\<forall>it \<in> set items. secretRe (item_secret it)"
  shows "map (\<lambda>k. Decrypt env (K_secret_enc k)) ks = map (Some \<circ> item_secret) items"
proof (rule nth_equalityI)
  have len: "length ks = length items"
    using list_all2_lengthD [OF assms(2)] by (simp add: with_rand_def)
  then show "length (map (\<lambda>k. Decrypt env (K_secret_enc k)) ks) = length (map (Some \<circ> item_secret) items)"
    by simp
  fix j assume "j < length (map (\<lambda>k. Decrypt env (K_secret_enc k)) ks)"
  then have j: "j < length items" "j < length ks"
    using len by simp_all
  have "item_secret (items ! j) \<noteq> []"
    using assms(3) j(1) nth_mem by (fastforce simp: secretRe_def)
  moreover have "Secret (import_item inp (items ! j)) = item_secret (items ! j)"
    by (simp add: import_item_def item_secret_def)
  ultimately have "\<exists>n. Encrypt env n (item_secret (items ! j)) = Some (K_secret_enc (ks ! j))"
    using list_all2_nthD [OF assms(2) j(2)] j(1) by (auto simp: with_rand_def)
  then show "map (\<lambda>k. Decrypt env (K_secret_enc k)) ks ! j = map (Some \<circ> item_secret) items ! j"
    using assms(1) j by (auto simp: box_ok_def)
qed

text \<open> C21:
  A successful import adds exactly one key per item, in order, with the item's trimmed names and
  its own secret in normal form; the secrets are 32 hexadecimal digits, pairwise distinct, and
  none of them was the secret of a live key or of a profile without a key. (A failed import
  changes nothing.)
\<close>

theorem import_adds_distinct_secrets:
  assumes "box_ok env" "Import env now faulty inp items rs db = (Inr ks, db')"
  shows "keys db' = keys db @ ks \<and>
    map (\<lambda>k. Decrypt env (K_secret_enc k)) ks = map (Some \<circ> item_secret) items \<and>
    map K_label ks = map (TrimSpace \<circ> I_Label) items \<and> map K_owner ks = map (TrimSpace \<circ> I_OwnerLabel) items \<and>
    distinct (map item_secret items) \<and> (\<forall>it \<in> set items. secretRe (item_secret it)) \<and>
    (\<forall>enc \<in> set (ListSecretsInUse db). \<forall>it \<in> set items. Decrypt env enc \<noteq> Some (item_secret it)) \<and>
    0 < length items \<and> length items \<le> 500"
proof -
  obtain seen where chk: "check_items 0 items [] = ([], seen)"
    and size: "items \<noteq> []" "length items \<le> MaxImport"
    and taken: "taken_secrets env seen db = []"
    and each: "create_each (\<lambda>_. None) env now (with_rand (map (import_item inp) items) rs) db = Inr (ks, db')"
    using assms(2) unfolding Import_def
    by (auto simp: Tx_def split: if_splits prod.splits option.splits sum.splits)
  have "\<forall>(inp, r) \<in> set (with_rand (map (import_item inp) items) rs). SubSlug inp = []"
    by (auto simp: with_rand_def import_item_def set_zip)
  note adds = create_each_adds [OF each this] and items = check_items_ok [OF chk]
  have fst: "map (f \<circ> fst) (with_rand xs rs) = map f xs" for f :: "CreateInput \<Rightarrow> string" and xs
    by (simp add: with_rand_def flip: map_map)
  have "map K_label ks = map Label (map (import_item inp) items)" "map K_owner ks = map OwnerLabel (map (import_item inp) items)"
    using adds fst by metis+
  then have "map K_label ks = map (TrimSpace \<circ> I_Label) items" "map K_owner ks = map (TrimSpace \<circ> I_OwnerLabel) items"
    by (simp_all add: import_item_def)
  moreover have "\<forall>enc \<in> set (ListSecretsInUse db). \<forall>it \<in> set items. Decrypt env enc \<noteq> Some (item_secret it)"
    using taken_none [OF taken] items by fastforce
  moreover have "map (\<lambda>k. Decrypt env (K_secret_enc k)) ks = map (Some \<circ> item_secret) items"
    using items by (intro import_items_secrets [OF assms(1) conjunct2 [OF conjunct2 [OF conjunct2 [OF adds]]]]) blast
  ultimately show ?thesis
    using adds items size by (simp add: MaxImport_def)
qed

definition test_item :: ImportItem where
  "test_item = \<lparr>I_Label = ''a '', I_OwnerLabel = [], I_Secret = '' 0123456789ABCDEF0123456789abcdef''\<rparr>"

lemma import_adds_distinct_secrets_witness:
  "\<exists>ks db'. Import test_env 0 False test_input [test_item] test_rand (fresh_panel [test_node 7]) = (Inr ks, db') \<and>
     map (\<lambda>k. Decrypt test_env (K_secret_enc k)) ks = [Some ''0123456789abcdef0123456789abcdef'']"
proof -
  have box: "box_ok test_env"
    by (auto simp: box_ok_def test_env_def)
  have norm: "NormalizeSecret '' 0123456789ABCDEF0123456789abcdef'' = (''0123456789abcdef0123456789abcdef'', True)"
    by code_simp
  have trim: "TrimSpace ''a '' = ''a''" "TrimSpace [] = []"
    by code_simp+
  have chk: "check_items 0 [test_item] [] = ([], [(''0123456789abcdef0123456789abcdef'', 0)])"
    using norm trim by (simp add: test_item_def)
  have val: "validate test_env 0 True (test_input\<lparr>SubSlug := [], Label := I_Label (test_item)\<rparr>) = None"
    by code_simp
  have item: "import_item test_input (test_item) =
      test_input\<lparr>Label := ''a'', OwnerLabel := [], Secret := ''0123456789abcdef0123456789abcdef''\<rparr>"
    by (simp add: import_item_def test_item_def norm trim test_input_def)
  have "createTx test_env 0 (import_item test_input (test_item)) (test_rand 0) (fresh_panel [test_node 7]) \<noteq> Inl e" for e
    unfolding item by (simp add: createTx_def test_input_def test_env_def test_rand_def new_key_def CreateKey_def fresh_panel_def Let_def
        bindTx_def GetNode_def test_node_def CountNodeProfiles_def CreateProfile_def new_profile_def CreateBinding_def GetKey_def
        SetNodeDirty_def update_where_def issueSubscriptionTx_def CreateSubscriptionToken_def RevokeSubscriptionTokensForKey_def
        set_new_slug_def)
  then obtain k db' where k: "createTx test_env 0 (import_item test_input (test_item)) (test_rand 0)
      (fresh_panel [test_node 7]) = Inr (k, db')"
    by (metis old.prod.exhaust old.sum.exhaust)
  have "Import test_env 0 False test_input [test_item] test_rand (fresh_panel [test_node 7]) = (Inr [k], db')"
  proof -
    have "checkCapacity test_env (NodeIDs test_input) (int (length [test_item])) (fresh_panel [test_node 7]) = None"
      by (simp add: test_input_def GetNode_def test_node_def CountNodeProfiles_def fresh_panel_def)
    moreover have "taken_secrets test_env [(''0123456789abcdef0123456789abcdef'', 0)] (fresh_panel [test_node 7]) = []"
      by (simp add: taken_secrets_def ListSecretsInUse_def fresh_panel_def map_filter_simps)
    moreover have "with_rand (map (import_item test_input) [test_item]) test_rand = [(import_item test_input test_item, test_rand 0)]"
      by (simp add: with_rand_def)
    ultimately show ?thesis
      using val k unfolding Import_def chk by (simp add: Tx_def MaxImport_def)
  qed
  note ks = this
  from import_adds_distinct_secrets [OF box ks] ks norm show ?thesis
    by (auto simp: test_item_def item_secret_def)
qed

end
