(* ===== verification/Encodings.thy ===== *)
theory Encodings
  imports Go_Strings
begin

text \<open>
  The text encodings of the standard library that links are built from: \<^verbatim>\<open>hex.EncodeToString\<close>
  and \<^verbatim>\<open>hex.DecodeString\<close>, \<^verbatim>\<open>base64.RawURLEncoding\<close>, \<^verbatim>\<open>url.QueryEscape\<close> and
  \<^verbatim>\<open>url.QueryUnescape\<close>. Each is a codec: what it writes reads back.
\<close>

locale codec =
  fixes enc :: "'a \<Rightarrow> string"
    and dec :: "string \<Rightarrow> 'a option"
  assumes decodes: "dec (enc x) = Some x"
begin

lemma enc_inj: "enc x = enc y \<longleftrightarrow> x = y"
  by (metis decodes option.inject)

end

subsection \<open>Hexadecimal\<close>

definition code :: "char \<Rightarrow> nat" where
  "code c = of_char c"

lemma code_less: "code c < 256"
  by (simp add: code_def)

lemma char_of_code [simp]: "char_of (code c) = c"
  by (simp add: code_def)

definition hex_digit :: "nat \<Rightarrow> char" where
  "hex_digit n = (if n < 10 then char_of (48 + n) else char_of (87 + n))"

definition HEX_digit :: "nat \<Rightarrow> char" where
  "HEX_digit n = (if n < 10 then char_of (48 + n) else char_of (55 + n))"

definition unhex :: "char \<Rightarrow> nat option" where
  "unhex c =
     (let n = code c
      in if 48 \<le> n \<and> n \<le> 57 then Some (n - 48)
         else if 97 \<le> n \<and> n \<le> 102 then Some (n - 87)
         else if 65 \<le> n \<and> n \<le> 70 then Some (n - 55)
         else None)"

fun hex_EncodeToString :: "string \<Rightarrow> string" where
  "hex_EncodeToString [] = []"
| "hex_EncodeToString (c # s) = hex_digit (code c div 16) # hex_digit (code c mod 16) # hex_EncodeToString s"

fun hex_DecodeString :: "string \<Rightarrow> string option" where
  "hex_DecodeString [] = Some []"
| "hex_DecodeString [c] = None"
| "hex_DecodeString (a # b # s) =
     (case (unhex a, unhex b, hex_DecodeString s) of
        (Some x, Some y, Some t) \<Rightarrow> Some (char_of (16 * x + y) # t)
      | _ \<Rightarrow> None)"

lemma code_char_of: "n < 256 \<Longrightarrow> code (char_of n) = n"
  by (simp add: code_def)

lemma unhex_digits: "n < 16 \<Longrightarrow> unhex (hex_digit n) = Some n \<and> unhex (HEX_digit n) = Some n"
  by (auto simp: unhex_def hex_digit_def HEX_digit_def code_char_of)

lemma code_split: "char_of (16 * (code c div 16) + code c mod 16) = c"
  by (simp only: mult_div_mod_eq char_of_code)

lemma hex_digit_bounds: "code c div 16 < 16" "code c mod 16 < 16"
  using code_less [of c] by auto

interpretation hexcodec: codec hex_EncodeToString hex_DecodeString
proof
  show "hex_DecodeString (hex_EncodeToString s) = Some s" for s
    by (induction s) (simp_all add: unhex_digits hex_digit_bounds code_split)
qed

lemma length_hex [simp]: "length (hex_EncodeToString s) = 2 * length s"
  by (induction s) simp_all

subsection \<open>Query escaping\<close>

definition query_safe :: "char \<Rightarrow> bool" where
  "query_safe c \<longleftrightarrow> is_lower c \<or> is_upper c \<or> is_digit c \<or> c \<in> {CHR ''-'', CHR ''_'', CHR ''.'', CHR ''~''}"

definition escape_char :: "char \<Rightarrow> string" where
  "escape_char c =
     (if query_safe c then [c]
      else if c = CHR '' '' then ''+''
      else [CHR ''%'', HEX_digit (code c div 16), HEX_digit (code c mod 16)])"

definition QueryEscape :: "string \<Rightarrow> string" where
  "QueryEscape s = concat (map escape_char s)"

fun QueryUnescape :: "string \<Rightarrow> string option" where
  "QueryUnescape [] = Some []"
| "QueryUnescape (c # s) =
     (if c = CHR ''%'' then
        (case s of
           a # b # t \<Rightarrow> (case (unhex a, unhex b, QueryUnescape t) of
              (Some x, Some y, Some u) \<Rightarrow> Some (char_of (16 * x + y) # u) | _ \<Rightarrow> None)
         | _ \<Rightarrow> None)
      else map_option ((#) (if c = CHR ''+'' then CHR '' '' else c)) (QueryUnescape s))"

lemma query_safe_plain: "query_safe c \<Longrightarrow> c \<noteq> CHR ''%'' \<and> c \<noteq> CHR ''+'' \<and> c \<noteq> CHR ''&'' \<and> c \<noteq> CHR ''=''"
  by (auto simp: query_safe_def is_lower_def is_upper_def is_digit_def)

lemma unescape_char: "QueryUnescape (escape_char c @ s) = map_option ((#) c) (QueryUnescape s)"
  using query_safe_plain [of c]
  by (auto simp: escape_char_def unhex_digits hex_digit_bounds code_split split: option.splits)

interpretation querycodec: codec QueryEscape QueryUnescape
proof
  show "QueryUnescape (QueryEscape s) = Some s" for s
    by (induction s) (simp_all add: QueryEscape_def unescape_char)
qed

lemma HEX_digit_plain:
  assumes "n < 16"
  shows "HEX_digit n \<noteq> CHR ''&'' \<and> HEX_digit n \<noteq> CHR ''=''"
proof -
  have "unhex (HEX_digit n) \<noteq> None" using unhex_digits [OF assms] by simp
  moreover have "unhex (CHR ''&'') = None" "unhex (CHR ''='') = None" by (simp_all add: unhex_def code_def)
  ultimately show ?thesis by metis
qed

lemma QueryEscape_plain: "CHR ''&'' \<notin> set (QueryEscape s)" "CHR ''='' \<notin> set (QueryEscape s)"
proof -
  have "CHR ''&'' \<notin> set (escape_char c) \<and> CHR ''='' \<notin> set (escape_char c)" for c
    using query_safe_plain [of c] HEX_digit_plain [OF hex_digit_bounds(1), of c] HEX_digit_plain [OF hex_digit_bounds(2), of c]
    by (auto simp: escape_char_def)
  then show "CHR ''&'' \<notin> set (QueryEscape s)" "CHR ''='' \<notin> set (QueryEscape s)"
    by (auto simp: QueryEscape_def)
qed

subsection \<open>Base64 without padding, in the URL alphabet\<close>

definition b64_alphabet :: string where
  "b64_alphabet = ''ABCDEFGHIJKLMNOPQRSTUVWXYZabcdefghijklmnopqrstuvwxyz0123456789-_''"

definition b64_char :: "nat \<Rightarrow> char" where
  "b64_char n = b64_alphabet ! n"

fun index_of :: "'a \<Rightarrow> 'a list \<Rightarrow> nat option" where
  "index_of x [] = None"
| "index_of x (y # ys) = (if x = y then Some 0 else map_option Suc (index_of x ys))"

definition b64_value :: "char \<Rightarrow> nat option" where
  "b64_value c = index_of c b64_alphabet"

fun RawURL_encode :: "string \<Rightarrow> string" where
  "RawURL_encode [] = []"
| "RawURL_encode [a] = [b64_char (code a div 4), b64_char (code a mod 4 * 16)]"
| "RawURL_encode [a, b] =
     [b64_char (code a div 4), b64_char (code a mod 4 * 16 + code b div 16), b64_char (code b mod 16 * 4)]"
| "RawURL_encode (a # b # c # s) =
     b64_char (code a div 4) # b64_char (code a mod 4 * 16 + code b div 16) #
     b64_char (code b mod 16 * 4 + code c div 64) # b64_char (code c mod 64) # RawURL_encode s"

text \<open>Like Go's decoder, trailing bits that encode no byte are dropped.\<close>

fun sextets :: "nat list \<Rightarrow> string option" where
  "sextets [] = Some []"
| "sextets [p] = None"
| "sextets [p, q] = Some [char_of (p * 4 + q div 16)]"
| "sextets [p, q, r] = Some [char_of (p * 4 + q div 16), char_of (q mod 16 * 16 + r div 4)]"
| "sextets (p # q # r # t # s) =
     map_option (\<lambda>u. char_of (p * 4 + q div 16) # char_of (q mod 16 * 16 + r div 4) # char_of (r mod 4 * 64 + t) # u)
       (sextets s)"

fun all_some :: "'a option list \<Rightarrow> 'a list option" where
  "all_some [] = Some []"
| "all_some (None # xs) = None"
| "all_some (Some x # xs) = map_option ((#) x) (all_some xs)"

definition RawURL_decode :: "string \<Rightarrow> string option" where
  "RawURL_decode s = Option.bind (all_some (map b64_value s)) sextets"

lemma index_of_nth: "distinct xs \<Longrightarrow> n < length xs \<Longrightarrow> index_of (xs ! n) xs = Some n"
proof (induction xs arbitrary: n)
  case (Cons x xs)
  then show ?case by (cases n) auto
qed simp

lemma b64_value_char: "n < 64 \<Longrightarrow> b64_value (b64_char n) = Some n"
  unfolding b64_value_def b64_char_def by (rule index_of_nth) (simp_all add: b64_alphabet_def)

lemma div_mod_facts:
  "code a div 4 < 64" "code a mod 4 < 4" "code a div 16 < 16" "code a mod 16 < 16" "code a div 64 < 4" "code a mod 64 < 64"
  using code_less [of a] by (simp_all add: less_mult_imp_div_less)

lemma b64_bounds:
  "code a div 4 < 64" "code a mod 4 * 16 < 64" "code a mod 4 * 16 + code b div 16 < 64" "code b mod 16 * 4 < 64"
  "code b mod 16 * 4 + code c div 64 < 64" "code c mod 64 < 64"
  using div_mod_facts [of a] div_mod_facts [of b] div_mod_facts [of c] by linarith+

text \<open>How two neighbouring groups share the bits of a byte.\<close>

lemma shared_bits:
  fixes q r k m :: nat
  assumes "r < k"
  shows "(q * k + r) div k = q" "(q * k + r) mod k = r"
  using assms by simp_all

lemma b64_joins:
  "code a div 4 * 4 + code a mod 4 * 16 div 16 = code a"
  "code a div 4 * 4 + (code a mod 4 * 16 + code b div 16) div 16 = code a"
  "(code a mod 4 * 16 + code b div 16) mod 16 * 16 + code b mod 16 * 4 div 4 = code b"
  "(code a mod 4 * 16 + code b div 16) mod 16 * 16 + (code b mod 16 * 4 + code c div 64) div 4 = code b"
  "(code b mod 16 * 4 + code c div 64) mod 4 * 64 + code c mod 64 = code c"
  by (simp_all only: shared_bits [OF div_mod_facts(3)] shared_bits [OF div_mod_facts(5)] nonzero_mult_div_cancel_right
       zero_neq_numeral numeral_neq_zero div_mult_mod_eq not_False_eq_True simp_thms)

interpretation rawurlcodec: codec RawURL_encode RawURL_decode
proof
  show "RawURL_decode (RawURL_encode s) = Some s" for s
  proof (induction s rule: RawURL_encode.induct)
    case (4 a b c s)
    then obtain ns where "all_some (map b64_value (RawURL_encode s)) = Some ns" and "sextets ns = Some s"
      by (auto simp: RawURL_decode_def bind_eq_Some_conv)
    then show ?case
      by (simp only: RawURL_decode_def RawURL_encode.simps list.map b64_value_char b64_bounds all_some.simps
          option.map bind.bind_lunit sextets.simps b64_joins char_of_code)
  qed (simp_all only: RawURL_decode_def RawURL_encode.simps list.map b64_value_char b64_bounds all_some.simps
          option.map bind.bind_lunit sextets.simps b64_joins char_of_code)
qed

end
