(* ===== verification/Key_Links.thy ===== *)
theory Key_Links
  imports Encodings Key_Properties
begin

text \<open>
  The links of an access key: \<^verbatim>\<open>internal/qrlink/qrlink.go\<close> and the link half of
  \<^verbatim>\<open>internal/keys/service.go\<close>. A link is checked against the reading a client makes of it
  (\<open>read_link\<close>): it must give back the server, the secret and the masking domain it was
  built from.
\<close>

subsection \<open>Building links\<close>

definition webLinkParts :: "string \<Rightarrow> string \<Rightarrow> string list \<Rightarrow> string \<times> string" where
  "webLinkParts host secret basePath =
     (if basePath = [] \<or> hd basePath = [] then (host, secret)
      else case hex_DecodeString secret of
             None \<Rightarrow> (host, secret)
           | Some raw \<Rightarrow> (host @ ''/'' @ hd basePath, RawURL_encode (char_of (0x70 :: nat) # raw)))"

definition TMe :: "string \<Rightarrow> string \<Rightarrow> string list \<Rightarrow> string" where
  "TMe host secret basePath =
     (let (host', secret') = webLinkParts host secret basePath
      in ''https://t.me/webproxy?server='' @ QueryEscape host' @ ''&secret='' @ QueryEscape secret')"

definition Tg :: "string \<Rightarrow> string \<Rightarrow> string list \<Rightarrow> string" where
  "Tg host secret basePath =
     (let (host', secret') = webLinkParts host secret basePath
      in ''tg://webproxy?server='' @ QueryEscape host' @ ''&secret='' @ QueryEscape secret')"

definition FakeTLSSecret :: "string \<Rightarrow> string \<Rightarrow> string" where
  "FakeTLSSecret hexSecret host = ''ee'' @ hexSecret @ hex_EncodeToString host"

definition proxyQuery :: "string \<Rightarrow> int \<Rightarrow> string \<Rightarrow> string" where
  "proxyQuery host port secret =
     ''server='' @ QueryEscape host @ ''&port='' @ Itoa port @ ''&secret='' @ QueryEscape secret"

definition TMeProxy :: "string \<Rightarrow> int \<Rightarrow> string \<Rightarrow> string" where
  "TMeProxy host port secret = ''https://t.me/proxy?'' @ proxyQuery host port secret"

definition TgProxy :: "string \<Rightarrow> int \<Rightarrow> string \<Rightarrow> string" where
  "TgProxy host port secret = ''tg://proxy?'' @ proxyQuery host port secret"

datatype LinkKind = LinkWeb | LinkTLS

record KindLink =
  L_kind :: LinkKind
  L_domain :: string
  L_tme :: string
  L_tg :: string

record node_links =
  NL_node :: uuid
  NL_name :: string
  NL_hostname :: string
  NL_engine :: string
  NL_links :: "KindLink list"

record Link =
  LK_node :: uuid
  LK_name :: string
  LK_hostname :: string
  LK_kind :: LinkKind
  LK_domain :: string
  LK_tme :: string
  LK_tg :: string

record LinkTarget =
  LT_node :: uuid
  LT_name :: string
  LT_hostname :: string
  LT_engine :: string
  LT_tls_domain :: string
  LT_tls_domains :: "string list"
  LT_classic_port :: int
  LT_base_path :: string

definition tls_domains :: "LinkTarget \<Rightarrow> string list" where
  "tls_domains b =
     foldl (\<lambda>ds d. if d \<in> set ds then ds else ds @ [d]) [LT_tls_domain b] (LT_tls_domains b)"

definition web_link :: "LinkTarget \<Rightarrow> string \<Rightarrow> KindLink" where
  "web_link b secret =
     \<lparr>L_kind = LinkWeb, L_domain = [], L_tme = TMe (LT_hostname b) secret [LT_base_path b],
      L_tg = Tg (LT_hostname b) secret [LT_base_path b]\<rparr>"

definition tls_link :: "LinkTarget \<Rightarrow> string \<Rightarrow> string \<Rightarrow> KindLink" where
  "tls_link b secret d =
     (let fake = FakeTLSSecret secret d
      in \<lparr>L_kind = LinkTLS, L_domain = d, L_tme = TMeProxy (LT_hostname b) (LT_classic_port b) fake,
          L_tg = TgProxy (LT_hostname b) (LT_classic_port b) fake\<rparr>)"

definition LinksFor :: "LinkTarget \<Rightarrow> string \<Rightarrow> node_links" where
  "LinksFor b secret =
     \<lparr>NL_node = LT_node b, NL_name = LT_name b, NL_hostname = LT_hostname b, NL_engine = LT_engine b,
      NL_links = web_link b secret #
        (if LT_engine b = ''telemt'' \<and> LT_tls_domain b \<noteq> [] then map (tls_link b secret) (tls_domains b) else [])\<rparr>"

text \<open>
  The columns of a node that the statement reads for links are a function of the node; the
  statement's order is by \<open>sort_order\<close>, then creation time.
\<close>

record node_columns =
  NC_target :: LinkTarget
  NC_sort_order :: int
  NC_created_at :: gotime

definition ordered_bindings :: "(uuid \<Rightarrow> node_columns) \<Rightarrow> Binding list \<Rightarrow> Binding list" where
  "ordered_bindings cols bs =
     sort_key (\<lambda>b. NC_sort_order (cols (B_node b))) (sort_key (\<lambda>b. NC_created_at (cols (B_node b))) bs)"

definition NodeLinks :: "key_env \<Rightarrow> (uuid \<Rightarrow> node_columns) \<Rightarrow> bool \<Rightarrow> uuid \<Rightarrow> keydb \<Rightarrow> key_error + node_links list" where
  "NodeLinks env cols faulty keyID db =
     (case GetKey keyID db of
        None \<Rightarrow> Inl ErrNotFound
      | Some key \<Rightarrow>
          (case Decrypt env (K_secret_enc key) of
             None \<Rightarrow> Inl Fault
           | Some secret \<Rightarrow>
               if faulty then Inl Fault
               else Inr (map (\<lambda>b. LinksFor ((NC_target (cols (B_node b)))\<lparr>LT_node := B_node b\<rparr>) secret)
                          (ordered_bindings cols (ListKeyBindings keyID db)))))"

definition flat_link :: "node_links \<Rightarrow> KindLink \<Rightarrow> Link" where
  "flat_link g l =
     \<lparr>LK_node = NL_node g, LK_name = NL_name g, LK_hostname = NL_hostname g, LK_kind = L_kind l,
      LK_domain = L_domain l, LK_tme = L_tme l, LK_tg = L_tg l\<rparr>"

definition Links :: "key_env \<Rightarrow> (uuid \<Rightarrow> node_columns) \<Rightarrow> bool \<Rightarrow> uuid \<Rightarrow> keydb \<Rightarrow> key_error + Link list" where
  "Links env cols faulty keyID db =
     (case NodeLinks env cols faulty keyID db of
        Inl e \<Rightarrow> Inl e
      | Inr grouped \<Rightarrow> Inr (concat (map (\<lambda>g. map (flat_link g) (NL_links g)) grouped)))"

subsection \<open>How a client reads a link\<close>

fun cut :: "char \<Rightarrow> string \<Rightarrow> string \<times> string" where
  "cut sep [] = ([], [])"
| "cut sep (c # s) = (if c = sep then ([], s) else (let (a, b) = cut sep s in (c # a, b)))"

definition parse_query :: "string \<Rightarrow> (string \<times> string) list option" where
  "parse_query q =
     all_some (map (\<lambda>p. let (k, v) = cut (CHR ''='') p in map_option (Pair k) (QueryUnescape v)) (split_on (CHR ''&'') q))"

datatype link_dest =
    WebDest string string string
  | TlsDest string string string string

definition web_dest :: "string \<Rightarrow> string \<Rightarrow> link_dest option" where
  "web_dest server secret =
     (let (host, base) = cut (CHR ''/'') server
      in if base = [] then Some (WebDest host [] secret)
         else (case RawURL_decode secret of
                 Some (c # raw) \<Rightarrow>
                   if c = char_of (0x70 :: nat) then Some (WebDest host base (hex_EncodeToString raw)) else None
               | _ \<Rightarrow> None))"

definition tls_dest :: "string \<Rightarrow> string \<Rightarrow> string \<Rightarrow> link_dest option" where
  "tls_dest server port secret =
     (if HasPrefix secret ''ee''
      then map_option (TlsDest server port (take 32 (drop 2 secret))) (hex_DecodeString (drop 34 secret))
      else None)"

definition read_query :: "bool \<Rightarrow> string \<Rightarrow> link_dest option" where
  "read_query web q =
     (case parse_query q of
        None \<Rightarrow> None
      | Some fs \<Rightarrow>
          (case (map_of fs ''server'', map_of fs ''port'', map_of fs ''secret'') of
             (Some server, port, Some secret) \<Rightarrow>
               if web then web_dest server secret
               else (case port of None \<Rightarrow> None | Some p \<Rightarrow> tls_dest server p secret)
           | _ \<Rightarrow> None))"

definition read_link :: "string \<Rightarrow> link_dest option" where
  "read_link s =
     (let (scheme, q) = cut (CHR ''?'') s
      in if scheme = ''https://t.me/webproxy'' \<or> scheme = ''tg://webproxy'' then read_query True q
         else if scheme = ''https://t.me/proxy'' \<or> scheme = ''tg://proxy'' then read_query False q
         else None)"

subsection \<open>Reading back\<close>

lemma cut_append: "sep \<notin> set a \<Longrightarrow> cut sep (a @ sep # b) = (a, b)"
  by (induction a) auto

lemma cut_none: "sep \<notin> set a \<Longrightarrow> cut sep a = (a, [])"
  by (induction a) auto

lemma digits_plain: "c \<in> set (digits_of n) \<Longrightarrow> is_digit c"
proof (induction n rule: digits_of.induct)
  case (1 n)
  have "is_digit (char_of (48 + n mod 10))"
    by (simp add: is_digit_def Let_def)
  then show ?case
    using 1 by (subst (asm) (2) digits_of.simps) (auto simp: split: if_splits)
qed

lemma Itoa_plain: "c \<in> set (Itoa i) \<Longrightarrow> is_digit c \<or> c = CHR ''-''"
  using digits_plain by (auto simp: Itoa_def split: if_splits)

lemma Itoa_query: "CHR ''&'' \<notin> set (Itoa i)" "QueryUnescape (Itoa i) = Some (Itoa i)"
proof -
  show "CHR ''&'' \<notin> set (Itoa i)"
    using Itoa_plain [of "CHR ''&''" i] by (auto simp: is_digit_def)
  have safe: "list_all query_safe (Itoa i)"
    using Itoa_plain [of _ i] by (auto simp: list_all_iff query_safe_def)
  have "list_all query_safe s \<Longrightarrow> QueryUnescape s = Some s" for s
    using query_safe_plain by (induction s) auto
  with safe show "QueryUnescape (Itoa i) = Some (Itoa i)" by blast
qed

lemma parse_web_query:
  "parse_query (''server='' @ QueryEscape a @ ''&secret='' @ QueryEscape b) = Some [(''server'', a), (''secret'', b)]"
proof -
  have "split_on (CHR ''&'') ((''server='' @ QueryEscape a) @ CHR ''&'' # (''secret='' @ QueryEscape b)) =
     [''server='' @ QueryEscape a, ''secret='' @ QueryEscape b]"
    using QueryEscape_plain by (subst split_on_append) (auto simp: split_on_single)
  then show ?thesis
    by (simp add: parse_query_def querycodec.decodes)
qed

lemma parse_proxy_query:
  "parse_query (proxyQuery host port secret) = Some [(''server'', host), (''port'', Itoa port), (''secret'', secret)]"
proof -
  have "split_on (CHR ''&'') ((''server='' @ QueryEscape host) @ CHR ''&'' # (''port='' @ Itoa port) @
       CHR ''&'' # (''secret='' @ QueryEscape secret)) =
     [''server='' @ QueryEscape host, ''port='' @ Itoa port, ''secret='' @ QueryEscape secret]"
    using QueryEscape_plain Itoa_query(1)
    by (subst split_on_append, force, subst split_on_append, force) (auto simp: split_on_single)
  then show ?thesis
    by (simp add: parse_query_def proxyQuery_def querycodec.decodes Itoa_query(2))
qed

lemma hex_lower_digit: "is_hex_lower c \<Longrightarrow> \<exists>n. unhex c = Some n \<and> n < 16 \<and> hex_digit n = c"
  by (auto simp: is_hex_lower_def unhex_def hex_digit_def code_def Let_def)

lemma hex_decode_lower:
  assumes "list_all is_hex_lower s" "even (length s)"
  obtains raw where "hex_DecodeString s = Some raw" "hex_EncodeToString raw = s"
proof -
  have "\<exists>raw. hex_DecodeString s = Some raw \<and> hex_EncodeToString raw = s"
    using assms
  proof (induction s rule: hex_DecodeString.induct)
    case (3 a b s)
    then obtain raw where raw: "hex_DecodeString s = Some raw" "hex_EncodeToString raw = s" by auto
    from 3 obtain x y where "unhex a = Some x" "x < 16" "hex_digit x = a" "unhex b = Some y" "y < 16" "hex_digit y = b"
      using hex_lower_digit [of a] hex_lower_digit [of b] by auto
    with raw show ?case
      by (auto simp: code_char_of)
  qed simp_all
  then show ?thesis using that by blast
qed

lemma valid_secret_decodes:
  assumes "ValidateSecretHex secret"
  obtains raw where "hex_DecodeString secret = Some raw" "hex_EncodeToString raw = secret"
  using assms hex_decode_lower [of secret] by (auto simp: ValidateSecretHex_def secretRe_def)

lemma labelRe_chars: "labelRe w \<Longrightarrow> c \<in> set w \<Longrightarrow> label_edge c \<or> c = CHR ''-''"
proof -
  assume w: "labelRe w" and c: "c \<in> set w"
  show ?thesis
  proof (cases w)
    case (Cons d rest)
    with w c show ?thesis
      by (cases rest rule: rev_cases) (auto simp: labelRe_def list_all_iff)
  qed (use c in simp)
qed

lemma join_with_chars: "c \<in> set (join_with sep ws) \<Longrightarrow> c = sep \<or> (\<exists>w \<in> set ws. c \<in> set w)"
  by (induction sep ws rule: join_with.induct) auto

lemma hostname_no_slash: "ValidateHostname h \<Longrightarrow> CHR ''/'' \<notin> set h"
proof
  assume "ValidateHostname h" and "CHR ''/'' \<in> set h"
  then obtain ws where "list_all labelRe ws" "CHR ''/'' \<in> set (join_with (CHR ''.'') ws)"
    by (auto simp: ValidateHostname_iff)
  then obtain w where "labelRe w" "CHR ''/'' \<in> set w"
    using join_with_chars [of "CHR ''/''" "CHR ''.''" ws] by (auto simp: list_all_iff)
  then show False
    using labelRe_chars [of w "CHR ''/''"] by (simp add: label_edge_def is_lower_def is_digit_def)
qed

lemma web_dest_parts:
  assumes "ValidateHostname host" "ValidateSecretHex secret"
  shows "(case webLinkParts host secret [base] of (a, b) \<Rightarrow> web_dest a b) = Some (WebDest host base secret)"
proof (cases "base = []")
  case True
  then show ?thesis
    using cut_none [OF hostname_no_slash [OF assms(1)]] by (simp add: webLinkParts_def web_dest_def)
next
  case False
  obtain raw where raw: "hex_DecodeString secret = Some raw" "hex_EncodeToString raw = secret"
    using valid_secret_decodes [OF assms(2)] .
  have "webLinkParts host secret [base] = (host @ CHR ''/'' # base, RawURL_encode (char_of (0x70 :: nat) # raw))"
    using False raw(1) by (simp add: webLinkParts_def)
  then show ?thesis
    using False raw(2) cut_append [OF hostname_no_slash [OF assms(1)], of base]
    by (simp add: web_dest_def rawurlcodec.decodes del: RawURL_encode.simps)
qed

lemma read_web_link:
  assumes "ValidateHostname (LT_hostname b)" "ValidateSecretHex secret"
  shows "read_link (L_tme (web_link b secret)) = Some (WebDest (LT_hostname b) (LT_base_path b) secret)"
    "read_link (L_tg (web_link b secret)) = Some (WebDest (LT_hostname b) (LT_base_path b) secret)"
  using web_dest_parts [OF assms, of "LT_base_path b"]
  by (cases "webLinkParts (LT_hostname b) secret [LT_base_path b]";
      simp add: web_link_def TMe_def Tg_def read_link_def read_query_def parse_web_query [simplified])+

lemma tls_dest_fake:
  assumes "ValidateSecretHex secret"
  shows "tls_dest server port (FakeTLSSecret secret d) = Some (TlsDest server port secret d)"
  using assms by (simp add: tls_dest_def FakeTLSSecret_def HasPrefix_def ValidateSecretHex_def secretRe_def hexcodec.decodes)

lemma read_tls_link:
  assumes "ValidateSecretHex secret"
  shows "read_link (L_tme (tls_link b secret d)) = Some (TlsDest (LT_hostname b) (Itoa (LT_classic_port b)) secret d)"
    "read_link (L_tg (tls_link b secret d)) = Some (TlsDest (LT_hostname b) (Itoa (LT_classic_port b)) secret d)"
  using tls_dest_fake [OF assms]
  by (simp_all add: tls_link_def TMeProxy_def TgProxy_def read_link_def read_query_def parse_proxy_query Let_def)

lemma tls_domains_fold:
  "distinct ds \<Longrightarrow>
     distinct (foldl (\<lambda>ds d. if d \<in> set ds then ds else ds @ [d]) ds es) \<and>
     set (foldl (\<lambda>ds d. if d \<in> set ds then ds else ds @ [d]) ds es) = set ds \<union> set es \<and>
     (ds \<noteq> [] \<longrightarrow> hd (foldl (\<lambda>ds d. if d \<in> set ds then ds else ds @ [d]) ds es) = hd ds)"
  by (induction es arbitrary: ds) auto

lemma tls_domains_spec:
  "distinct (tls_domains b)" "set (tls_domains b) = insert (LT_tls_domain b) (set (LT_tls_domains b))"
  "hd (tls_domains b) = LT_tls_domain b"
  using tls_domains_fold [of "[LT_tls_domain b]" "LT_tls_domains b"] by (simp_all add: tls_domains_def)

lemma set_ordered_bindings [simp]: "set (ordered_bindings cols bs) = set bs"
  by (simp add: ordered_bindings_def)

fun dest_host :: "link_dest \<Rightarrow> string" where
  "dest_host (WebDest h _ _) = h"
| "dest_host (TlsDest h _ _ _) = h"

fun dest_secret :: "link_dest \<Rightarrow> string" where
  "dest_secret (WebDest _ _ s) = s"
| "dest_secret (TlsDest _ _ s _) = s"

lemma links_for_dest:
  assumes "ValidateHostname (LT_hostname b)" "ValidateSecretHex secret" "l \<in> set (NL_links (LinksFor b secret))"
  obtains d where "read_link (L_tme l) = Some d" "read_link (L_tg l) = Some d" "dest_host d = LT_hostname b" "dest_secret d = secret"
proof -
  from assms(3) consider "l = web_link b secret" | dom where "l = tls_link b secret dom"
    by (auto simp: LinksFor_def split: if_splits)
  then show ?thesis
    by cases (use that read_web_link [OF assms(1,2)] read_tls_link [OF assms(2), of b] in auto)
qed

subsection \<open>Properties\<close>

text \<open>
  C22: every link \<^verbatim>\<open>LinksFor\<close> builds, in the \<^verbatim>\<open>t.me\<close> and in the \<^verbatim>\<open>tg://\<close> form, reads back to
  what it was built from: the WEB link comes first and gives host, base path and secret; then,
  on a Telemt node with a TLS domain only, one Fake-TLS link per distinct domain, the primary
  domain first, giving host, port, secret and domain.
\<close>

theorem links_read_back:
  assumes "ValidateHostname (LT_hostname b)" and "ValidateSecretHex secret"
  shows "\<exists>ds. distinct ds \<and> set ds = insert (LT_tls_domain b) (set (LT_tls_domains b)) \<and> hd ds = LT_tls_domain b \<and>
     (\<forall>form \<in> {L_tme, L_tg}.
        map (read_link \<circ> form) (NL_links (LinksFor b secret)) =
          Some (WebDest (LT_hostname b) (LT_base_path b) secret) #
          (if LT_engine b = ''telemt'' \<and> LT_tls_domain b \<noteq> []
           then map (\<lambda>d. Some (TlsDest (LT_hostname b) (Itoa (LT_classic_port b)) secret d)) ds else []))"
  by (rule exI [of _ "tls_domains b"])
    (simp add: tls_domains_spec LinksFor_def read_web_link [OF assms] read_tls_link [OF assms(2)])

definition sample_target :: LinkTarget where
  "sample_target = \<lparr>LT_node = 7, LT_name = ''fra-1'', LT_hostname = ''a.example'', LT_engine = ''telemt'',
     LT_tls_domain = ''x.org'', LT_tls_domains = [''y.org'', ''x.org''], LT_classic_port = 443, LT_base_path = ''p''\<rparr>"

definition sample_secret :: string where
  "sample_secret = ''0123456789abcdef0123456789abcdef''"

lemma sample_valid: "ValidateHostname (LT_hostname sample_target)" "ValidateSecretHex sample_secret"
  by (simp_all add: sample_target_def sample_secret_def ValidateHostname_def ValidateSecretHex_def secretRe_def labelRe_def
      label_edge_def is_lower_def is_digit_def is_hex_lower_def)

lemma sample_target_fields:
  "LT_hostname sample_target = ''a.example''" "LT_engine sample_target = ''telemt''" "LT_tls_domain sample_target = ''x.org''"
  "LT_tls_domains sample_target = [''y.org'', ''x.org'']" "LT_classic_port sample_target = 443" "LT_base_path sample_target = ''p''"
  by (simp_all add: sample_target_def)

theorem links_read_back_witness:
  "\<exists>ds. set ds = {''x.org'', ''y.org''} \<and>
     map (read_link \<circ> L_tg) (NL_links (LinksFor sample_target sample_secret)) =
       Some (WebDest ''a.example'' ''p'' sample_secret) #
       map (\<lambda>d. Some (TlsDest ''a.example'' (Itoa 443) sample_secret d)) ds"
proof -
  have tg: "L_tg \<in> {L_tme, L_tg}" by simp
  obtain ds where ds: "set ds = insert (LT_tls_domain sample_target) (set (LT_tls_domains sample_target))"
    and forms: "\<forall>form \<in> {L_tme, L_tg}. map (read_link \<circ> form) (NL_links (LinksFor sample_target sample_secret)) =
          Some (WebDest (LT_hostname sample_target) (LT_base_path sample_target) sample_secret) #
          (if LT_engine sample_target = ''telemt'' \<and> LT_tls_domain sample_target \<noteq> []
           then map (\<lambda>d. Some (TlsDest (LT_hostname sample_target) (Itoa (LT_classic_port sample_target)) sample_secret d)) ds else [])"
    using links_read_back [OF sample_valid] by blast
  have "set ds = {''x.org'', ''y.org''}"
    unfolding ds sample_target_fields by (simp add: insert_commute)
  then show ?thesis
    using bspec [OF forms tg] unfolding sample_target_fields by (intro exI [of _ ds]) simp
qed

text \<open>
  C23: \<^verbatim>\<open>Links\<close> gives a link for exactly the nodes the key is bound to, and every one of them,
  in both forms, leads to the host of that node with the secret of the key.
\<close>

theorem key_links_lead_to_key:
  assumes "GetKey keyID db = Some key" and "Decrypt env (K_secret_enc key) = Some secret" and "ValidateSecretHex secret"
    and "\<forall>b \<in> set (ListKeyBindings keyID db). ValidateHostname (LT_hostname (NC_target (cols (B_node b))))"
  shows "\<exists>ls. Links env cols False keyID db = Inr ls \<and>
     LK_node ` set ls = B_node ` set (ListKeyBindings keyID db) \<and>
     (\<forall>l \<in> set ls. \<exists>d. read_link (LK_tme l) = Some d \<and> read_link (LK_tg l) = Some d \<and>
        dest_host d = LT_hostname (NC_target (cols (LK_node l))) \<and> dest_secret d = secret)"
proof -
  let ?bs = "ordered_bindings cols (ListKeyBindings keyID db)"
  let ?t = "\<lambda>b. (NC_target (cols (B_node b)))\<lparr>LT_node := B_node b\<rparr>"
  let ?ls = "concat (map (\<lambda>b. map (flat_link (LinksFor (?t b) secret)) (NL_links (LinksFor (?t b) secret))) ?bs)"
  have links: "Links env cols False keyID db = Inr ?ls"
    using assms(1,2) by (simp add: Links_def NodeLinks_def comp_def)
  have node: "LK_node (flat_link (LinksFor (?t b) secret) l) = B_node b" for b l
    by (simp add: flat_link_def LinksFor_def)
  have "LK_node ` set ?ls = B_node ` set (ListKeyBindings keyID db)"
    by (auto simp: node image_UN image_image) (auto simp: LinksFor_def intro!: bexI)
  moreover have "\<exists>d. read_link (LK_tme l) = Some d \<and> read_link (LK_tg l) = Some d \<and>
      dest_host d = LT_hostname (NC_target (cols (LK_node l))) \<and> dest_secret d = secret" if "l \<in> set ?ls" for l
  proof -
    from that obtain b k where b: "b \<in> set (ListKeyBindings keyID db)" "k \<in> set (NL_links (LinksFor (?t b) secret))"
      and l: "l = flat_link (LinksFor (?t b) secret) k" by auto
    have "ValidateHostname (LT_hostname (?t b))" using assms(4) b(1) by simp
    from links_for_dest [OF this assms(3) b(2)] obtain d where
      "read_link (L_tme k) = Some d" "read_link (L_tg k) = Some d" "dest_host d = LT_hostname (?t b)" "dest_secret d = secret" .
    then show ?thesis unfolding l by (simp add: node) (simp add: flat_link_def)
  qed
  ultimately show ?thesis using links by blast
qed

definition sample_env :: key_env where
  "sample_env = test_env\<lparr>Decrypt := \<lambda>_. Some sample_secret\<rparr>"

definition sample_cols :: "uuid \<Rightarrow> node_columns" where
  "sample_cols n = \<lparr>NC_target = sample_target, NC_sort_order = 0, NC_created_at = 0\<rparr>"

theorem key_links_lead_to_key_witness:
  "\<exists>ls. Links sample_env sample_cols False 1 bound_panel = Inr ls \<and> LK_node ` set ls = {7}"
proof -
  have "GetKey 1 bound_panel = Some test_key"
    by (simp add: GetKey_def bound_panel_def test_key_def new_key_def)
  moreover have "Decrypt sample_env (K_secret_enc test_key) = Some sample_secret"
    by (simp add: sample_env_def)
  moreover have "\<forall>b \<in> set (ListKeyBindings 1 bound_panel). ValidateHostname (LT_hostname (NC_target (sample_cols (B_node b))))"
    using sample_valid(1) by (simp add: sample_cols_def)
  moreover have "B_node ` set (ListKeyBindings 1 bound_panel) = {7}"
    by (simp add: ListKeyBindings_def bound_panel_def GetNode_def test_node_def new_profile_def)
  ultimately show ?thesis
    using key_links_lead_to_key [OF _ _ sample_valid(2), of 1 bound_panel test_key sample_env sample_cols] by auto
qed

end
