(* ===== verification/Agent_Disk.thy ===== *)
theory Agent_Disk
  imports Go_Strings
begin

text \<open>
  What the node agent acts on: the files of the node, the running Telemt and the network.
  \<^verbatim>\<open>internal/agent/files.go\<close> and the file helpers of \<^verbatim>\<open>upgraderun.go\<close>.

  A disk maps a path to the contents of the file there; owners and modes are left out. Every
  change of the disk is kept in \<open>dlog\<close>, so that the agent may be taken to stop, by a kill or a
  power failure, at any disk of the log. Everything outside the agent (Telemt and its control
  API, \<^verbatim>\<open>systemctl\<close>, the HTTP server, the clock, the faults of the file system) is a world
  \<open>'w\<close> no definition looks into, together with the operations of \<open>agent_env\<close> on it. Errors are
  their texts. Temporary files, which have random names and are removed by the function that
  made them, are represented by their contents.
\<close>

type_synonym path = string
type_synonym disk = "path \<Rightarrow> string option"
type_synonym failure = "string option"

datatype file_op =
    CreateOp path | RenameOp path | SyncDirOp path | OpenOp path | StatOp path | WriteOp path | ChmodOp path
  | ChownOp path | RemoveOp path | MkdirOp path | TempOp

text \<open>
  The part of Telemt's answers the agent reads. A failed readiness call carries the HTTP status
  when Telemt answered at all; a successful one says whether Telemt is ready, and why not.
\<close>

record WebDrainState =
  D_state :: string
  D_sessions :: nat
  D_streams :: nat
  D_websockets :: nat

record OperatorLifecycle =
  LC_state :: string
  LC_admission_open :: bool
  LC_drain :: "WebDrainState option"

record Capabilities =
  Cap_pause :: bool
  Cap_resume :: bool
  Cap_runtime :: bool
  Cap_drain :: bool
  Cap_drain_unknown :: bool

record tar_entry =
  TE_name :: string
  TE_regular :: bool
  TE_content :: string

record 'w agent_env =
  api_SystemInfo :: "'w \<Rightarrow> (string + string) \<times> 'w"
  api_Capabilities :: "'w \<Rightarrow> (string + Capabilities) \<times> 'w"
  api_WebStatus :: "'w \<Rightarrow> (string + OperatorLifecycle option) \<times> 'w"
  api_WebPause :: "'w \<Rightarrow> failure \<times> 'w"
  api_WebResume :: "'w \<Rightarrow> failure \<times> 'w"
  api_WebDrain :: "int \<Rightarrow> 'w \<Rightarrow> failure \<times> 'w"
  api_Ready :: "'w \<Rightarrow> ((string \<times> int option) + (bool \<times> string)) \<times> 'w"
  sys_restart :: "disk \<Rightarrow> 'w \<Rightarrow> failure \<times> 'w"
  check_decoy :: "'w \<Rightarrow> failure \<times> 'w"
  http_get :: "string \<Rightarrow> 'w \<Rightarrow> (string + nat \<times> string) \<times> 'w"
  select_wait :: "'w \<Rightarrow> failure \<times> 'w"
  past_deadline :: "'w \<Rightarrow> bool \<times> 'w"
  io_fault :: "file_op \<Rightarrow> 'w \<Rightarrow> failure \<times> 'w"
  clock :: "'w \<Rightarrow> gotime"
  tar_read :: "string \<Rightarrow> tar_entry list \<times> failure"
  sha256_hex :: "string \<Rightarrow> string"

record 'w machine =
  disk :: disk
  dlog :: "disk list"
  world :: 'w

definition set_disk :: "disk \<Rightarrow> ('w, 'z) machine_scheme \<Rightarrow> ('w, 'z) machine_scheme" where
  "set_disk d s = s\<lparr>disk := d, dlog := d # dlog s\<rparr>"

text \<open>A call that reaches outside changes the world only.\<close>

definition outside :: "('w \<Rightarrow> 'r \<times> 'w) \<Rightarrow> ('w, 'z) machine_scheme \<Rightarrow> 'r \<times> ('w, 'z) machine_scheme" where
  "outside f s = (let (r, w) = f (world s) in (r, s\<lparr>world := w\<rparr>))"

abbreviation fault :: "('w, 'e) agent_env_scheme \<Rightarrow> file_op \<Rightarrow> ('w, 'z) machine_scheme \<Rightarrow> failure \<times> ('w, 'z) machine_scheme" where
  "fault env op \<equiv> outside (io_fault env op)"

subsection \<open>Paths\<close>

text \<open>\<^verbatim>\<open>filepath.Join\<close>, \<^verbatim>\<open>Dir\<close> and \<^verbatim>\<open>Base\<close> on paths that are already clean.\<close>

definition Join :: "string \<Rightarrow> string \<Rightarrow> string" where
  "Join a b = a @ ''/'' @ b"

definition Base :: "string \<Rightarrow> string" where
  "Base p = rev (takeWhile (\<lambda>c. c \<noteq> CHR ''/'') (rev p))"

definition Dir :: "string \<Rightarrow> string" where
  "Dir p = rev (drop 1 (dropWhile (\<lambda>c. c \<noteq> CHR ''/'') (rev p)))"

subsection \<open>Reading and writing\<close>

datatype read_result = Missing | ReadError string | Contents string

definition ReadFile :: "('w, 'e) agent_env_scheme \<Rightarrow> path \<Rightarrow> ('w, 'z) machine_scheme \<Rightarrow> read_result \<times> ('w, 'z) machine_scheme" where
  "ReadFile env p s =
     (let (e, s1) = fault env (OpenOp p) s
      in (case disk s p of
            None \<Rightarrow> (Missing, s1)
          | Some b \<Rightarrow> (case e of Some x \<Rightarrow> (ReadError x, s1) | None \<Rightarrow> (Contents b, s1))))"

text \<open>
  The temporary file is complete before the rename replaces \<open>path\<close> in one step; when only
  the directory cannot be synced, the error comes after the replacement.
\<close>

definition writeAtomic :: "('w, 'e) agent_env_scheme \<Rightarrow> path \<Rightarrow> string \<Rightarrow> ('w, 'z) machine_scheme \<Rightarrow> failure \<times> ('w, 'z) machine_scheme" where
  "writeAtomic env p data s =
     (let (e1, s1) = fault env (CreateOp p) s
      in case e1 of Some x \<Rightarrow> (Some x, s1)
         | None \<Rightarrow>
             (let (e2, s2) = fault env (RenameOp p) s1
              in case e2 of Some x \<Rightarrow> (Some x, s2)
                 | None \<Rightarrow> fault env (SyncDirOp p) (set_disk ((disk s2)(p \<mapsto> data)) s2)))"

definition writeAtomicKeepOwner :: "('w, 'e) agent_env_scheme \<Rightarrow> path \<Rightarrow> string \<Rightarrow> ('w, 'z) machine_scheme \<Rightarrow> failure \<times> ('w, 'z) machine_scheme" where
  "writeAtomicKeepOwner env p data s =
     (case disk s p of
        None \<Rightarrow> writeAtomic env p data s
      | Some _ \<Rightarrow>
          (let (e, s1) = fault env (StatOp p) s
           in case e of Some x \<Rightarrow> (Some x, s1) | None \<Rightarrow> writeAtomic env p data s1))"

definition Remove :: "('w, 'e) agent_env_scheme \<Rightarrow> path \<Rightarrow> ('w, 'z) machine_scheme \<Rightarrow> failure \<times> ('w, 'z) machine_scheme" where
  "Remove env p s =
     (if disk s p = None then (Some (''remove '' @ p @ '': no such file or directory''), s)
      else let (e, s1) = fault env (RemoveOp p) s
           in case e of Some x \<Rightarrow> (Some x, s1) | None \<Rightarrow> (None, set_disk ((disk s1)(p := None)) s1))"

definition prev_of :: "path \<Rightarrow> path" where
  "prev_of p = p @ ''.prev''"

text \<open>
  \<^verbatim>\<open>os.OpenFile\<close> with \<^verbatim>\<open>O_TRUNC\<close> leaves an empty file until the copy that follows it.
\<close>

definition open_trunc :: "('w, 'e) agent_env_scheme \<Rightarrow> path \<Rightarrow> ('w, 'z) machine_scheme \<Rightarrow> failure \<times> ('w, 'z) machine_scheme" where
  "open_trunc env p s =
     (let (e, s1) = fault env (CreateOp p) s
      in case e of Some x \<Rightarrow> (Some x, s1) | None \<Rightarrow> (None, set_disk ((disk s1)(p \<mapsto> [])) s1))"

definition copy_to :: "('w, 'e) agent_env_scheme \<Rightarrow> path \<Rightarrow> string \<Rightarrow> ('w, 'z) machine_scheme \<Rightarrow> failure \<times> ('w, 'z) machine_scheme" where
  "copy_to env p data s =
     (let (e, s1) = fault env (WriteOp p) s
      in case e of Some x \<Rightarrow> (Some x, s1) | None \<Rightarrow> (None, set_disk ((disk s1)(p \<mapsto> data)) s1))"

definition backupFile :: "('w, 'e) agent_env_scheme \<Rightarrow> path \<Rightarrow> ('w, 'z) machine_scheme \<Rightarrow> (string + path) \<times> ('w, 'z) machine_scheme" where
  "backupFile env p s =
     (let (r, s1) = ReadFile env p s
      in case r of
           Missing \<Rightarrow> (Inr [], s1)
         | ReadError x \<Rightarrow> (Inl (''read '' @ p @ '': '' @ x), s1)
         | Contents b \<Rightarrow>
             (let (e2, s2) = fault env (StatOp p) s1
              in case e2 of Some x \<Rightarrow> (Inl (''stat '' @ p @ '': '' @ x), s2)
                 | None \<Rightarrow>
             (let (e3, s3) = open_trunc env (prev_of p) s2
              in case e3 of Some x \<Rightarrow> (Inl x, s3)
                 | None \<Rightarrow>
             (let (e4, s4) = copy_to env (prev_of p) b s3
              in case e4 of
                   Some x \<Rightarrow> (Inl (''keep a copy of '' @ p @ '': '' @ x), snd (Remove env (prev_of p) s4))
                 | None \<Rightarrow>
             (let (e5, s5) = fault env (ChownOp (prev_of p)) s4
              in case e5 of
                   Some x \<Rightarrow> (Inl (''preserve owner of '' @ p @ '': '' @ x), snd (Remove env (prev_of p) s5))
                 | None \<Rightarrow> (Inr (prev_of p), s5))))))"

definition restoreFile :: "('w, 'e) agent_env_scheme \<Rightarrow> path \<Rightarrow> path \<Rightarrow> ('w, 'z) machine_scheme \<Rightarrow> failure \<times> ('w, 'z) machine_scheme" where
  "restoreFile env prev p s =
     (if prev = [] then Remove env p s
      else case disk s prev of
             None \<Rightarrow> (Some (''stat '' @ prev @ '': no such file or directory''), s)
           | Some b \<Rightarrow>
               (let (e1, s1) = fault env (StatOp prev) s
                in case e1 of Some x \<Rightarrow> (Some x, s1)
                   | None \<Rightarrow>
                       (let (e2, s2) = fault env (RenameOp p) s1
                        in case e2 of Some x \<Rightarrow> (Some x, s2)
                           | None \<Rightarrow> fault env (ChmodOp p) (set_disk ((disk s2)(p \<mapsto> b, prev := None)) s2))))"

subsection \<open>What an operation may touch\<close>

text \<open>
  \<open>within A s s'\<close>: on the way from \<open>s\<close> to \<open>s'\<close> every disk agrees with that of \<open>s\<close> on all
  paths outside \<open>A\<close>. It is the frame condition of the file operations, and it composes.
\<close>

definition within :: "path set \<Rightarrow> ('w, 'z) machine_scheme \<Rightarrow> ('w, 'y) machine_scheme \<Rightarrow> bool" where
  "within A s s' \<longleftrightarrow>
     (\<exists>ds. dlog s' = ds @ dlog s \<and> (\<forall>d \<in> insert (disk s') (set ds). \<forall>p. p \<notin> A \<longrightarrow> d p = disk s p))"

named_theorems frame \<open>frame conditions of the operations on the machine\<close>

lemma within_refl [simp]: "within A s s"
  by (auto simp: within_def)

lemma within_trans: "within A s s1 \<Longrightarrow> within A s1 s2 \<Longrightarrow> within A s s2"
  by (fastforce simp: within_def)

lemma within_mono: "within A s s' \<Longrightarrow> A \<subseteq> B \<Longrightarrow> within B s s'"
  by (fastforce simp: within_def)

lemma within_disk: "within A s s' \<Longrightarrow> p \<notin> A \<Longrightarrow> disk s' p = disk s p"
  by (auto simp: within_def)

lemma within_empty_disk: "within {} s s' \<Longrightarrow> disk s' = disk s"
  by (auto simp: within_def)

lemma outside_simps [simp]:
  "disk (snd (outside f s)) = disk s" "dlog (snd (outside f s)) = dlog s" "machine.more (snd (outside f s)) = machine.more s"
  by (simp_all add: outside_def split_beta)

lemma set_disk_simps [simp]:
  "disk (set_disk d s) = d" "dlog (set_disk d s) = d # dlog s" "machine.more (set_disk d s) = machine.more s"
  by (simp_all add: set_disk_def)

lemma within_outside [frame]: "within A s (snd (outside f s))"
  by (simp add: within_def)

lemma within_eq: "disk s' = disk s \<Longrightarrow> dlog s' = dlog s \<Longrightarrow> within A s s'"
  by (simp add: within_def)

lemma within_update: "p \<in> A \<Longrightarrow> within A s s1 \<Longrightarrow> within A s (set_disk ((disk s1)(p := v)) s1)"
  by (fastforce simp: within_def)

lemma within_update2:
  "p \<in> A \<Longrightarrow> q \<in> A \<Longrightarrow> within A s s1 \<Longrightarrow> within A s (set_disk ((disk s1)(p := v, q := u)) s1)"
  by (fastforce simp: within_def)

lemma outside_pair: "outside f s = (r, s') \<Longrightarrow> disk s' = disk s \<and> dlog s' = dlog s \<and> machine.more s' = machine.more s"
  using outside_simps [of f s] by simp

lemma within_pair: "outside f s = (r, s') \<Longrightarrow> within A s s'"
  by (auto dest!: outside_pair intro: within_eq)

subsection \<open>Contracts of the file operations\<close>

lemma ReadFile_frame [simp]:
  "disk (snd (ReadFile env p s)) = disk s" "dlog (snd (ReadFile env p s)) = dlog s"
  "machine.more (snd (ReadFile env p s)) = machine.more s"
  by (auto simp: ReadFile_def Let_def split_beta split: option.splits)

lemma ReadFile_Contents: "fst (ReadFile env p s) = Contents b \<Longrightarrow> disk s p = Some b"
  by (auto simp: ReadFile_def Let_def split_beta split: option.splits)

lemma ReadFile_Missing: "fst (ReadFile env p s) = Missing \<longleftrightarrow> disk s p = None"
  by (auto simp: ReadFile_def Let_def split_beta split: option.splits)

lemma writeAtomic_cases:
  obtains "fst (writeAtomic env p data s) \<noteq> None" "disk (snd (writeAtomic env p data s)) = disk s"
      "dlog (snd (writeAtomic env p data s)) = dlog s"
    | "disk (snd (writeAtomic env p data s)) = (disk s)(p \<mapsto> data)"
      "dlog (snd (writeAtomic env p data s)) = (disk s)(p \<mapsto> data) # dlog s"
proof -
  obtain e1 s1 where 1: "fault env (CreateOp p) s = (e1, s1)" by fastforce
  obtain e2 s2 where 2: "fault env (RenameOp p) s1 = (e2, s2)" by fastforce
  note o = outside_pair [OF 1] outside_pair [OF 2]
  show ?thesis
    by (cases e1; cases e2) (use that o 1 2 in \<open>auto simp: writeAtomic_def Let_def\<close>)
qed

lemma writeAtomic_more [simp]: "machine.more (snd (writeAtomic env p data s)) = machine.more s"
  by (auto simp: writeAtomic_def Let_def split_beta split: option.splits)

lemma writeAtomic_ok: "fst (writeAtomic env p data s) = None \<Longrightarrow> disk (snd (writeAtomic env p data s)) = (disk s)(p \<mapsto> data)"
  by (rule writeAtomic_cases [of env p data s]) auto

lemma within_writeAtomic [frame]: "p \<in> A \<Longrightarrow> within A s (snd (writeAtomic env p data s))"
  by (rule writeAtomic_cases [of env p data s]) (auto simp: within_def)

lemma writeAtomicKeepOwner_as: "\<exists>s1. within {} s s1 \<and> machine.more s1 = machine.more s \<and>
    (snd (writeAtomicKeepOwner env p data s) = s1 \<and> fst (writeAtomicKeepOwner env p data s) \<noteq> None \<or>
     writeAtomicKeepOwner env p data s = writeAtomic env p data s1)"
proof (cases "disk s p")
  case None
  then show ?thesis by (auto simp: writeAtomicKeepOwner_def intro!: exI [of _ s])
next
  case (Some b)
  then show ?thesis
    by (cases "fst (fault env (StatOp p) s)")
      (auto simp: writeAtomicKeepOwner_def Let_def split_beta intro!: exI [of _ "snd (fault env (StatOp p) s)"] within_eq)
qed

lemma writeAtomicKeepOwner_more [simp]: "machine.more (snd (writeAtomicKeepOwner env p data s)) = machine.more s"
  using writeAtomicKeepOwner_as [of s env p data] by (metis writeAtomic_more)

lemma within_writeAtomicKeepOwner [frame]: "p \<in> A \<Longrightarrow> within A s (snd (writeAtomicKeepOwner env p data s))"
  using writeAtomicKeepOwner_as [of s env p data]
  by (metis within_trans within_mono within_writeAtomic empty_subsetI)

lemma writeAtomicKeepOwner_ok:
  "fst (writeAtomicKeepOwner env p data s) = None \<Longrightarrow> disk (snd (writeAtomicKeepOwner env p data s)) = (disk s)(p \<mapsto> data)"
  using writeAtomicKeepOwner_as [of s env p data] by (metis writeAtomic_ok within_empty_disk)

lemma Remove_frame:
  "machine.more (snd (Remove env p s)) = machine.more s" "p \<in> A \<Longrightarrow> within A s (snd (Remove env p s))"
  by (auto simp: Remove_def Let_def split_beta split: option.splits intro: within_outside simp: within_def)

lemma open_trunc_frame:
  "machine.more (snd (open_trunc env p s)) = machine.more s" "p \<in> A \<Longrightarrow> within A s (snd (open_trunc env p s))"
  by (auto simp: open_trunc_def Let_def split_beta split: option.splits intro: within_outside simp: within_def)

lemma copy_to_frame:
  "machine.more (snd (copy_to env p b s)) = machine.more s" "p \<in> A \<Longrightarrow> within A s (snd (copy_to env p b s))"
  "fst (copy_to env p b s) = None \<Longrightarrow> disk (snd (copy_to env p b s)) p = Some b"
  by (auto simp: copy_to_def Let_def split_beta split: option.splits intro: within_outside simp: within_def)

lemmas file_frames [frame] = Remove_frame(2) open_trunc_frame(2) copy_to_frame(2)
lemmas file_mores [simp] = Remove_frame(1) open_trunc_frame(1) copy_to_frame(1)

lemma restoreFile_frame:
  "machine.more (snd (restoreFile env prev p s)) = machine.more s"
  "p \<in> A \<Longrightarrow> prev \<in> A \<Longrightarrow> within A s (snd (restoreFile env prev p s))"
  "fst (restoreFile env prev p s) = None \<Longrightarrow> prev \<noteq> [] \<Longrightarrow> prev \<noteq> p \<Longrightarrow> disk (snd (restoreFile env prev p s)) p = disk s prev"
proof -
  obtain e1 s1 where 1: "fault env (StatOp prev) s = (e1, s1)" by fastforce
  obtain e2 s2 where 2: "fault env (RenameOp p) s1 = (e2, s2)" by fastforce
  note o = outside_pair [OF 1] outside_pair [OF 2]
  show "machine.more (snd (restoreFile env prev p s)) = machine.more s"
    using o 1 2 by (auto simp: restoreFile_def Let_def split: option.splits)
  show "fst (restoreFile env prev p s) = None \<Longrightarrow> prev \<noteq> [] \<Longrightarrow> prev \<noteq> p \<Longrightarrow> disk (snd (restoreFile env prev p s)) p = disk s prev"
    using o 1 2 by (auto simp: restoreFile_def Let_def split: option.splits)
  show "p \<in> A \<Longrightarrow> prev \<in> A \<Longrightarrow> within A s (snd (restoreFile env prev p s))"
    using o 1 2 by (auto simp: restoreFile_def Let_def within_def Remove_def split_beta split: option.splits)
qed

lemma backupFile_frame:
  "machine.more (snd (backupFile env p s)) = machine.more s"
  "prev_of p \<in> A \<Longrightarrow> within A s (snd (backupFile env p s))"
proof -
  show "machine.more (snd (backupFile env p s)) = machine.more s"
    by (auto simp: backupFile_def Let_def split_beta split: read_result.splits option.splits)
  assume A: "prev_of p \<in> A"
  have read: "within A s (snd (ReadFile env p s))" by (simp add: within_eq)
  note steps = within_outside [of A] open_trunc_frame(2) [OF A] copy_to_frame(2) [OF A] Remove_frame(2) [OF A]
  show "within A s (snd (backupFile env p s))"
    by (auto simp: backupFile_def Let_def split_beta split: read_result.splits option.splits
        intro!: read within_trans [OF _ steps(1)] within_trans [OF _ steps(2)] within_trans [OF _ steps(3)] within_trans [OF _ steps(4)])
qed

lemma backupFile_ok:
  assumes "fst (backupFile env p s) = Inr q"
  shows "q = [] \<and> disk s p = None \<or> q = prev_of p \<and> disk (snd (backupFile env p s)) q = disk s p \<and> disk s p \<noteq> None"
proof (cases "fst (ReadFile env p s)")
  case Missing
  then have "disk s p = None" by (simp add: ReadFile_Missing)
  moreover have "q = []" using assms Missing by (simp add: backupFile_def Let_def split_beta)
  ultimately show ?thesis by simp
next
  case (ReadError x)
  then show ?thesis using assms by (simp add: backupFile_def Let_def split_beta)
next
  case (Contents b)
  obtain s1 where 1: "ReadFile env p s = (Contents b, s1)" using Contents by (metis prod.collapse)
  obtain e2 s2 where 2: "fault env (StatOp p) s1 = (e2, s2)" by fastforce
  obtain e3 s3 where 3: "open_trunc env (prev_of p) s2 = (e3, s3)" by fastforce
  obtain e4 s4 where 4: "copy_to env (prev_of p) b s3 = (e4, s4)" by fastforce
  obtain e5 s5 where 5: "fault env (ChownOp (prev_of p)) s4 = (e5, s5)" by fastforce
  have "e2 = None" "e3 = None" "e4 = None" "e5 = None" and q: "q = prev_of p" "snd (backupFile env p s) = s5"
    using assms 1 2 3 4 5 by (auto simp: backupFile_def Let_def split: option.splits)
  moreover have "disk s4 (prev_of p) = Some b" using copy_to_frame(3) [of env "prev_of p" b s3] 4 \<open>e4 = None\<close> by simp
  ultimately have "disk s5 (prev_of p) = Some b" using outside_pair [OF 5] by simp
  then show ?thesis using q ReadFile_Contents [OF Contents] by simp
qed

end
