(* ===== verification/Agent_State.thy ===== *)
theory Agent_State
  imports Agent_Disk
begin

text \<open>
  The state the node agent's handler keeps and the files it makes it durable in: the reliability
  policy with the recovery history (\<^verbatim>\<open>internal/reliability/types.go\<close>, the first half of
  \<^verbatim>\<open>internal/agent/recovery.go\<close>), the progress record of a Telemt update
  (\<^verbatim>\<open>internal/agent/telemtupdate.go\<close>) and its journal (\<^verbatim>\<open>updatejournal.go\<close>).

  \<^verbatim>\<open>encoding/json\<close> on the two durable records is a pair of functions of the environment, of
  which the development uses that what was marshalled is read back (\<open>json_ok\<close>). Parsing of a
  numeric loopback endpoint is the function \<open>loopback_endpoint\<close>. Step messages and timestamps
  of the progress record are left out.
\<close>

subsection \<open>The reliability policy\<close>

record Policy =
  RestorePrimary :: bool
  Recovery :: string
  Maintenance :: bool
  FailureThreshold :: int
  CooldownSeconds :: int
  MaxActionsHour :: int
  Egress :: string
  SOCKSAddress :: string
  ReserveSOCKSAddress :: string
  AutomaticFailover :: bool

definition DefaultPolicy :: Policy where
  "DefaultPolicy = \<lparr>RestorePrimary = False, Recovery = ''observe'', Maintenance = False, FailureThreshold = 3,
     CooldownSeconds = 300, MaxActionsHour = 2, Egress = ''unmanaged'', SOCKSAddress = [], ReserveSOCKSAddress = [],
     AutomaticFailover = False\<rparr>"

definition Policy_Validate :: "(string \<Rightarrow> bool) \<Rightarrow> Policy \<Rightarrow> failure" where
  "Policy_Validate loopback p =
     (if Recovery p \<noteq> ''observe'' \<and> Recovery p \<noteq> ''restart'' then Some ''recovery must be observe or restart''
      else if FailureThreshold p < 2 \<or> FailureThreshold p > 20 \<or> CooldownSeconds p < 60 \<or> CooldownSeconds p > 86400 \<or>
        MaxActionsHour p < 1 \<or> MaxActionsHour p > 6
      then Some ''invalid recovery thresholds''
      else if Egress p \<noteq> ''unmanaged'' \<and> Egress p \<noteq> ''direct'' \<and> Egress p \<noteq> ''socks5'' then Some ''invalid egress mode''
      else if \<exists>addr \<in> set [SOCKSAddress p, ReserveSOCKSAddress p]. addr \<noteq> [] \<and> \<not> loopback addr
      then Some ''SOCKS endpoint must be a numeric loopback address and port; run the tunnel on this node''
      else if Egress p = ''socks5'' \<and> SOCKSAddress p = [] then Some ''primary SOCKS endpoint is required''
      else if AutomaticFailover p \<and> Egress p = ''socks5'' \<and> ReserveSOCKSAddress p = SOCKSAddress p
      then Some ''reserve endpoint must differ from primary''
      else if AutomaticFailover p \<and> (Egress p = ''unmanaged'' \<or> ReserveSOCKSAddress p = [])
      then Some ''automatic failover requires managed egress and a reserve SOCKS endpoint''
      else None)"

record Event =
  Ev_at :: gotime
  Ev_action :: string
  Ev_result :: string

record recoveryState =
  RS_policy :: Policy
  RS_active :: string
  RS_events :: "Event list"
  RS_last :: gotime

subsection \<open>The update\<close>

datatype update_step = StepPreflight | StepDownload | StepPause | StepDrain | StepSwap | StepRestart | StepVerify | StepResume | StepRollback

datatype step_state = StateRunning | StateOK | StateFailed | StateSkipped

datatype update_phase = PhaseIdle | PhaseRunning | PhaseDone

datatype update_outcome =
    NoOutcome | OutcomeUpdated | OutcomeRefused | OutcomeFailed | OutcomeRolledBack | OutcomeRollbackFailed
  | OutcomeAdmissionClosed

record UpdateStep =
  S_key :: update_step
  S_state :: step_state
  S_sessions :: nat
  S_streams :: nat

record TelemtUpdate =
  U_phase :: update_phase
  U_outcome :: update_outcome
  U_ok :: bool
  U_rolled_back :: bool
  U_drained :: bool
  U_from :: string
  U_to :: string
  U_error :: string
  U_steps :: "UpdateStep list"

record updateJournal =
  J_outcome :: update_outcome
  J_error :: string
  J_target :: string
  J_active :: bool
  J_version :: string
  J_binary :: path
  J_binary_sha :: string
  J_config :: path
  J_config_sha :: string
  J_had_web :: bool
  J_admission_open :: bool
  J_started :: gotime

subsection \<open>The handler\<close>

record Config =
  StateDir :: path
  Engine :: string
  TelemtConfigPath :: path
  TelemtBin :: path
  health_polls :: nat
  drain_polls :: "int \<Rightarrow> nat"

record 'w node_env = "'w agent_env" +
  enc_journal :: "updateJournal \<Rightarrow> string"
  dec_journal :: "string \<Rightarrow> updateJournal option"
  enc_recovery :: "recoveryState \<Rightarrow> string"
  dec_recovery :: "string \<Rightarrow> recoveryState option"
  loopback_endpoint :: "string \<Rightarrow> bool"

record 'w agent = "'w machine" +
  maintenance :: bool
  upd :: "TelemtUpdate option"
  recoveryPolicy :: Policy
  activeEgress :: string
  recoveryEvents :: "Event list"
  recoveryLast :: gotime
  recoveryFailures :: int

definition json_ok :: "'w node_env \<Rightarrow> bool" where
  "json_ok env \<longleftrightarrow>
     (\<forall>j. dec_journal env (enc_journal env j) = Some j) \<and> (\<forall>r. dec_recovery env (enc_recovery env r) = Some r)"

lemma json_okD: "json_ok env \<Longrightarrow> dec_journal env (enc_journal env j) = Some j"
  "json_ok env \<Longrightarrow> dec_recovery env (enc_recovery env r) = Some r"
  by (simp_all add: json_ok_def)

subsection \<open>Persisting the recovery state\<close>

definition recoveryPath :: "Config \<Rightarrow> path" where
  "recoveryPath cfg = Join (StateDir cfg) ''reliability.json''"

definition saveRecoveryLocked :: "'w node_env \<Rightarrow> Config \<Rightarrow> 'w agent \<Rightarrow> failure \<times> 'w agent" where
  "saveRecoveryLocked env cfg s =
     (let b = enc_recovery env \<lparr>RS_policy = recoveryPolicy s, RS_active = activeEgress s, RS_events = recoveryEvents s,
                                RS_last = recoveryLast s\<rparr>;
          (e, s1) = fault env (MkdirOp (StateDir cfg)) s
      in case e of Some x \<Rightarrow> (Some x, s1) | None \<Rightarrow> writeAtomic env (recoveryPath cfg) b s1)"

text \<open>The history keeps the last fifty events.\<close>

definition keep_events :: "Event list \<Rightarrow> Event list" where
  "keep_events es = (if length es > 50 then drop (length es - 50) es else es)"

definition recoveryEvent :: "'w node_env \<Rightarrow> Config \<Rightarrow> string \<Rightarrow> string \<Rightarrow> 'w agent \<Rightarrow> 'w agent" where
  "recoveryEvent env cfg action result s =
     (let ev = \<lparr>Ev_at = clock env (world s), Ev_action = action, Ev_result = result\<rparr>;
          s1 = s\<lparr>recoveryEvents := keep_events (recoveryEvents s @ [ev])\<rparr>
      in snd (saveRecoveryLocked env cfg s1))"

definition loadRecovery :: "'w node_env \<Rightarrow> Config \<Rightarrow> 'w agent \<Rightarrow> failure \<times> 'w agent" where
  "loadRecovery env cfg s =
     (let (r, s1) = ReadFile env (recoveryPath cfg) s
      in case r of
           Missing \<Rightarrow> (None, s1)
         | ReadError x \<Rightarrow> (Some x, s1)
         | Contents b \<Rightarrow>
             (case dec_recovery env b of
                None \<Rightarrow> (Some ''invalid reliability.json'', s1)
              | Some st \<Rightarrow>
                  (case Policy_Validate (loopback_endpoint env) (RS_policy st) of
                     Some x \<Rightarrow> (Some x, s1)
                   | None \<Rightarrow> (None, s1\<lparr>recoveryPolicy := RS_policy st, activeEgress := RS_active st,
                                   recoveryEvents := RS_events st, recoveryLast := RS_last st\<rparr>))))"

subsection \<open>Contracts\<close>

lemma agent_of_machine:
  "disk (s\<lparr>upd := u\<rparr>) = disk s" "dlog (s\<lparr>upd := u\<rparr>) = dlog s"
  "disk (s\<lparr>recoveryEvents := es\<rparr>) = disk s" "dlog (s\<lparr>recoveryEvents := es\<rparr>) = dlog s"
  by simp_all

lemma more_eq:
  assumes "machine.more s' = machine.more s"
  shows "upd s' = upd s" "maintenance s' = maintenance s" "recoveryPolicy s' = recoveryPolicy s"
    "activeEgress s' = activeEgress s" "recoveryEvents s' = recoveryEvents s" "recoveryLast s' = recoveryLast s"
    "recoveryFailures s' = recoveryFailures s"
  using assms by (cases s; cases s'; simp)+

lemma saveRecovery_frame:
  "machine.more (snd (saveRecoveryLocked env cfg s)) = machine.more s"
  "recoveryPath cfg \<in> A \<Longrightarrow> within A s (snd (saveRecoveryLocked env cfg s))"
  by (auto simp: saveRecoveryLocked_def Let_def split_beta split: option.splits
      intro: within_outside within_trans [OF within_outside within_writeAtomic])

lemma within_recoveryEvent [frame]:
  assumes "recoveryPath cfg \<in> A"
  shows "within A s (recoveryEvent env cfg a r s)"
proof -
  have "within A s (s\<lparr>recoveryEvents := es\<rparr>)" for es by (simp add: within_eq)
  then show ?thesis
    unfolding recoveryEvent_def Let_def by (rule within_trans [OF _ saveRecovery_frame(2) [OF assms]])
qed

lemma upd_recoveryEvent [simp]: "upd (recoveryEvent env cfg a r s) = upd s"
  by (simp add: recoveryEvent_def Let_def more_eq(1) [OF saveRecovery_frame(1)])

end
