(* ===== verification/Agent_Update.thy ===== *)
theory Agent_Update
  imports Agent_State Encodings
begin

text \<open>
  The maintenance sequence that replaces Telemt on a node: \<^verbatim>\<open>internal/agent/telemtupdate.go\<close>,
  its journal \<^verbatim>\<open>updatejournal.go\<close>, and the version and download helpers of \<^verbatim>\<open>upgrade.go\<close> and
  \<^verbatim>\<open>upgraderun.go\<close>. Each function takes the agent and returns its result with the agent after
  it. A poll loop that ends by a deadline counts the polls that fit before it; the world may end
  it earlier.
\<close>

subsection \<open>Versions\<close>

definition normalizeVersion :: "string \<Rightarrow> string" where
  "normalizeVersion v = TrimPrefix (TrimSpace (TrimPrefix (TrimSpace v) ''telemt '')) ''v''"

text \<open>\<^verbatim>\<open>strings.EqualFold\<close> on ASCII text.\<close>

definition EqualFold :: "string \<Rightarrow> string \<Rightarrow> bool" where
  "EqualFold a b \<longleftrightarrow> map lower_ascii a = map lower_ascii b"

definition sameVersion :: "string \<Rightarrow> string \<Rightarrow> bool" where
  "sameVersion installed wanted =
     (let a = normalizeVersion installed; b = normalizeVersion wanted in a \<noteq> [] \<and> EqualFold a b)"

definition sameTelemtVersion :: "string \<Rightarrow> string \<Rightarrow> bool" where
  "sameTelemtVersion a b =
     (let n = (\<lambda>v. TrimPrefix (TrimSpace v) ''v'') in n a \<noteq> [] \<and> n a = n b)"

text \<open>The pattern \<^verbatim>\<open>[0-9]+\.[0-9]+\.[0-9]+([.-][0-9A-Za-z.-]+)?\<close> at the start of a string.\<close>

definition suffix_char :: "char \<Rightarrow> bool" where
  "suffix_char c \<longleftrightarrow> is_digit c \<or> is_lower c \<or> is_upper c \<or> c = CHR ''.'' \<or> c = CHR ''-''"

definition version_suffix :: "string \<Rightarrow> string" where
  "version_suffix s =
     (case s of
        c # t \<Rightarrow> if (c = CHR ''.'' \<or> c = CHR ''-'') \<and> takeWhile suffix_char t \<noteq> [] then c # takeWhile suffix_char t else []
      | [] \<Rightarrow> [])"

definition version_at :: "string \<Rightarrow> string option" where
  "version_at s =
     (let a = takeWhile is_digit s; s1 = dropWhile is_digit s
      in if a = [] \<or> s1 = [] \<or> hd s1 \<noteq> CHR ''.'' then None
         else let b = takeWhile is_digit (tl s1); s2 = dropWhile is_digit (tl s1)
              in if b = [] \<or> s2 = [] \<or> hd s2 \<noteq> CHR ''.'' then None
                 else let c = takeWhile is_digit (tl s2)
                      in if c = [] then None
                         else Some (a @ ''.'' @ b @ ''.'' @ c @ version_suffix (dropWhile is_digit (tl s2))))"

fun ParseVersionOutput :: "string \<Rightarrow> string" where
  "ParseVersionOutput [] = []"
| "ParseVersionOutput (c # s) = (case version_at (c # s) of Some v \<Rightarrow> v | None \<Rightarrow> ParseVersionOutput s)"

definition validSHA256 :: "string \<Rightarrow> failure" where
  "validSHA256 s =
     (let t = TrimSpace s
      in if t = [] then Some ''the panel published no sha256 for this build, so the download cannot be verified''
         else case hex_DecodeString t of
                Some raw \<Rightarrow> if length raw = 32 then None else Some ''the panel published a value which is not a sha256''
              | None \<Rightarrow> Some ''the panel published a value which is not a sha256'')"

subsection \<open>The progress record\<close>

definition newTelemtUpdate :: "string \<Rightarrow> string \<Rightarrow> TelemtUpdate" where
  "newTelemtUpdate from_v to_v = \<lparr>U_phase = PhaseRunning, U_outcome = NoOutcome, U_ok = False, U_rolled_back = False,
     U_drained = False, U_from = from_v, U_to = to_v, U_error = [], U_steps = []\<rparr>"

definition on_upd :: "(TelemtUpdate \<Rightarrow> TelemtUpdate) \<Rightarrow> 'w agent \<Rightarrow> 'w agent" where
  "on_upd f s = s\<lparr>upd := map_option f (upd s)\<rparr>"

definition begin_step :: "update_step \<Rightarrow> 'w agent \<Rightarrow> 'w agent" where
  "begin_step k = on_upd (\<lambda>u. u\<lparr>U_steps := U_steps u @ [\<lparr>S_key = k, S_state = StateRunning, S_sessions = 0, S_streams = 0\<rparr>]\<rparr>)"

text \<open>The last recorded step with a key is the one that is changed.\<close>

fun on_last :: "update_step \<Rightarrow> (UpdateStep \<Rightarrow> UpdateStep) \<Rightarrow> UpdateStep list \<Rightarrow> UpdateStep list option" where
  "on_last k f [] = None"
| "on_last k f (x # xs) =
     (case on_last k f xs of
        Some ys \<Rightarrow> Some (x # ys)
      | None \<Rightarrow> if S_key x = k then Some (f x # xs) else None)"

definition progress :: "update_step \<Rightarrow> nat \<Rightarrow> nat \<Rightarrow> 'w agent \<Rightarrow> 'w agent" where
  "progress k sessions streams = on_upd (\<lambda>u.
     case on_last k (\<lambda>x. x\<lparr>S_sessions := sessions, S_streams := streams\<rparr>) (U_steps u) of
       None \<Rightarrow> u | Some xs \<Rightarrow> u\<lparr>U_steps := xs\<rparr>)"

definition finish_step :: "update_step \<Rightarrow> step_state \<Rightarrow> 'w agent \<Rightarrow> 'w agent" where
  "finish_step k st = on_upd (\<lambda>u.
     u\<lparr>U_steps := (case on_last k (\<lambda>x. x\<lparr>S_state := st\<rparr>) (U_steps u) of
        None \<Rightarrow> U_steps u @ [\<lparr>S_key = k, S_state = st, S_sessions = 0, S_streams = 0\<rparr>]
      | Some xs \<Rightarrow> xs)\<rparr>)"

definition skip_step :: "update_step \<Rightarrow> 'w agent \<Rightarrow> 'w agent" where
  "skip_step k = finish_step k StateSkipped"

definition setFrom :: "string \<Rightarrow> 'w agent \<Rightarrow> 'w agent" where
  "setFrom v = on_upd (\<lambda>u. u\<lparr>U_from := v\<rparr>)"

definition setDrained :: "'w agent \<Rightarrow> 'w agent" where
  "setDrained = on_upd (\<lambda>u. u\<lparr>U_drained := True\<rparr>)"

definition end_record :: "update_outcome \<Rightarrow> failure \<Rightarrow> TelemtUpdate \<Rightarrow> TelemtUpdate" where
  "end_record outcome err u =
     u\<lparr>U_phase := PhaseDone, U_outcome := outcome, U_ok := (outcome = OutcomeUpdated),
       U_rolled_back := (outcome = OutcomeRolledBack), U_error := (case err of None \<Rightarrow> U_error u | Some e \<Rightarrow> e)\<rparr>"

definition end_update :: "update_outcome \<Rightarrow> failure \<Rightarrow> 'w agent \<Rightarrow> 'w agent" where
  "end_update outcome err = on_upd (end_record outcome err)"

text \<open>\<^verbatim>\<open>errors.Join\<close>: the texts of the errors that are not nil, one per line.\<close>

definition errors_Join :: "failure \<Rightarrow> failure \<Rightarrow> failure" where
  "errors_Join a b = (case a of None \<Rightarrow> b | Some x \<Rightarrow> Some (case b of None \<Rightarrow> x | Some y \<Rightarrow> x @ CHR 0x0A # y))"

subsection \<open>The journal\<close>

definition updateJournalPath :: "Config \<Rightarrow> path" where
  "updateJournalPath cfg = Join (StateDir cfg) ''telemt-update-journal.json''"

definition known_good_bin :: "Config \<Rightarrow> path" where
  "known_good_bin cfg = Join (StateDir cfg) ''telemt-known-good''"

definition known_good_config :: "Config \<Rightarrow> path" where
  "known_good_config cfg = Join (StateDir cfg) ''telemt-known-good.toml''"

definition writeUpdateJournal :: "'w node_env \<Rightarrow> Config \<Rightarrow> updateJournal \<Rightarrow> 'w agent \<Rightarrow> failure \<times> 'w agent" where
  "writeUpdateJournal env cfg j = writeAtomic env (updateJournalPath cfg) (enc_journal env j)"

definition saveVerifiedCopy :: "'w node_env \<Rightarrow> path \<Rightarrow> path \<Rightarrow> 'w agent \<Rightarrow> (string + string) \<times> 'w agent" where
  "saveVerifiedCopy env src dst s =
     (let (r, s1) = ReadFile env src s
      in case r of
           Missing \<Rightarrow> (Inl (''open '' @ src @ '': no such file or directory''), s1)
         | ReadError x \<Rightarrow> (Inl x, s1)
         | Contents b \<Rightarrow>
             (let (e, s2) = writeAtomic env dst b s1
              in case e of Some x \<Rightarrow> (Inl x, s2) | None \<Rightarrow> (Inr (sha256_hex env b), s2)))"

definition verifiedFile :: "'w node_env \<Rightarrow> path \<Rightarrow> string \<Rightarrow> 'w agent \<Rightarrow> (string + string) \<times> 'w agent" where
  "verifiedFile env p sha s =
     (let (r, s1) = ReadFile env p s
      in case r of
           Missing \<Rightarrow> (Inl (''open '' @ p @ '': no such file or directory''), s1)
         | ReadError x \<Rightarrow> (Inl x, s1)
         | Contents b \<Rightarrow>
             if sha256_hex env b \<noteq> sha then (Inl ''rollback artifact checksum mismatch'', s1) else (Inr b, s1))"

definition checkUpdateJournal :: "'w node_env \<Rightarrow> Config \<Rightarrow> 'w agent \<Rightarrow> failure \<times> 'w agent" where
  "checkUpdateJournal env cfg s =
     (let (r, s1) = ReadFile env (updateJournalPath cfg) s
      in case r of
           Missing \<Rightarrow> (None, s1)
         | ReadError x \<Rightarrow> (Some x, s1)
         | Contents b \<Rightarrow>
             (case dec_journal env b of
                None \<Rightarrow> (Some ''invalid update journal'', s1)
              | Some j \<Rightarrow>
                  if J_active j
                  then (Some (''interrupted update requires recovery; inspect agent logs and restart the agent after '' @
                              ''resolving the recovery error''), s1)
                  else (None, s1)))"

record updatePlan =
  preserveClosed :: bool
  installed :: string
  p_drain :: bool
  p_pause :: bool
  p_resume :: bool
  drainSkip :: string
  hadWeb :: bool

definition admission_of :: "(string + OperatorLifecycle option) \<Rightarrow> string + bool" where
  "admission_of r =
     (case r of
        Inl x \<Rightarrow> Inl x
      | Inr None \<Rightarrow> Inl ''cannot record original WEB admission state''
      | Inr (Some lc) \<Rightarrow> Inr (LC_admission_open lc))"

definition record_admission :: "'w node_env \<Rightarrow> updatePlan \<Rightarrow> 'w agent \<Rightarrow> (string + bool) \<times> 'w agent" where
  "record_admission env plan s =
     (if hadWeb plan then (let (r, s1) = outside (api_WebStatus env) s in (admission_of r, s1)) else (Inr False, s))"

definition save_known_good ::
  "'w node_env \<Rightarrow> Config \<Rightarrow> updateJournal \<Rightarrow> 'w agent \<Rightarrow> (string + updateJournal) \<times> 'w agent" where
  "save_known_good env cfg j s =
     (let (r1, s1) = saveVerifiedCopy env (TelemtBin cfg) (known_good_bin cfg) s
      in case r1 of Inl x \<Rightarrow> (Inl x, s1)
         | Inr binsha \<Rightarrow>
     (let (r2, s2) = saveVerifiedCopy env (TelemtConfigPath cfg) (known_good_config cfg) s1
      in case r2 of Inl x \<Rightarrow> (Inl x, s2)
         | Inr cfgsha \<Rightarrow>
     (let j' = j\<lparr>J_binary := known_good_bin cfg, J_binary_sha := binsha,
                 J_config := known_good_config cfg, J_config_sha := cfgsha\<rparr>;
          (e, s3) = writeUpdateJournal env cfg j' s2
      in case e of Some x \<Rightarrow> (Inl x, s3) | None \<Rightarrow> (Inr j', s3))))"

definition prepareUpdateJournal ::
  "'w node_env \<Rightarrow> Config \<Rightarrow> updatePlan \<Rightarrow> string \<Rightarrow> 'w agent \<Rightarrow> (string + updateJournal) \<times> 'w agent" where
  "prepareUpdateJournal env cfg plan target s =
     (let (e, s1) = checkUpdateJournal env cfg s
      in case e of Some x \<Rightarrow> (Inl x, s1)
         | None \<Rightarrow>
     (let (e2, s2) = fault env (MkdirOp (StateDir cfg)) s1
      in case e2 of Some x \<Rightarrow> (Inl x, s2)
         | None \<Rightarrow>
     (let (r, s3) = record_admission env plan s2
      in case r of Inl x \<Rightarrow> (Inl x, s3)
         | Inr open1 \<Rightarrow>
             save_known_good env cfg
               \<lparr>J_outcome = NoOutcome, J_error = [], J_target = target, J_active = True, J_version = installed plan,
                J_binary = [], J_binary_sha = [], J_config = [], J_config_sha = [], J_had_web = hadWeb plan,
                J_admission_open = open1, J_started = clock env (world s1)\<rparr> s3)))"

subsection \<open>Restarting Telemt\<close>

definition ready_problem :: "(string \<times> int option) + (bool \<times> string) \<Rightarrow> failure" where
  "ready_problem r =
     (case r of Inl (x, _) \<Rightarrow> Some x | Inr (ok, reason) \<Rightarrow> if ok then None else Some (''not ready: '' @ reason))"

fun waitTelemtReady :: "'w node_env \<Rightarrow> nat \<Rightarrow> 'w agent \<Rightarrow> failure \<times> 'w agent" where
  "waitTelemtReady env 0 s =
     (let (r, s1) = outside (api_Ready env) s
      in case ready_problem r of None \<Rightarrow> (None, s1) | Some x \<Rightarrow> (Some (''telemt did not become ready in time: '' @ x), s1))"
| "waitTelemtReady env (Suc n) s =
     (let (r, s1) = outside (api_Ready env) s
      in case ready_problem r of None \<Rightarrow> (None, s1)
         | Some x \<Rightarrow>
     (let (late, s2) = outside (past_deadline env) s1
      in if late then (Some (''telemt did not become ready in time: '' @ x), s2)
         else (let (e, s3) = outside (select_wait env) s2
               in case e of Some y \<Rightarrow> (Some y, s3) | None \<Rightarrow> waitTelemtReady env n s3)))"

definition restartTelemt :: "'w node_env \<Rightarrow> Config \<Rightarrow> 'w agent \<Rightarrow> failure \<times> 'w agent" where
  "restartTelemt env cfg s =
     (let (e, s1) = outside (sys_restart env (disk s)) s
      in case e of Some x \<Rightarrow> (Some (''restart telemt: '' @ x), s1) | None \<Rightarrow> waitTelemtReady env (health_polls cfg) s1)"

definition verifyTelemtVersion :: "'w node_env \<Rightarrow> string \<Rightarrow> 'w agent \<Rightarrow> failure \<times> 'w agent" where
  "verifyTelemtVersion env want s =
     (let (r, s1) = outside (api_SystemInfo env) s
      in case r of
           Inl x \<Rightarrow> (Some (''telemt's control API did not answer after the restart: '' @ x), s1)
         | Inr v \<Rightarrow>
             if \<not> sameVersion v want
             then (Some (''telemt reports '' @ TrimSpace v @ '' after the restart, not the pinned '' @ want), s1)
             else (None, s1))"

subsection \<open>The sequence\<close>

record UpdateTelemtRequest =
  Req_version :: string
  Req_sha256 :: string
  Req_url :: string
  Req_require_drain :: bool
  Req_drain_timeout :: int

definition drainTimeoutSecs :: "UpdateTelemtRequest \<Rightarrow> int" where
  "drainTimeoutSecs req =
     (if Req_drain_timeout req < 1 \<or> Req_drain_timeout req > 3600 then 60 else Req_drain_timeout req)"

text \<open>The checks of the request itself, before Telemt is asked anything.\<close>

definition request_error :: "UpdateTelemtRequest \<Rightarrow> failure" where
  "request_error req =
     (if TrimSpace (Req_version req) = [] then Some ''the panel pinned no telemt version; nothing was changed''
      else case validSHA256 (Req_sha256 req) of
             Some x \<Rightarrow> Some (x @ ''; nothing was changed'')
           | None \<Rightarrow>
               if TrimSpace (Req_url req) = []
               then Some ''the panel published no download URL for this build; nothing was changed'' else None)"

definition drain_plan :: "UpdateTelemtRequest \<Rightarrow> Capabilities \<Rightarrow> updatePlan \<Rightarrow> string + updatePlan" where
  "drain_plan req caps plan =
     (if Cap_drain caps then Inr (plan\<lparr>p_drain := True\<rparr>)
      else if Cap_drain_unknown caps then
        (if Req_require_drain req
         then Inl (''this node's drain support could not be determined, so the update would have to drop live '' @
                   ''sessions blindly; nothing was changed'')
         else Inr (plan\<lparr>drainSkip := ''drain support could not be determined and the update was started without requiring it; '' @
                   ''live sessions are dropped by the restart''\<rparr>))
      else if Req_require_drain req then Inl ''WEB drain is required but unsupported; nothing was changed''
      else Inr (plan\<lparr>drainSkip := ''this node's telemt '' @ installed plan @
                   '' has no WEB drain; live sessions are dropped by the restart''\<rparr>))"

definition installed_version :: "string \<Rightarrow> string" where
  "installed_version v = (if ParseVersionOutput v = [] then TrimSpace v else ParseVersionOutput v)"

definition fail_step :: "update_step \<Rightarrow> string \<Rightarrow> 'w agent \<Rightarrow> (string + 'a) \<times> 'w agent" where
  "fail_step k x s = (Inl x, finish_step k StateFailed s)"

definition updatePreflight ::
  "'w node_env \<Rightarrow> UpdateTelemtRequest \<Rightarrow> 'w agent \<Rightarrow> (string + updatePlan) \<times> 'w agent" where
  "updatePreflight env req s0 =
     (let s = begin_step StepPreflight s0
      in case request_error req of Some x \<Rightarrow> fail_step StepPreflight x s
         | None \<Rightarrow>
     (let (r1, s1) = outside (api_SystemInfo env) s
      in case r1 of
           Inl x \<Rightarrow> fail_step StepPreflight (''telemt's control API did not answer, so the running version cannot be read: '' @ x) s1
         | Inr v \<Rightarrow>
     (let inst = installed_version v; s2 = setFrom inst s1
      in if sameTelemtVersion inst (Req_version req)
         then fail_step StepPreflight (''telemt '' @ inst @ '' is already installed; nothing was changed'') s2
         else
     (let (r3, s3) = outside (api_Capabilities env) s2
      in case r3 of
           Inl x \<Rightarrow> fail_step StepPreflight (''could not work out what this node supports: '' @ x) s3
         | Inr caps \<Rightarrow>
     (case drain_plan req caps
             \<lparr>preserveClosed = False, installed = inst, p_drain = False, p_pause = Cap_pause caps, p_resume = Cap_resume caps,
              drainSkip = [], hadWeb = Cap_runtime caps\<rparr> of
        Inl x \<Rightarrow> fail_step StepPreflight x s3
      | Inr plan \<Rightarrow> (Inr plan, finish_step StepPreflight StateOK s3))))))"

definition maxUpgradeDownloadBytes :: int where
  "maxUpgradeDownloadBytes = 512 * 2 ^ 20"

text \<open>\<^verbatim>\<open>io.LimitReader\<close>: at most so many bytes.\<close>

definition LimitReader :: "int \<Rightarrow> string \<Rightarrow> string" where
  "LimitReader n s = (if int (length s) \<le> n then s else take (nat n) s)"

text \<open>The contents of the temporary file a download leaves.\<close>

definition downloadArtifact ::
  "'w node_env \<Rightarrow> string \<Rightarrow> string \<Rightarrow> 'w agent \<Rightarrow> (string + string) \<times> 'w agent" where
  "downloadArtifact env sha url s =
     (if sha = [] then (Inl (''the panel published no sha256 for '' @ url @ ''; refusing to install an unverified download''), s)
      else
     (let (r, s1) = outside (http_get env url) s
      in case r of
           Inl x \<Rightarrow> (Inl (''download '' @ url @ '': '' @ x), s1)
         | Inr (status, body) \<Rightarrow>
             if status \<noteq> 200 then (Inl (''download '' @ url @ '': HTTP '' @ Itoa (int status)), s1)
             else
     (let (e, s2) = fault env TempOp s1
      in case e of Some x \<Rightarrow> (Inl x, s2)
         | None \<Rightarrow>
             (let data = LimitReader maxUpgradeDownloadBytes body
              in if \<not> EqualFold (sha256_hex env data) sha
                 then (Inl (''checksum mismatch for '' @ url @ '': the download is '' @ sha256_hex env data @
                            '', the panel pinned '' @ sha @ ''. Nothing was replaced''), s2)
                 else (Inr data, s2)))))"

definition telemt_entry :: "tar_entry list \<Rightarrow> tar_entry option" where
  "telemt_entry es = find (\<lambda>e. TE_regular e \<and> Base (TE_name e) = ''telemt'') es"

definition extractTelemtBinary :: "'w node_env \<Rightarrow> string \<Rightarrow> path \<Rightarrow> 'w agent \<Rightarrow> failure \<times> 'w agent" where
  "extractTelemtBinary env tgz dst s =
     (case tar_read env tgz of (es, tarerr) \<Rightarrow>
        (case telemt_entry es of
           None \<Rightarrow> (Some (case tarerr of Some x \<Rightarrow> x | None \<Rightarrow> ''no telemt binary inside the download''), s)
         | Some e \<Rightarrow>
     (let (e1, s1) = open_trunc env dst s
      in case e1 of Some x \<Rightarrow> (Some x, s1)
         | None \<Rightarrow>
     (let (e2, s2) = copy_to env dst (LimitReader maxUpgradeDownloadBytes (TE_content e)) s1
      in case e2 of Some x \<Rightarrow> (Some x, s2) | None \<Rightarrow> fault env (ChmodOp dst) s2))))"

definition staged_path :: "Config \<Rightarrow> path" where
  "staged_path cfg = Join (Dir (TelemtBin cfg)) ''.telemt.new''"

definition stageTelemtBinary ::
  "'w node_env \<Rightarrow> Config \<Rightarrow> UpdateTelemtRequest \<Rightarrow> 'w agent \<Rightarrow> (string + path) \<times> 'w agent" where
  "stageTelemtBinary env cfg req s =
     (let (r, s1) = downloadArtifact env (Req_sha256 req) (Req_url req) s
      in case r of Inl x \<Rightarrow> (Inl x, s1)
         | Inr tgz \<Rightarrow>
     (let (e, s2) = extractTelemtBinary env tgz (staged_path cfg) s1
      in case e of Some x \<Rightarrow> (Inl x, snd (Remove env (staged_path cfg) s2)) | None \<Rightarrow> (Inr (staged_path cfg), s2)))"

definition updatePause :: "'w node_env \<Rightarrow> updatePlan \<Rightarrow> 'w agent \<Rightarrow> failure \<times> 'w agent" where
  "updatePause env plan s =
     (if \<not> p_pause plan then (None, skip_step StepPause s)
      else (let (e, s1) = outside (api_WebPause env) (begin_step StepPause s)
            in case e of
                 Some x \<Rightarrow> (Some (''pause WEB admission: '' @ x), finish_step StepPause StateFailed s1)
               | None \<Rightarrow> (None, finish_step StepPause StateOK s1)))"

definition drain_fail :: "string \<Rightarrow> 'w agent \<Rightarrow> failure \<times> 'w agent" where
  "drain_fail x s = (Some x, finish_step StepDrain StateFailed s)"

fun drain_loop :: "'w node_env \<Rightarrow> nat \<Rightarrow> 'w agent \<Rightarrow> failure \<times> 'w agent" where
  "drain_loop env polls s =
     (let (r, s1) = outside (api_WebStatus env) s
      in case r of
           Inl x \<Rightarrow> drain_fail x s1
         | Inr None \<Rightarrow> drain_fail ''drain progress unavailable'' s1
         | Inr (Some lc) \<Rightarrow>
     (case LC_drain lc of
        None \<Rightarrow> drain_fail ''drain progress unavailable'' s1
      | Some d \<Rightarrow>
          (let s2 = progress StepDrain (D_sessions d) (D_streams d) s1
           in if D_state d = ''cancelled'' then drain_fail ''drain was cancelled'' s2
              else if LC_state lc = ''drained'' \<or> D_state d = ''completed'' then
                (if D_sessions d \<noteq> 0 \<or> D_streams d \<noteq> 0 \<or> D_websockets d \<noteq> 0
                 then drain_fail ''drain ended with live sessions or streams'' s2
                 else (None, finish_step StepDrain StateOK (setDrained s2)))
              else (case polls of
                      0 \<Rightarrow> drain_fail ''context deadline exceeded'' s2
                    | Suc n \<Rightarrow>
                        (let (e, s3) = outside (select_wait env) s2
                         in case e of Some x \<Rightarrow> drain_fail x s3 | None \<Rightarrow> drain_loop env n s3)))))"

declare drain_loop.simps [simp del]

definition updateDrain :: "'w node_env \<Rightarrow> Config \<Rightarrow> int \<Rightarrow> 'w agent \<Rightarrow> failure \<times> 'w agent" where
  "updateDrain env cfg secs s =
     (let (e, s1) = outside (api_WebDrain env secs) (begin_step StepDrain s)
      in case e of Some x \<Rightarrow> drain_fail x s1 | None \<Rightarrow> drain_loop env (drain_polls cfg secs) s1)"

record keptFiles =
  k_bin :: path
  k_binPrev :: path
  k_config :: path
  k_configPrev :: path

definition discard :: "'w node_env \<Rightarrow> keptFiles \<Rightarrow> 'w agent \<Rightarrow> 'w agent" where
  "discard env k s =
     (let s1 = (if k_binPrev k \<noteq> [] then snd (Remove env (k_binPrev k) s) else s)
      in if k_configPrev k \<noteq> [] then snd (Remove env (k_configPrev k) s1) else s1)"

definition keep_config :: "'w node_env \<Rightarrow> path \<Rightarrow> 'w agent \<Rightarrow> (string + path) \<times> 'w agent" where
  "keep_config env p s =
     (if p = [] then (Inr [], s)
      else (let (r, s1) = backupFile env p s
            in case r of Inl x \<Rightarrow> (Inl (''keep a copy of '' @ p @ '': '' @ x), s1) | Inr q \<Rightarrow> (Inr q, s1)))"

definition swapTelemtBinary :: "'w node_env \<Rightarrow> Config \<Rightarrow> path \<Rightarrow> 'w agent \<Rightarrow> (string + keptFiles) \<times> 'w agent" where
  "swapTelemtBinary env cfg staged s =
     (let bin = TelemtBin cfg; (r1, s1) = backupFile env bin s
      in case r1 of Inl x \<Rightarrow> (Inl x, s1)
         | Inr prev \<Rightarrow>
     (let (r2, s2) = keep_config env (TelemtConfigPath cfg) s1
      in case r2 of Inl x \<Rightarrow> (Inl x, s2)
         | Inr cfgPrev \<Rightarrow>
     (let (e3, s3) = fault env (RenameOp bin) s2
      in case (e3, disk s3 staged) of
           (Some x, _) \<Rightarrow> (Inl (''install '' @ bin @ '': '' @ x), s3)
         | (None, None) \<Rightarrow> (Inl (''install '' @ bin @ '': no such file or directory''), s3)
         | (None, Some new) \<Rightarrow>
     (let (e4, s4) = fault env (ChmodOp bin) (set_disk ((disk s3)(bin \<mapsto> new, staged := None)) s3)
      in case e4 of
           Some x \<Rightarrow>
             (let (e5, s5) = restoreFile env prev bin s4
              in (Inl (case errors_Join (Some x) e5 of Some y \<Rightarrow> y | None \<Rightarrow> x), s5))
         | None \<Rightarrow>
             (Inr \<lparr>k_bin = bin, k_binPrev = prev, k_config = TelemtConfigPath cfg, k_configPrev = cfgPrev\<rparr>, s4)))))"

definition verify_fail :: "string \<Rightarrow> 'w agent \<Rightarrow> failure \<times> 'w agent" where
  "verify_fail x s = (Some x, finish_step StepVerify StateFailed s)"

definition updateRestartAndVerify ::
  "'w node_env \<Rightarrow> Config \<Rightarrow> updatePlan \<Rightarrow> string \<Rightarrow> 'w agent \<Rightarrow> failure \<times> 'w agent" where
  "updateRestartAndVerify env cfg plan want s =
     (let (e1, s1) = restartTelemt env cfg (begin_step StepRestart s)
      in case e1 of Some x \<Rightarrow> (Some x, finish_step StepRestart StateFailed s1)
         | None \<Rightarrow>
     (let (e2, s2) = verifyTelemtVersion env want (begin_step StepVerify (finish_step StepRestart StateOK s1))
      in case e2 of Some x \<Rightarrow> verify_fail x s2
         | None \<Rightarrow>
             if \<not> hadWeb plan then (None, finish_step StepVerify StateOK s2)
             else
     (let (e3, s3) = outside (check_decoy env) s2
      in case e3 of Some x \<Rightarrow> verify_fail x s3
         | None \<Rightarrow>
     (let (r4, s4) = outside (api_WebStatus env) s3
      in case r4 of
           Inl x \<Rightarrow> verify_fail (''telemt '' @ want @ '' is up but its WEB runtime does not answer: '' @ x) s4
         | Inr _ \<Rightarrow> (None, finish_step StepVerify StateOK s4)))))"

definition keep_closed :: "'w node_env \<Rightarrow> 'w agent \<Rightarrow> failure \<times> 'w agent" where
  "keep_closed env s =
     (let (e1, s1) = outside (api_WebPause env) s
      in case e1 of Some x \<Rightarrow> (Some x, s1)
         | None \<Rightarrow>
     (let (r2, s2) = outside (api_WebStatus env) s1
      in case r2 of
           Inl x \<Rightarrow> (Some x, s2)
         | Inr None \<Rightarrow> (Some ''original closed WEB admission could not be verified'', s2)
         | Inr (Some lc) \<Rightarrow>
             if LC_admission_open lc then (Some ''original closed WEB admission could not be verified'', s2)
             else (None, skip_step StepResume s2)))"

definition resume_fail :: "string \<Rightarrow> 'w agent \<Rightarrow> failure \<times> 'w agent" where
  "resume_fail x s = (Some x, finish_step StepResume StateFailed s)"

definition reopen :: "'w node_env \<Rightarrow> updatePlan \<Rightarrow> 'w agent \<Rightarrow> failure \<times> 'w agent" where
  "reopen env plan s =
     (let (re, s1) = (if p_resume plan then outside (api_WebResume env) s else (None, s));
          (r2, s2) = outside (api_WebStatus env) s1
      in case r2 of
           Inl x \<Rightarrow>
             (case re of
                Some y \<Rightarrow> resume_fail (''reopening WEB admission failed: '' @ y) s2
              | None \<Rightarrow> resume_fail x s2)
         | Inr None \<Rightarrow> resume_fail ''WEB admission status unavailable'' s2
         | Inr (Some lc) \<Rightarrow>
             if LC_admission_open lc then (None, finish_step StepResume StateOK s2)
             else
               (let x = ''telemt is running the new build but WEB admission is still closed (state '' @ LC_state lc @ '')''
                in resume_fail (case re of Some y \<Rightarrow> x @ '': '' @ y | None \<Rightarrow> x) s2))"

definition updateResume :: "'w node_env \<Rightarrow> updatePlan \<Rightarrow> bool \<Rightarrow> 'w agent \<Rightarrow> failure \<times> 'w agent" where
  "updateResume env plan paused s =
     (if preserveClosed plan then keep_closed env s
      else if \<not> paused then (None, skip_step StepResume s)
      else reopen env plan (begin_step StepResume s))"

subsection \<open>Rolling back\<close>

definition rollback_fail :: "string \<Rightarrow> string \<Rightarrow> 'w agent \<Rightarrow> 'w agent" where
  "rollback_fail cause x s =
     end_update OutcomeRollbackFailed (Some (cause @ ''; the rollback also failed: '' @ x)) (finish_step StepRollback StateFailed s)"

definition restore_config :: "'w node_env \<Rightarrow> keptFiles \<Rightarrow> 'w agent \<Rightarrow> failure \<times> 'w agent" where
  "restore_config env kept s =
     (if k_configPrev kept = [] then (None, s) else restoreFile env (k_configPrev kept) (k_config kept) s)"

definition verify_installed :: "'w node_env \<Rightarrow> updatePlan \<Rightarrow> 'w agent \<Rightarrow> failure \<times> 'w agent" where
  "verify_installed env plan s = (if installed plan = [] then (None, s) else verifyTelemtVersion env (installed plan) s)"

text \<open>Once the files are back: the node counts as recovered only when the old build answers.\<close>

definition confirm_rollback ::
  "'w node_env \<Rightarrow> Config \<Rightarrow> updatePlan \<Rightarrow> string \<Rightarrow> 'w agent \<Rightarrow> 'w agent" where
  "confirm_rollback env cfg plan cause s =
     (let (e3, s3) = restartTelemt env cfg s
      in case e3 of Some x \<Rightarrow> rollback_fail cause (''telemt did not come back on the previous binary: '' @ x) s3
         | None \<Rightarrow>
     (let (e4, s4) = verify_installed env plan s3
      in case e4 of Some x \<Rightarrow> rollback_fail cause x s4
         | None \<Rightarrow>
     (let (e5, s5) = updateResume env plan True (finish_step StepRollback StateOK s4)
      in case e5 of
           Some x \<Rightarrow> end_update OutcomeRollbackFailed (Some (cause @ ''; the previous binary is back but '' @ x)) s5
         | None \<Rightarrow> end_update OutcomeRolledBack (Some cause) s5)))"

definition rollbackTelemt ::
  "'w node_env \<Rightarrow> Config \<Rightarrow> updatePlan \<Rightarrow> keptFiles \<Rightarrow> string \<Rightarrow> 'w agent \<Rightarrow> 'w agent" where
  "rollbackTelemt env cfg plan kept cause s =
     (let (e1, s1) = restoreFile env (k_binPrev kept) (k_bin kept) (begin_step StepRollback s)
      in case e1 of Some x \<Rightarrow> rollback_fail cause (''restoring '' @ k_bin kept @ '' failed: '' @ x) s1
         | None \<Rightarrow>
     (let (e2, s2) = restore_config env kept s1
      in case e2 of Some x \<Rightarrow> rollback_fail cause (''restoring '' @ k_config kept @ '' failed: '' @ x) s2
         | None \<Rightarrow> confirm_rollback env cfg plan cause s2))"

subsection \<open>Settling and running\<close>

definition admission_is :: "bool \<Rightarrow> (string + OperatorLifecycle option) \<Rightarrow> bool" where
  "admission_is open1 r = (case r of Inr (Some lc) \<Rightarrow> LC_admission_open lc = open1 | _ \<Rightarrow> False)"

definition updateSettled ::
  "'w node_env \<Rightarrow> Config \<Rightarrow> updateJournal \<Rightarrow> update_outcome \<Rightarrow> 'w agent \<Rightarrow> bool \<times> 'w agent" where
  "updateSettled env cfg j outcome s =
     (case outcome of
        OutcomeUpdated \<Rightarrow> (True, s)
      | OutcomeRolledBack \<Rightarrow> (True, s)
      | OutcomeAdmissionClosed \<Rightarrow> (True, s)
      | OutcomeFailed \<Rightarrow>
          (let (r, s1) = verifiedFile env (TelemtBin cfg) (J_binary_sha j) s
           in case r of
                Inl _ \<Rightarrow> (False, s1)
              | Inr _ \<Rightarrow>
                  if \<not> J_had_web j then (True, s1)
                  else (let (r2, s2) = outside (api_WebStatus env) s1 in (admission_is (J_admission_open j) r2, s2)))
      | _ \<Rightarrow> (False, s))"

definition upd_of :: "'w agent \<Rightarrow> TelemtUpdate" where
  "upd_of s = (case upd s of None \<Rightarrow> newTelemtUpdate [] [] | Some u \<Rightarrow> u)"

text \<open>The deferred function: close the journal when nothing is left to undo.\<close>

definition finalize_journal :: "'w node_env \<Rightarrow> Config \<Rightarrow> updateJournal \<Rightarrow> 'w agent \<Rightarrow> 'w agent" where
  "finalize_journal env cfg j s =
     (let state = upd_of s; (settled, s1) = updateSettled env cfg j (U_outcome state) s
      in if \<not> settled then s1
         else snd (writeUpdateJournal env cfg (j\<lparr>J_active := False, J_outcome := U_outcome state, J_error := U_error state\<rparr>) s1))"

text \<open>From the swap on: a restart that fails is rolled back.\<close>

definition update_swap ::
  "'w node_env \<Rightarrow> Config \<Rightarrow> UpdateTelemtRequest \<Rightarrow> updatePlan \<Rightarrow> bool \<Rightarrow> path \<Rightarrow> 'w agent \<Rightarrow> 'w agent" where
  "update_swap env cfg req plan paused staged s =
     (let (r1, s1) = swapTelemtBinary env cfg staged (begin_step StepSwap s)
      in case r1 of
           Inl x \<Rightarrow>
             (let (re, s2) = updateResume env plan paused (finish_step StepSwap StateFailed s1)
              in end_update OutcomeFailed (errors_Join (Some x) re) s2)
         | Inr kept \<Rightarrow>
     (let (e2, s2) = updateRestartAndVerify env cfg plan (Req_version req) (finish_step StepSwap StateOK s1)
      in case e2 of
           Some x \<Rightarrow> rollbackTelemt env cfg plan kept x s2
         | None \<Rightarrow>
     (let (e3, s3) = updateResume env plan paused s2
      in case e3 of
           Some x \<Rightarrow> end_update OutcomeAdmissionClosed (Some x) s3
         | None \<Rightarrow> end_update OutcomeUpdated None (discard env kept s3))))"

text \<open>Between the journal and its closing.\<close>

definition update_body ::
  "'w node_env \<Rightarrow> Config \<Rightarrow> UpdateTelemtRequest \<Rightarrow> updatePlan \<Rightarrow> path \<Rightarrow> 'w agent \<Rightarrow> 'w agent" where
  "update_body env cfg req plan staged s =
     (let (e1, s1) = updatePause env plan s
      in case e1 of Some x \<Rightarrow> end_update OutcomeFailed (Some x) s1
         | None \<Rightarrow>
             if drainSkip plan \<noteq> [] then update_swap env cfg req plan (p_pause plan) staged (skip_step StepDrain s1)
             else
     (let (e2, s2) = updateDrain env cfg (drainTimeoutSecs req) s1
      in case e2 of
           Some x \<Rightarrow>
             (let (re, s3) = updateResume env plan True s2 in end_update OutcomeFailed (errors_Join (Some x) re) s3)
         | None \<Rightarrow> update_swap env cfg req plan True staged s2))"

definition runTelemtUpdate :: "'w node_env \<Rightarrow> Config \<Rightarrow> UpdateTelemtRequest \<Rightarrow> 'w agent \<Rightarrow> 'w agent" where
  "runTelemtUpdate env cfg req s =
     (let (r1, s1) = updatePreflight env req s
      in case r1 of Inl x \<Rightarrow> end_update OutcomeRefused (Some x) s1
         | Inr plan \<Rightarrow>
     (let (r2, s2) = stageTelemtBinary env cfg req (begin_step StepDownload s1)
      in case r2 of Inl x \<Rightarrow> end_update OutcomeRefused (Some x) (finish_step StepDownload StateFailed s2)
         | Inr staged \<Rightarrow>
     (let (r3, s3) = prepareUpdateJournal env cfg plan (Req_version req) (finish_step StepDownload StateOK s2)
      in case r3 of
           Inl x \<Rightarrow> snd (Remove env staged (end_update OutcomeRefused (Some (''persist rollback intent: '' @ x)) s3))
         | Inr j \<Rightarrow>
             (let plan' = plan\<lparr>preserveClosed := J_had_web j \<and> \<not> J_admission_open j\<rparr>
              in snd (Remove env staged (finalize_journal env cfg j (update_body env cfg req plan' staged s3)))))))"

text \<open>
  \<^verbatim>\<open>StartTelemtUpdate\<close>; the goroutine it starts runs \<open>runTelemtUpdate\<close> to its end and releases
  the maintenance lock. The second component says whether the update was started.
\<close>

definition upd_running :: "'w agent \<Rightarrow> bool" where
  "upd_running s = (case upd s of None \<Rightarrow> False | Some u \<Rightarrow> U_phase u = PhaseRunning)"

definition StartTelemtUpdate :: "'w node_env \<Rightarrow> Config \<Rightarrow> UpdateTelemtRequest \<Rightarrow> 'w agent \<Rightarrow> failure \<times> 'w agent" where
  "StartTelemtUpdate env cfg req s =
     (if Engine cfg \<noteq> ''telemt'' then (Some ''this node does not run the telemt engine'', s)
      else if maintenance s then (Some ''node maintenance is already in progress'', s)
      else
     (let (e, s1) = checkUpdateJournal env cfg s
      in case e of Some x \<Rightarrow> (Some x, s1)
         | None \<Rightarrow>
             if upd_running s1 then (Some ''a telemt update is already running on this node'', s1)
             else (None, s1\<lparr>maintenance := True, upd := Some (newTelemtUpdate [] (TrimSpace (Req_version req)))\<rparr>)))"

definition update_job :: "'w node_env \<Rightarrow> Config \<Rightarrow> UpdateTelemtRequest \<Rightarrow> 'w agent \<Rightarrow> 'w agent" where
  "update_job env cfg req s = (runTelemtUpdate env cfg req s)\<lparr>maintenance := False\<rparr>"

subsection \<open>Recovery after a restart of the agent\<close>

definition recovered_text :: string where
  "recovered_text = ''interrupted update recovered from durable journal''"

definition restore_admission :: "'w node_env \<Rightarrow> updateJournal \<Rightarrow> 'w agent \<Rightarrow> failure \<times> 'w agent" where
  "restore_admission env j s =
     (if \<not> J_had_web j then (None, s)
      else
     (let (e1, s1) = outside (if J_admission_open j then api_WebResume env else api_WebPause env) s
      in case e1 of Some x \<Rightarrow> (Some x, s1)
         | None \<Rightarrow>
     (let (r2, s2) = outside (api_WebStatus env) s1
      in case r2 of
           Inl x \<Rightarrow> (Some x, s2)
         | Inr _ \<Rightarrow>
             if admission_is (J_admission_open j) r2 then (None, s2)
             else (Some ''original WEB admission could not be restored'', s2))))"

definition restore_saved :: "'w node_env \<Rightarrow> Config \<Rightarrow> updateJournal \<Rightarrow> 'w agent \<Rightarrow> failure \<times> 'w agent" where
  "restore_saved env cfg j s =
     (if J_binary j \<noteq> known_good_bin cfg \<or> J_config j \<noteq> known_good_config cfg
      then (Some ''invalid rollback artifact paths'', s)
      else
     (let (r1, s1) = verifiedFile env (J_binary j) (J_binary_sha j) s
      in case r1 of Inl x \<Rightarrow> (Some x, s1)
         | Inr binary \<Rightarrow>
     (let (r2, s2) = verifiedFile env (J_config j) (J_config_sha j) s1
      in case r2 of Inl x \<Rightarrow> (Some x, s2)
         | Inr config \<Rightarrow>
     (let (e3, s3) = writeAtomic env (TelemtBin cfg) binary s2
      in case e3 of Some x \<Rightarrow> (Some x, s3)
         | None \<Rightarrow> writeAtomicKeepOwner env (TelemtConfigPath cfg) config s3))))"

definition recover_active :: "'w node_env \<Rightarrow> Config \<Rightarrow> updateJournal \<Rightarrow> 'w agent \<Rightarrow> failure \<times> 'w agent" where
  "recover_active env cfg j s =
     (let (e1, s1) = restore_saved env cfg j s
      in case e1 of Some x \<Rightarrow> (Some x, s1)
         | None \<Rightarrow>
     (let (e2, s2) = restartTelemt env cfg s1
      in case e2 of Some x \<Rightarrow> (Some (''restart previous telemt: '' @ x), s2)
         | None \<Rightarrow>
     (let (e3, s3) = verifyTelemtVersion env (J_version j) s2
      in case e3 of Some x \<Rightarrow> (Some x, s3)
         | None \<Rightarrow>
     (let (e4, s4) = restore_admission env j s3
      in case e4 of Some x \<Rightarrow> (Some x, s4)
         | None \<Rightarrow>
     (let (e5, s5) = writeUpdateJournal env cfg
             (j\<lparr>J_active := False, J_outcome := OutcomeRolledBack, J_error := recovered_text\<rparr>) s4
      in case e5 of Some x \<Rightarrow> (Some x, s5)
         | None \<Rightarrow>
             (None, recoveryEvent env cfg ''update_rollback'' ''recovered interrupted update''
                (s5\<lparr>upd := Some (end_record OutcomeRolledBack (Some recovered_text) (newTelemtUpdate (J_version j) (J_target j)))\<rparr>)))))))"

definition recoverUpdate :: "'w node_env \<Rightarrow> Config \<Rightarrow> 'w agent \<Rightarrow> failure \<times> 'w agent" where
  "recoverUpdate env cfg s =
     (if Engine cfg \<noteq> ''telemt'' then (None, s)
      else
     (let (r, s1) = ReadFile env (updateJournalPath cfg) s
      in case r of
           Missing \<Rightarrow> (None, s1)
         | ReadError x \<Rightarrow> (Some x, s1)
         | Contents b \<Rightarrow>
             (case dec_journal env b of
                None \<Rightarrow> (Some ''invalid update journal'', s1)
              | Some j \<Rightarrow>
                  if \<not> J_active j then
                    (None, if J_outcome j = NoOutcome then s1
                       else s1\<lparr>upd := Some (end_record (J_outcome j) (if J_error j = [] then None else Some (J_error j))
                              (newTelemtUpdate (J_version j) (J_target j)))\<rparr>)
                  else if maintenance s1 then (Some ''maintenance busy during recovery'', s1)
                  else recover_active env cfg j s1)))"

end
