(* ===== verification/Agent_Update_Frames.thy ===== *)
theory Agent_Update_Frames
  imports Agent_Update
begin

text \<open>
  The contracts of the steps of a Telemt update: which of them leave the disk alone, which paths
  the others may touch, and what is on the disk after the swap and after a rollback.
\<close>

subsection \<open>Steps that leave the disk alone\<close>

lemma on_upd_simps [simp]:
  "disk (on_upd f s) = disk s" "dlog (on_upd f s) = dlog s" "upd (on_upd f s) = map_option f (upd s)"
  "world (on_upd f s) = world s"
  by (simp_all add: on_upd_def)

lemma step_simps [simp]:
  "disk (begin_step k s) = disk s" "dlog (begin_step k s) = dlog s" "(upd (begin_step k s) = None) = (upd s = None)"
  "disk (progress k a b s) = disk s" "dlog (progress k a b s) = dlog s" "(upd (progress k a b s) = None) = (upd s = None)"
  "disk (finish_step k st s) = disk s" "dlog (finish_step k st s) = dlog s" "(upd (finish_step k st s) = None) = (upd s = None)"
  "disk (skip_step k s) = disk s" "dlog (skip_step k s) = dlog s" "(upd (skip_step k s) = None) = (upd s = None)"
  "disk (setFrom v s) = disk s" "dlog (setFrom v s) = dlog s" "(upd (setFrom v s) = None) = (upd s = None)"
  "disk (setDrained s) = disk s" "dlog (setDrained s) = dlog s" "(upd (setDrained s) = None) = (upd s = None)"
  "disk (end_update r x s) = disk s" "dlog (end_update r x s) = dlog s" "(upd (end_update r x s) = None) = (upd s = None)"
  by (simp_all add: begin_step_def progress_def finish_step_def skip_step_def setFrom_def setDrained_def end_update_def)

lemma upd_outside [simp]: "upd (snd (outside f s)) = upd s"
  by (rule more_eq) simp

lemma upd_pair: "outside f s = (r, s') \<Longrightarrow> upd s' = upd s"
  using upd_outside [of f s] by simp

definition was_drained :: "'w agent \<Rightarrow> bool" where
  "was_drained s \<longleftrightarrow> (case upd s of None \<Rightarrow> False | Some u \<Rightarrow> U_drained u)"

lemma was_drained_upd: "was_drained s \<Longrightarrow> upd s \<noteq> None"
  by (auto simp: was_drained_def split: option.splits)

lemma was_drained_outside [simp]: "was_drained (snd (outside f s)) = was_drained s"
  by (simp add: was_drained_def)

lemma was_drained_steps [simp]:
  "was_drained (begin_step k s) = was_drained s" "was_drained (progress k a b s) = was_drained s"
  "was_drained (finish_step k st s) = was_drained s" "was_drained (skip_step k s) = was_drained s"
  "was_drained (setFrom v s) = was_drained s" "was_drained (end_update r x s) = was_drained s"
  "was_drained (setDrained s) = (upd s \<noteq> None)"
  by (cases "upd s"; simp add: was_drained_def begin_step_def progress_def finish_step_def skip_step_def setFrom_def
      setDrained_def end_update_def end_record_def split: option.splits)+

text \<open>
  \<open>same_disk s s'\<close>: nothing was written, there is a progress record after iff there was before,
  and it does not lose the mark of a completed drain.
\<close>

definition same_disk :: "'w agent \<Rightarrow> 'w agent \<Rightarrow> bool" where
  "same_disk s s' \<longleftrightarrow>
     disk s' = disk s \<and> dlog s' = dlog s \<and> (upd s' = None) = (upd s = None) \<and> (was_drained s \<longrightarrow> was_drained s')"

lemma same_disk_refl [simp]: "same_disk s s"
  by (simp add: same_disk_def)

lemma same_disk_trans: "same_disk s s1 \<Longrightarrow> same_disk s1 s2 \<Longrightarrow> same_disk s s2"
  by (simp add: same_disk_def)

lemma same_disk_outside [simp]: "same_disk s (snd (outside f s1)) = same_disk s s1"
  by (simp add: same_disk_def)

lemma same_disk_steps [simp]:
  "same_disk s (begin_step k s1) = same_disk s s1" "same_disk s (progress k a b s1) = same_disk s s1"
  "same_disk s (finish_step k st s1) = same_disk s s1" "same_disk s (skip_step k s1) = same_disk s s1"
  "same_disk s (setFrom v s1) = same_disk s s1" "same_disk s (end_update r x s1) = same_disk s s1"
  by (simp_all add: same_disk_def)

lemma same_disk_setDrained: "same_disk s s1 \<Longrightarrow> same_disk s (setDrained s1)"
  using was_drained_upd [of s] by (simp add: same_disk_def del: not_None_eq)

lemma same_disk_ReadFile [simp]: "same_disk s (snd (ReadFile env p s1)) = same_disk s s1"
  using more_eq(1) [OF ReadFile_frame(3) [of env p s1]] by (simp add: same_disk_def was_drained_def)

lemma same_disk_within: "same_disk s s' \<Longrightarrow> within A s s'"
  by (simp add: same_disk_def within_eq)

lemma same_disk_wait: "same_disk s s1 \<Longrightarrow> same_disk s (snd (waitTelemtReady env n s1))"
  by (induction n arbitrary: s1) (simp_all add: Let_def split_beta split: option.splits)

lemma same_disk_restart: "same_disk s s1 \<Longrightarrow> same_disk s (snd (restartTelemt env cfg s1))"
  by (simp add: restartTelemt_def Let_def split_beta same_disk_wait split: option.splits)

lemma same_disk_version: "same_disk s s1 \<Longrightarrow> same_disk s (snd (verifyTelemtVersion env v s1))"
  by (simp add: verifyTelemtVersion_def Let_def split_beta split: sum.splits)

lemma same_disk_verified: "same_disk s s1 \<Longrightarrow> same_disk s (snd (verifiedFile env p h s1))"
  by (simp add: verifiedFile_def Let_def split_beta split: read_result.splits)

lemma same_disk_check: "same_disk s s1 \<Longrightarrow> same_disk s (snd (checkUpdateJournal env cfg s1))"
  by (simp add: checkUpdateJournal_def Let_def split_beta split: read_result.splits option.splits)

lemma same_disk_pause: "same_disk s s1 \<Longrightarrow> same_disk s (snd (updatePause env plan s1))"
  by (simp add: updatePause_def Let_def split_beta split: option.splits)

lemma same_disk_drain_loop: "same_disk s s1 \<Longrightarrow> same_disk s (snd (drain_loop env n s1))"
proof (induction n arbitrary: s1)
  case 0
  then show ?case
    by (subst drain_loop.simps) (simp add: Let_def split_beta drain_fail_def same_disk_setDrained split: sum.splits option.splits)
next
  case (Suc n)
  then show ?case
    by (subst drain_loop.simps) (simp add: Let_def split_beta drain_fail_def same_disk_setDrained split: sum.splits option.splits)
qed

lemma same_disk_drain: "same_disk s s1 \<Longrightarrow> same_disk s (snd (updateDrain env cfg n s1))"
  by (simp add: updateDrain_def Let_def split_beta drain_fail_def same_disk_drain_loop split: option.splits)

text \<open>A drain that succeeds leaves its mark.\<close>

lemma drain_loop_marks:
  "upd s \<noteq> None \<Longrightarrow> (case drain_loop env n s of (e, t) \<Rightarrow> e = None \<longrightarrow> was_drained t)"
proof (induction n arbitrary: s)
  case 0
  then show ?case
    by (subst drain_loop.simps)
      (simp add: Let_def split_beta drain_fail_def del: not_None_eq split: sum.split option.split)
next
  case (Suc n)
  then show ?case
    by (subst drain_loop.simps)
      (simp add: Let_def split_beta drain_fail_def del: not_None_eq split: sum.split option.split)
qed

lemma drain_marks:
  assumes "upd s \<noteq> None" "fst (updateDrain env cfg n s) = None"
  shows "was_drained (snd (updateDrain env cfg n s))"
proof -
  let ?s = "snd (outside (api_WebDrain env n) (begin_step StepDrain s))"
  have "upd ?s \<noteq> None" using assms(1) by (simp del: not_None_eq)
  from drain_loop_marks [OF this, of env "drain_polls cfg n"] show ?thesis
    using assms(2) by (simp add: updateDrain_def split_beta drain_fail_def split: option.splits)
qed

lemma same_disk_resume: "same_disk s s1 \<Longrightarrow> same_disk s (snd (updateResume env plan paused s1))"
  by (auto simp: updateResume_def keep_closed_def reopen_def resume_fail_def Let_def split_beta
      split: option.splits sum.splits)

lemma same_disk_restart_verify: "same_disk s s1 \<Longrightarrow> same_disk s (snd (updateRestartAndVerify env cfg plan v s1))"
  by (auto simp: updateRestartAndVerify_def verify_fail_def Let_def split_beta
      same_disk_restart same_disk_version split: option.splits sum.splits)

lemma same_disk_preflight: "same_disk s s1 \<Longrightarrow> same_disk s (snd (updatePreflight env req s1))"
  by (auto simp: updatePreflight_def fail_step_def Let_def split_beta split: option.splits sum.splits)

lemma same_disk_admission: "same_disk s s1 \<Longrightarrow> same_disk s (snd (record_admission env plan s1))"
  by (simp add: record_admission_def Let_def split_beta)

lemma same_disk_settled: "same_disk s s1 \<Longrightarrow> same_disk s (snd (updateSettled env cfg j r s1))"
  by (auto simp: updateSettled_def Let_def split_beta split: update_outcome.splits sum.splits intro: same_disk_verified)

lemma same_disk_restore_admission: "same_disk s s1 \<Longrightarrow> same_disk s (snd (restore_admission env j s1))"
  by (auto simp: restore_admission_def Let_def split_beta split: option.splits sum.splits)

lemma same_disk_installed: "same_disk s s1 \<Longrightarrow> same_disk s (snd (verify_installed env plan s1))"
  by (simp add: verify_installed_def same_disk_version)

lemmas same_disk_intros = same_disk_wait same_disk_restart same_disk_version same_disk_verified same_disk_check same_disk_pause
  same_disk_drain same_disk_resume same_disk_restart_verify same_disk_preflight same_disk_admission same_disk_settled
  same_disk_restore_admission same_disk_installed

subsection \<open>The paths of an update\<close>

definition update_paths :: "Config \<Rightarrow> path list" where
  "update_paths cfg =
     [TelemtBin cfg, prev_of (TelemtBin cfg), TelemtConfigPath cfg, prev_of (TelemtConfigPath cfg), staged_path cfg,
      updateJournalPath cfg, known_good_bin cfg, known_good_config cfg, recoveryPath cfg]"

definition paths_ok :: "Config \<Rightarrow> bool" where
  "paths_ok cfg \<longleftrightarrow> distinct (update_paths cfg) \<and> TelemtConfigPath cfg \<noteq> []"

definition swapped_paths :: "Config \<Rightarrow> path set" where
  "swapped_paths cfg = {TelemtBin cfg, prev_of (TelemtBin cfg), prev_of (TelemtConfigPath cfg), staged_path cfg}"

definition touched_paths :: "Config \<Rightarrow> path set" where
  "touched_paths cfg = insert (TelemtConfigPath cfg) (swapped_paths cfg)"

lemma prev_of_nonempty [simp]: "prev_of p \<noteq> []"
  by (simp add: prev_of_def)

lemma paths_okD:
  assumes "paths_ok cfg"
  shows "TelemtConfigPath cfg \<notin> swapped_paths cfg" "updateJournalPath cfg \<notin> touched_paths cfg"
    "known_good_bin cfg \<notin> touched_paths cfg" "known_good_config cfg \<notin> touched_paths cfg"
    "TelemtConfigPath cfg \<noteq> []" "prev_of (TelemtBin cfg) \<noteq> TelemtBin cfg" "prev_of (TelemtConfigPath cfg) \<noteq> TelemtConfigPath cfg"
    "TelemtBin cfg \<noteq> TelemtConfigPath cfg" "TelemtBin cfg \<noteq> staged_path cfg" "TelemtBin cfg \<noteq> prev_of (TelemtConfigPath cfg)"
    "prev_of (TelemtBin cfg) \<noteq> TelemtConfigPath cfg" "prev_of (TelemtBin cfg) \<noteq> prev_of (TelemtConfigPath cfg)"
    "prev_of (TelemtBin cfg) \<noteq> staged_path cfg" "prev_of (TelemtConfigPath cfg) \<noteq> staged_path cfg"
    "TelemtConfigPath cfg \<noteq> staged_path cfg"
  using assms by (auto simp: paths_ok_def update_paths_def swapped_paths_def touched_paths_def)

lemma paths_ok_durable:
  assumes "paths_ok cfg"
  shows "updateJournalPath cfg \<noteq> known_good_bin cfg" "updateJournalPath cfg \<noteq> known_good_config cfg"
    "known_good_bin cfg \<noteq> known_good_config cfg" "TelemtBin cfg \<noteq> updateJournalPath cfg" "TelemtConfigPath cfg \<noteq> updateJournalPath cfg"
    "TelemtBin cfg \<noteq> known_good_bin cfg" "TelemtBin cfg \<noteq> known_good_config cfg" "TelemtConfigPath cfg \<noteq> known_good_bin cfg"
    "TelemtConfigPath cfg \<noteq> known_good_config cfg" "staged_path cfg \<noteq> updateJournalPath cfg"
    "staged_path cfg \<noteq> known_good_bin cfg" "staged_path cfg \<noteq> known_good_config cfg"
    "recoveryPath cfg \<noteq> updateJournalPath cfg" "recoveryPath cfg \<noteq> TelemtBin cfg" "recoveryPath cfg \<noteq> TelemtConfigPath cfg"
  using assms by (auto simp: paths_ok_def update_paths_def)

subsection \<open>The swap\<close>

lemma upd_keep:
  "upd (snd (writeAtomic env p b s)) = upd s" "upd (snd (Remove env p s)) = upd s" "upd (snd (backupFile env p s)) = upd s"
  "upd (snd (restoreFile env q p s)) = upd s" "upd (snd (open_trunc env p s)) = upd s" "upd (snd (copy_to env p b s)) = upd s"
  "upd (snd (writeAtomicKeepOwner env p b s)) = upd s" "upd (snd (ReadFile env p s)) = upd s" "upd (set_disk d s) = upd s"
  by (rule more_eq, simp add: backupFile_frame restoreFile_frame)+

lemma keep_config_contract:
  assumes "keep_config env p s = (r, s')" "p \<noteq> []"
  shows "within {prev_of p} s s'" "upd s' = upd s"
    "r = Inr q \<Longrightarrow> disk s p = Some c \<Longrightarrow> q = prev_of p \<and> disk s' q = Some c"
proof -
  have s': "s' = snd (backupFile env p s)"
    using assms by (auto simp: keep_config_def Let_def split_beta split: sum.splits)
  show "within {prev_of p} s s'" unfolding s' by (rule backupFile_frame) simp
  show "upd s' = upd s" unfolding s' by (rule upd_keep)
  assume "r = Inr q" "disk s p = Some c"
  then have "fst (backupFile env p s) = Inr q"
    using assms by (auto simp: keep_config_def Let_def split_beta split: sum.splits)
  from backupFile_ok [OF this] show "q = prev_of p \<and> disk s' q = Some c"
    using \<open>disk s p = Some c\<close> s' by auto
qed

text \<open>
  Whatever happens in it, a swap keeps the configuration, and when it succeeds the new binary
  is in place with copies of the old binary and configuration beside it.
\<close>

definition kept_files :: "Config \<Rightarrow> keptFiles" where
  "kept_files cfg = \<lparr>k_bin = TelemtBin cfg, k_binPrev = prev_of (TelemtBin cfg), k_config = TelemtConfigPath cfg,
     k_configPrev = prev_of (TelemtConfigPath cfg)\<rparr>"

definition copies_kept :: "Config \<Rightarrow> string \<Rightarrow> string \<Rightarrow> disk \<Rightarrow> bool" where
  "copies_kept cfg B C d \<longleftrightarrow> d (prev_of (TelemtBin cfg)) = Some B \<and> d (prev_of (TelemtConfigPath cfg)) = Some C"

definition swap_result ::
  "Config \<Rightarrow> string \<Rightarrow> string \<Rightarrow> string \<Rightarrow> 'w agent \<Rightarrow> (string + keptFiles) \<times> 'w agent \<Rightarrow> bool" where
  "swap_result cfg B C N s out \<longleftrightarrow>
     within (swapped_paths cfg) s (snd out) \<and> upd (snd out) = upd s \<and>
     (\<forall>kept. fst out = Inr kept \<longrightarrow>
        kept = kept_files cfg \<and> disk (snd out) (TelemtBin cfg) = Some N \<and> copies_kept cfg B C (disk (snd out)))"

lemma swap_install:
  assumes ok: "paths_ok cfg" and w: "within (swapped_paths cfg) s s3" "upd s3 = upd s"
    and kept: "copies_kept cfg B C (disk s3)"
    and d_def: "d = set_disk ((disk s3)(TelemtBin cfg \<mapsto> N, staged_path cfg := None)) s3"
    and chmod: "fault env (ChmodOp (TelemtBin cfg)) d = (e4, s4)"
  shows "swap_result cfg B C N s
     (case e4 of
        Some x \<Rightarrow> (Inl y, snd (restoreFile env (prev_of (TelemtBin cfg)) (TelemtBin cfg) s4))
      | None \<Rightarrow> (Inr (kept_files cfg), s4))"
proof -
  let ?A = "swapped_paths cfg"
  note p = paths_okD [OF ok]
  have "within ?A s d" unfolding d_def
    using within_update2 [OF _ _ w(1), of "TelemtBin cfg" "staged_path cfg"] by (simp add: swapped_paths_def)
  then have w4: "within ?A s s4" "upd s4 = upd s"
    using within_trans [OF _ within_pair [OF chmod]] upd_pair [OF chmod] w(2) by (simp_all add: d_def upd_keep)
  have "within ?A s (snd (restoreFile env (prev_of (TelemtBin cfg)) (TelemtBin cfg) s4))"
    by (rule within_trans [OF w4(1) restoreFile_frame(2)]) (simp_all add: swapped_paths_def)
  moreover have "copies_kept cfg B C (disk s4)" "disk s4 (TelemtBin cfg) = Some N"
    using outside_pair [OF chmod] kept p by (auto simp: d_def copies_kept_def)
  ultimately show ?thesis
    using w4 by (cases e4) (auto simp: swap_result_def upd_keep)
qed

lemma swap_contract:
  assumes ok: "paths_ok cfg" and bin: "disk s (TelemtBin cfg) = Some B" and con: "disk s (TelemtConfigPath cfg) = Some C"
    and new: "disk s (staged_path cfg) = Some N"
  shows "swap_result cfg B C N s (swapTelemtBinary env cfg (staged_path cfg) s)"
proof -
  let ?A = "swapped_paths cfg"
  note p = paths_okD [OF ok]
  obtain r1 s1 where 1: "backupFile env (TelemtBin cfg) s = (r1, s1)" by fastforce
  obtain r2 s2 where 2: "keep_config env (TelemtConfigPath cfg) s1 = (r2, s2)" by fastforce
  obtain e3 s3 where 3: "fault env (RenameOp (TelemtBin cfg)) s2 = (e3, s3)" by fastforce
  have b1: "within {prev_of (TelemtBin cfg)} s s1" "upd s1 = upd s"
    using backupFile_frame(2) [where p = "TelemtBin cfg" and A = "{prev_of (TelemtBin cfg)}" and env = env and s = s]
      upd_keep(3) [of env "TelemtBin cfg" s] 1 by simp_all
  then have w1: "within ?A s s1"
    by (auto elim: within_mono simp: swapped_paths_def)
  note kc = keep_config_contract [OF 2 p(5)]
  have w2: "within ?A s s2" "upd s2 = upd s"
    using within_trans [OF w1 within_mono [OF kc(1)]] kc(2) b1(2) by (simp_all add: swapped_paths_def)
  have w3: "within ?A s s3" "upd s3 = upd s" "disk s3 = disk s2"
    using within_trans [OF w2(1) within_pair [OF 3]] outside_pair [OF 3] upd_pair [OF 3] w2(2) by simp_all
  show ?thesis
  proof (cases "(\<exists>q. r1 = Inr q) \<and> (\<exists>q. r2 = Inr q) \<and> e3 = None \<and> disk s3 (staged_path cfg) \<noteq> None")
    case False
    then have "\<exists>x. swapTelemtBinary env cfg (staged_path cfg) s \<in> {(Inl x, s1), (Inl x, s2), (Inl x, s3)}"
      using 1 2 3 by (auto simp: swapTelemtBinary_def Let_def split: sum.splits option.splits)
    then show ?thesis using w1 b1(2) w2 w3 by (auto simp: swap_result_def)
  next
    case True
    then obtain q1 q2 where q: "r1 = Inr q1" "r2 = Inr q2" by auto
    have q1: "q1 = prev_of (TelemtBin cfg)" "disk s1 (prev_of (TelemtBin cfg)) = Some B"
      using backupFile_ok [of env "TelemtBin cfg" s q1] 1 q(1) bin by auto
    have d1: "disk s1 (TelemtConfigPath cfg) = Some C" "disk s1 (staged_path cfg) = Some N"
      using within_disk [OF b1(1)] con new p by auto
    have q2: "q2 = prev_of (TelemtConfigPath cfg)" "disk s2 (prev_of (TelemtConfigPath cfg)) = Some C"
      using kc(3) [OF q(2) d1(1)] by auto
    have N: "disk s3 (staged_path cfg) = Some N" and kept: "copies_kept cfg B C (disk s3)"
      using within_disk [OF kc(1)] q1(2) q2(2) d1(2) w3(3) p by (auto simp: copies_kept_def)
    define d where "d = set_disk ((disk s3)(TelemtBin cfg \<mapsto> N, staged_path cfg := None)) s3"
    obtain e4 s4 where 4: "fault env (ChmodOp (TelemtBin cfg)) d = (e4, s4)" by fastforce
    have "\<exists>y. swapTelemtBinary env cfg (staged_path cfg) s =
        (case e4 of Some x \<Rightarrow> (Inl y, snd (restoreFile env (prev_of (TelemtBin cfg)) (TelemtBin cfg) s4))
          | None \<Rightarrow> (Inr (kept_files cfg), s4))"
      using True 1 2 3 4 q N q1(1) q2(1)
      by (auto simp: swapTelemtBinary_def Let_def d_def kept_files_def split_beta split: option.splits)
    then show ?thesis
      using swap_install [OF ok w3(1,2) kept d_def 4] by auto
  qed
qed

subsection \<open>The rollback\<close>

definition outcome_of :: "'w agent \<Rightarrow> update_outcome" where
  "outcome_of s = U_outcome (upd_of s)"

lemma outcome_end [simp]: "upd s \<noteq> None \<Longrightarrow> outcome_of (end_update r x s) = r"
  by (auto simp: outcome_of_def upd_of_def end_update_def end_record_def)

lemma same_disk_facts: "same_disk s s' \<Longrightarrow> disk s' = disk s" "same_disk s s' \<Longrightarrow> (upd s' = None) = (upd s = None)"
  by (simp_all add: same_disk_def)

lemma confirm_contract:
  assumes "upd s \<noteq> None"
  obtains r x t where "confirm_rollback env cfg plan cause s = end_update r x t" "same_disk s t" "upd t \<noteq> None"
    "r \<in> {OutcomeRolledBack, OutcomeRollbackFailed}"
proof -
  obtain e3 s3 where 3: "restartTelemt env cfg s = (e3, s3)" by fastforce
  obtain e4 s4 where 4: "verify_installed env plan s3 = (e4, s4)" by fastforce
  obtain e5 s5 where 5: "updateResume env plan True (finish_step StepRollback StateOK s4) = (e5, s5)" by fastforce
  have sd: "same_disk s s3" "same_disk s s4" "same_disk s s5"
    using same_disk_restart [of s s env cfg] 3 same_disk_installed [of s s3 env plan] 4
      same_disk_resume [of s "finish_step StepRollback StateOK s4" env plan True] 5 by simp_all
  then have u: "upd s3 \<noteq> None" "upd s4 \<noteq> None" "upd s5 \<noteq> None"
    using assms by (simp_all add: same_disk_facts(2))
  let ?good = "\<lambda>a. \<exists>r x t. a = end_update r x t \<and> same_disk s t \<and> upd t \<noteq> None \<and> r \<in> {OutcomeRolledBack, OutcomeRollbackFailed}"
  have good: "same_disk s t \<Longrightarrow> upd t \<noteq> None \<Longrightarrow> r \<in> {OutcomeRolledBack, OutcomeRollbackFailed} \<Longrightarrow> ?good (end_update r x t)" for r x t
    by blast
  have "?good (rollback_fail cause y s3)" "?good (rollback_fail cause y s4)" "?good (end_update OutcomeRolledBack z s5)"
    "?good (end_update OutcomeRollbackFailed z s5)" for y z
    unfolding rollback_fail_def by (rule good; use sd u in simp)+
  then have "?good (confirm_rollback env cfg plan cause s)"
    unfolding confirm_rollback_def 3 4 5 Let_def by (simp add: 3 4 5 split: option.split)
  then show ?thesis using that by blast
qed

text \<open>A rollback is reported as one only with the old binary and configuration on the disk.\<close>

definition rollback_result :: "Config \<Rightarrow> string \<Rightarrow> string \<Rightarrow> 'w agent \<Rightarrow> 'w agent \<Rightarrow> bool" where
  "rollback_result cfg B C s s' \<longleftrightarrow>
     within (touched_paths cfg) s s' \<and> upd s' \<noteq> None \<and> outcome_of s' \<in> {OutcomeRolledBack, OutcomeRollbackFailed} \<and>
     (outcome_of s' = OutcomeRolledBack \<longrightarrow> disk s' (TelemtBin cfg) = Some B \<and> disk s' (TelemtConfigPath cfg) = Some C)"

lemma rollback_result_end:
  assumes "within (touched_paths cfg) s t0" "same_disk t0 t" "upd t \<noteq> None" "r \<in> {OutcomeRolledBack, OutcomeRollbackFailed}"
    and "r = OutcomeRolledBack \<Longrightarrow> disk t0 (TelemtBin cfg) = Some B \<and> disk t0 (TelemtConfigPath cfg) = Some C"
  shows "rollback_result cfg B C s (end_update r x t)"
  using assms within_trans [OF assms(1) same_disk_within, of "end_update r x t"] same_disk_facts(1) [OF assms(2)]
  by (auto simp: rollback_result_def)

lemma rollback_contract:
  assumes ok: "paths_ok cfg" and kept: "copies_kept cfg B C (disk s)" and u: "upd s \<noteq> None"
  shows "rollback_result cfg B C s (rollbackTelemt env cfg plan (kept_files cfg) cause s)"
proof -
  let ?A = "touched_paths cfg"
  let ?bp = "prev_of (TelemtBin cfg)" and ?cp = "prev_of (TelemtConfigPath cfg)"
  note p = paths_okD [OF ok]
  obtain e1 s1 where 1: "restoreFile env ?bp (TelemtBin cfg) (begin_step StepRollback s) = (e1, s1)" by fastforce
  obtain e2 s2 where 2: "restoreFile env ?cp (TelemtConfigPath cfg) s1 = (e2, s2)" by fastforce
  note f1 = restoreFile_frame [where env = env and prev = ?bp and p = "TelemtBin cfg" and s = "begin_step StepRollback s", unfolded 1 snd_conv fst_conv]
  note f2 = restoreFile_frame [where env = env and prev = ?cp and p = "TelemtConfigPath cfg" and s = s1, unfolded 2 snd_conv fst_conv]
  have w1: "within ?A s s1" "upd s1 \<noteq> None"
    using within_trans [OF same_disk_within f1(2)] more_eq(1) [OF f1(1)] u by (auto simp: touched_paths_def swapped_paths_def)
  have w2: "within ?A s s2" "upd s2 \<noteq> None"
    using within_trans [OF w1(1) f2(2)] more_eq(1) [OF f2(1)] w1(2) by (auto simp: touched_paths_def swapped_paths_def)
  have old: "disk s2 (TelemtBin cfg) = Some B \<and> disk s2 (TelemtConfigPath cfg) = Some C" if "e1 = None" "e2 = None"
  proof -
    have "within {TelemtBin cfg, ?bp} (begin_step StepRollback s) s1" using f1(2) by simp
    from within_disk [OF this, of ?cp] have c: "disk s1 ?cp = Some C" using kept p by (simp add: copies_kept_def)
    have "within {TelemtConfigPath cfg, ?cp} s1 s2" using f2(2) by simp
    from within_disk [OF this, of "TelemtBin cfg"] show ?thesis
      using f1(3) f2(3) that c kept p by (simp add: copies_kept_def)
  qed
  obtain r x t where t: "confirm_rollback env cfg plan cause s2 = end_update r x t" "same_disk s2 t" "upd t \<noteq> None"
    "r \<in> {OutcomeRolledBack, OutcomeRollbackFailed}"
    using confirm_contract [OF w2(2)] .
  have "rollback_result cfg B C s (rollback_fail cause y s1)" "rollback_result cfg B C s (rollback_fail cause y s2)" for y
    unfolding rollback_fail_def by (rule rollback_result_end [OF w1(1)] rollback_result_end [OF w2(1)]; use w1 w2 in simp)+
  then show ?thesis
    using 1 2 t rollback_result_end [OF w2(1) t(2,3,4), of B C x] old
    by (cases e1; cases e2) (simp_all add: rollbackTelemt_def kept_files_def restore_config_def)
qed

subsection \<open>The mark of a drain\<close>

lemma was_drained_cong: "upd s' = upd s \<Longrightarrow> was_drained s' = was_drained s"
  by (simp add: was_drained_def)

lemmas was_drained_files [simp] = upd_keep(1-8) [THEN was_drained_cong]

lemma was_drained_same: "same_disk s s' \<Longrightarrow> was_drained s \<Longrightarrow> was_drained s'"
  by (simp add: same_disk_def)

lemma was_drained_calls:
  "was_drained s \<Longrightarrow> was_drained (snd (updateResume env plan paused s))"
  "was_drained s \<Longrightarrow> was_drained (snd (updateRestartAndVerify env cfg plan v s))"
  "was_drained s \<Longrightarrow> was_drained (snd (restartTelemt env cfg s))"
  "was_drained s \<Longrightarrow> was_drained (snd (verify_installed env plan s))"
  by (rule was_drained_same; simp add: same_disk_intros)+

lemma was_drained_swap [simp]: "was_drained (snd (swapTelemtBinary env cfg p s)) = was_drained s"
  by (auto simp: swapTelemtBinary_def keep_config_def Let_def split_beta was_drained_cong [OF upd_keep(9)]
      split: sum.splits option.splits)

lemma was_drained_rollback: "was_drained s \<Longrightarrow> was_drained (rollbackTelemt env cfg plan kept cause s)"
  by (simp add: rollbackTelemt_def confirm_rollback_def restore_config_def rollback_fail_def Let_def split_beta was_drained_calls
      split: option.split)

lemma was_drained_discard [simp]: "was_drained (discard env kept s) = was_drained s"
  by (simp add: discard_def)

lemma was_drained_update_swap: "was_drained s \<Longrightarrow> was_drained (update_swap env cfg req plan paused p s)"
  by (simp add: update_swap_def Let_def split_beta was_drained_calls was_drained_rollback split: option.split sum.split)

end
