(* ===== verification/Agent_Update_Safety.thy ===== *)
theory Agent_Update_Safety
  imports Agent_Update_Frames
begin

text \<open>
  What a Telemt update promises: it can be interrupted at any point and recovered from its
  journal; the outcome it reports is what is on the disk; it never swaps under live sessions when
  draining is required.
\<close>

subsection \<open>From the journal to its closing\<close>

definition update_result :: "Config \<Rightarrow> string \<Rightarrow> string \<Rightarrow> string \<Rightarrow> 'w agent \<Rightarrow> 'w agent \<Rightarrow> bool" where
  "update_result cfg B C N s s' \<longleftrightarrow>
     within (touched_paths cfg) s s' \<and> upd s' \<noteq> None \<and>
     (case outcome_of s' of
        OutcomeUpdated \<Rightarrow> disk s' (TelemtBin cfg) = Some N \<and> disk s' (TelemtConfigPath cfg) = Some C
      | OutcomeAdmissionClosed \<Rightarrow> disk s' (TelemtBin cfg) = Some N \<and> disk s' (TelemtConfigPath cfg) = Some C
      | OutcomeRolledBack \<Rightarrow> disk s' (TelemtBin cfg) = Some B \<and> disk s' (TelemtConfigPath cfg) = Some C
      | OutcomeFailed \<Rightarrow> disk s' (TelemtConfigPath cfg) = Some C
      | OutcomeRollbackFailed \<Rightarrow> True
      | _ \<Rightarrow> False)"

lemma swapped_touched: "swapped_paths cfg \<subseteq> touched_paths cfg"
  by (auto simp: touched_paths_def)

lemma update_result_end:
  assumes "within (touched_paths cfg) s t0" "same_disk t0 t" "upd t \<noteq> None" "disk t0 (TelemtConfigPath cfg) = Some C"
    and "r = OutcomeFailed \<or> r \<in> {OutcomeUpdated, OutcomeAdmissionClosed} \<and> disk t0 (TelemtBin cfg) = Some N"
  shows "update_result cfg B C N s (end_update r x t)"
  using assms within_trans [OF assms(1) same_disk_within, of "end_update r x t"] same_disk_facts(1) [OF assms(2)]
  by (auto simp: update_result_def)

lemma update_result_rollback:
  assumes "within (touched_paths cfg) s t" "rollback_result cfg B C t s'"
  shows "update_result cfg B C N s s'"
  using assms within_trans [OF assms(1)] by (auto simp: update_result_def rollback_result_def)

lemma discard_contract:
  "within {prev_of (TelemtBin cfg), prev_of (TelemtConfigPath cfg)} s (discard env (kept_files cfg) s)"
  "upd (discard env (kept_files cfg) s) = upd s"
  by (auto simp: discard_def kept_files_def upd_keep intro!: within_trans [OF Remove_frame(2) Remove_frame(2)])

lemma update_swap_contract:
  assumes ok: "paths_ok cfg" and bin: "disk s (TelemtBin cfg) = Some B" and con: "disk s (TelemtConfigPath cfg) = Some C"
    and new: "disk s (staged_path cfg) = Some N" and u: "upd s \<noteq> None"
  shows "update_result cfg B C N s (update_swap env cfg req plan paused (staged_path cfg) s)"
proof -
  note p = paths_okD [OF ok]
  obtain r1 s1 where 1: "swapTelemtBinary env cfg (staged_path cfg) (begin_step StepSwap s) = (r1, s1)" by fastforce
  have sw: "swap_result cfg B C N (begin_step StepSwap s) (r1, s1)"
    using swap_contract [OF ok, of "begin_step StepSwap s" B C N env] bin con new 1 by simp
  then have ws: "within (swapped_paths cfg) (begin_step StepSwap s) s1" and u1: "upd s1 \<noteq> None"
    using u by (auto simp: swap_result_def)
  have w1: "within (touched_paths cfg) s s1"
    by (rule within_trans [OF same_disk_within within_mono [OF ws swapped_touched]]) simp
  have c1: "disk s1 (TelemtConfigPath cfg) = Some C"
    using within_disk [OF ws p(1)] con by simp
  show ?thesis
  proof (cases r1)
    case (Inl x)
    obtain re s2 where 2: "updateResume env plan paused (finish_step StepSwap StateFailed s1) = (re, s2)" by fastforce
    have sd: "same_disk s1 s2" using same_disk_resume [of s1 "finish_step StepSwap StateFailed s1" env plan paused] 2 by simp
    have "update_result cfg B C N s (end_update OutcomeFailed (errors_Join (Some x) re) s2)"
      by (rule update_result_end [OF w1 sd]) (use u1 c1 same_disk_facts(2) [OF sd] in auto)
    then show ?thesis using 1 2 Inl by (simp add: update_swap_def)
  next
    case (Inr kept)
    then have k: "kept = kept_files cfg" "disk s1 (TelemtBin cfg) = Some N" "copies_kept cfg B C (disk s1)"
      using sw by (auto simp: swap_result_def)
    obtain e2 s2 where 2: "updateRestartAndVerify env cfg plan (Req_version req) (finish_step StepSwap StateOK s1) = (e2, s2)" by fastforce
    have sd2: "same_disk s1 s2" using same_disk_restart_verify [of s1 "finish_step StepSwap StateOK s1" env cfg plan "Req_version req"] 2 by simp
    obtain e3 s3 where 3: "updateResume env plan paused s2 = (e3, s3)" by fastforce
    have sd3: "same_disk s1 s3" using same_disk_resume [OF sd2, of env plan paused] 3 by simp
    have u23: "upd s2 \<noteq> None" "upd s3 \<noteq> None" using u1 sd2 sd3 by (simp_all add: same_disk_def)
    have rb: "update_result cfg B C N s (rollbackTelemt env cfg plan (kept_files cfg) x s2)" for x
      by (rule update_result_rollback [OF within_trans [OF w1 same_disk_within [OF sd2]] rollback_contract [OF ok]])
        (use k u23 same_disk_facts(1) [OF sd2] in auto)
    have ac: "update_result cfg B C N s (end_update OutcomeAdmissionClosed x s3)" for x
      by (rule update_result_end [OF w1 sd3 u23(2) c1]) (use k in auto)
    let ?d = "discard env (kept_files cfg) s3"
    have wd: "within {prev_of (TelemtBin cfg), prev_of (TelemtConfigPath cfg)} s1 ?d"
      by (rule within_trans [OF same_disk_within [OF sd3] discard_contract(1)])
    have wtd: "within (touched_paths cfg) s ?d"
      by (rule within_trans [OF w1 within_mono [OF wd]]) (auto simp: touched_paths_def swapped_paths_def)
    have "disk ?d (TelemtBin cfg) = Some N" "disk ?d (TelemtConfigPath cfg) = Some C"
      using within_disk [OF wd, of "TelemtBin cfg"] within_disk [OF wd, of "TelemtConfigPath cfg"] c1 k p by auto
    then have up: "update_result cfg B C N s (end_update OutcomeUpdated None ?d)"
      by (intro update_result_end [OF wtd same_disk_refl]) (use u23 in \<open>auto simp: discard_contract(2)\<close>)
    show ?thesis
      using 1 2 3 Inr k(1) rb ac up by (simp add: update_swap_def split: option.splits)
  qed
qed

lemma update_result_same:
  assumes "same_disk s0 s" "update_result cfg B C N s s'"
  shows "update_result cfg B C N s0 s'"
  using assms within_trans [OF same_disk_within [OF assms(1)]] by (auto simp: update_result_def)

lemma update_body_contract:
  assumes ok: "paths_ok cfg" and bin: "disk s (TelemtBin cfg) = Some B" and con: "disk s (TelemtConfigPath cfg) = Some C"
    and new: "disk s (staged_path cfg) = Some N" and u: "upd s \<noteq> None"
  shows "update_result cfg B C N s (update_body env cfg req plan (staged_path cfg) s)"
proof -
  obtain e1 s1 where 1: "updatePause env plan s = (e1, s1)" by fastforce
  have sd1: "same_disk s s1" using same_disk_pause [of s s env plan] 1 by simp
  obtain e2 s2 where 2: "updateDrain env cfg (drainTimeoutSecs req) s1 = (e2, s2)" by fastforce
  have sd2: "same_disk s s2" using same_disk_drain [OF sd1, of env cfg "drainTimeoutSecs req"] 2 by simp
  obtain re s3 where 3: "updateResume env plan True s2 = (re, s3)" by fastforce
  have sd3: "same_disk s s3" using same_disk_resume [OF sd2, of env plan True] 3 by simp
  have u': "upd s1 \<noteq> None" "upd s2 \<noteq> None" "upd s3 \<noteq> None"
    using u sd1 sd2 sd3 by (simp_all add: same_disk_def)
  have swap: "update_result cfg B C N s (update_swap env cfg req plan paused (staged_path cfg) t)"
    if "same_disk s t" for paused t
    by (rule update_result_same [OF that update_swap_contract [OF ok]])
      (use that bin con new u same_disk_facts [OF that] in auto)
  have stop: "update_result cfg B C N s (end_update OutcomeFailed x t)" if "same_disk s t" for x t
    by (rule update_result_end [OF within_refl that]) (use con u same_disk_facts(2) [OF that] in auto)
  have "same_disk s (skip_step StepDrain s1)" using sd1 by simp
  then show ?thesis
    using 1 2 3 swap stop sd1 sd2 sd3 by (simp add: update_body_def split: option.split)
qed

subsection \<open>Disks the agent may be restarted on\<close>

definition journal_at :: "'w node_env \<Rightarrow> Config \<Rightarrow> disk \<Rightarrow> updateJournal option" where
  "journal_at env cfg d = (case d (updateJournalPath cfg) of None \<Rightarrow> None | Some b \<Rightarrow> dec_journal env b)"

text \<open>The old build: a binary with the checksum of the old one and the old configuration.\<close>

definition old_build :: "'w node_env \<Rightarrow> Config \<Rightarrow> string \<Rightarrow> string \<Rightarrow> disk \<Rightarrow> bool" where
  "old_build env cfg B C d \<longleftrightarrow>
     (\<exists>x. d (TelemtBin cfg) = Some x \<and> sha256_hex env x = sha256_hex env B) \<and> d (TelemtConfigPath cfg) = Some C"

text \<open>A binary taken out of a download that has the pinned checksum.\<close>

definition built_from :: "'w node_env \<Rightarrow> UpdateTelemtRequest \<Rightarrow> string \<Rightarrow> bool" where
  "built_from env req N \<longleftrightarrow>
     (\<exists>data e. EqualFold (sha256_hex env data) (Req_sha256 req) \<and> telemt_entry (fst (tar_read env data)) = Some e \<and>
        N = LimitReader maxUpgradeDownloadBytes (TE_content e))"

definition new_build :: "'w node_env \<Rightarrow> Config \<Rightarrow> UpdateTelemtRequest \<Rightarrow> string \<Rightarrow> disk \<Rightarrow> bool" where
  "new_build env cfg req C d \<longleftrightarrow>
     (\<exists>N. d (TelemtBin cfg) = Some N \<and> built_from env req N) \<and> d (TelemtConfigPath cfg) = Some C \<and>
     (\<exists>j. journal_at env cfg d = Some j \<and> \<not> J_active j \<and> J_outcome j \<in> {OutcomeUpdated, OutcomeAdmissionClosed} \<and>
        J_target j = Req_version req)"

definition saved_in :: "'w node_env \<Rightarrow> Config \<Rightarrow> string \<Rightarrow> string \<Rightarrow> updateJournal \<Rightarrow> disk \<Rightarrow> bool" where
  "saved_in env cfg B C j d \<longleftrightarrow>
     J_active j \<and> J_binary j = known_good_bin cfg \<and> J_config j = known_good_config cfg \<and>
     J_binary_sha j = sha256_hex env B \<and> J_config_sha j = sha256_hex env C \<and>
     d (known_good_bin cfg) = Some B \<and> d (known_good_config cfg) = Some C"

definition recoverable :: "'w node_env \<Rightarrow> Config \<Rightarrow> string \<Rightarrow> string \<Rightarrow> disk \<Rightarrow> bool" where
  "recoverable env cfg B C d \<longleftrightarrow> (\<exists>j. journal_at env cfg d = Some j \<and> saved_in env cfg B C j d)"

definition inactive :: "'w node_env \<Rightarrow> Config \<Rightarrow> disk \<Rightarrow> bool" where
  "inactive env cfg d \<longleftrightarrow> (case journal_at env cfg d of None \<Rightarrow> True | Some j \<Rightarrow> \<not> J_active j)"

definition crash_safe :: "'w node_env \<Rightarrow> Config \<Rightarrow> UpdateTelemtRequest \<Rightarrow> string \<Rightarrow> string \<Rightarrow> disk \<Rightarrow> bool" where
  "crash_safe env cfg req B C d \<longleftrightarrow>
     old_build env cfg B C d \<and> inactive env cfg d \<or> recoverable env cfg B C d \<or> new_build env cfg req C d"

definition durable_paths :: "Config \<Rightarrow> path set" where
  "durable_paths cfg = {TelemtBin cfg, TelemtConfigPath cfg, updateJournalPath cfg, known_good_bin cfg, known_good_config cfg}"

lemma crash_safe_cong:
  "\<forall>p \<in> durable_paths cfg. d p = d' p \<Longrightarrow> crash_safe env cfg req B C d = crash_safe env cfg req B C d'"
  by (simp add: durable_paths_def crash_safe_def old_build_def inactive_def recoverable_def new_build_def saved_in_def
      journal_at_def)

text \<open>A run in which every disk, the last included, satisfies a condition.\<close>

definition all_disks :: "(disk \<Rightarrow> bool) \<Rightarrow> 'w agent \<Rightarrow> 'w agent \<Rightarrow> bool" where
  "all_disks P s s' \<longleftrightarrow> (\<exists>ds. dlog s' = ds @ dlog s \<and> (\<forall>d \<in> insert (disk s') (set ds). P d))"

lemma all_disks_trans: "all_disks P s s1 \<Longrightarrow> all_disks P s1 s2 \<Longrightarrow> all_disks P s s2"
  by (fastforce simp: all_disks_def)

lemma all_disks_within:
  assumes "within A s s'" "P (disk s)" "\<And>d. (\<forall>p. p \<notin> A \<longrightarrow> d p = disk s p) \<Longrightarrow> P (disk s) \<Longrightarrow> P d"
  shows "all_disks P s s'"
proof -
  from assms(1) obtain ds where "dlog s' = ds @ dlog s" "\<forall>d \<in> insert (disk s') (set ds). \<forall>p. p \<notin> A \<longrightarrow> d p = disk s p"
    by (auto simp: within_def)
  with assms(2,3) show ?thesis unfolding all_disks_def by blast
qed

lemma all_disks_last: "all_disks P s s' \<Longrightarrow> P (disk s')"
  by (auto simp: all_disks_def)

subsection \<open>Before the swap\<close>

lemma extract_contract:
  assumes "extractTelemtBinary env tgz p s = (e, s')"
  shows "within {p} s s'" "upd s' = upd s"
    "e = None \<Longrightarrow> \<exists>x. telemt_entry (fst (tar_read env tgz)) = Some x \<and> disk s' p = Some (LimitReader maxUpgradeDownloadBytes (TE_content x))"
proof -
  obtain es te where t: "tar_read env tgz = (es, te)" by fastforce
  define N where "N = LimitReader maxUpgradeDownloadBytes (TE_content (the (telemt_entry es)))"
  obtain e1 s1 where 1: "open_trunc env p s = (e1, s1)" by fastforce
  obtain e2 s2 where 2: "copy_to env p N s1 = (e2, s2)" by fastforce
  obtain e3 s3 where 3: "fault env (ChmodOp p) s2 = (e3, s3)" by fastforce
  have w1: "within {p} s s1" using open_trunc_frame(2) [of p "{p}" s env] 1 by simp
  have w2: "within {p} s s2" using within_trans [OF w1] copy_to_frame(2) [of p "{p}" s1 env N] 2 by simp
  have w3: "within {p} s s3" using within_trans [OF w2 within_pair [OF 3]] .
  have u: "upd s1 = upd s" "upd s2 = upd s" "upd s3 = upd s"
    using upd_keep(5) [of env p s] 1 upd_keep(6) [of env p N s1] 2 upd_pair [OF 3] by simp_all
  have c: "telemt_entry es = None \<and> e \<noteq> None \<and> s' = s \<or> telemt_entry es \<noteq> None \<and> (s' = s1 \<and> e \<noteq> None \<or> s' = s2 \<and> e \<noteq> None \<or> s' = s3 \<and> e2 = None)"
    using assms 1 2 3 t by (auto simp: extractTelemtBinary_def N_def split: option.splits)
  then show "within {p} s s'" "upd s' = upd s" using w1 w2 w3 u by auto
  assume "e = None"
  with c have "telemt_entry es \<noteq> None" "s' = s3" "e2 = None" by auto
  moreover have "disk s2 p = Some N" using copy_to_frame(3) [of env p N s1] 2 \<open>e2 = None\<close> by simp
  ultimately show "\<exists>x. telemt_entry (fst (tar_read env tgz)) = Some x \<and> disk s' p = Some (LimitReader maxUpgradeDownloadBytes (TE_content x))"
    using outside_pair [OF 3] t by (auto simp: N_def)
qed

lemma download_contract:
  assumes "downloadArtifact env sha url s = (r, s')"
  shows "same_disk s s'" "r = Inr data \<Longrightarrow> EqualFold (sha256_hex env data) sha"
  using assms by (auto simp: downloadArtifact_def Let_def split_beta same_disk_def upd_outside split: sum.splits option.splits if_splits)

lemma stage_contract:
  assumes "stageTelemtBinary env cfg req s = (r, s')"
  shows "within {staged_path cfg} s s'" "upd s' = None \<longleftrightarrow> upd s = None"
    "r = Inr q \<Longrightarrow> q = staged_path cfg \<and> (\<exists>N. disk s' (staged_path cfg) = Some N \<and> built_from env req N)"
proof -
  obtain r1 s1 where 1: "downloadArtifact env (Req_sha256 req) (Req_url req) s = (r1, s1)" by fastforce
  note d = download_contract [OF 1]
  obtain e2 s2 where 2: "extractTelemtBinary env (case r1 of Inr x \<Rightarrow> x | Inl y \<Rightarrow> y) (staged_path cfg) s1 = (e2, s2)" by fastforce
  note x = extract_contract [OF 2]
  have w2: "within {staged_path cfg} s s2" by (rule within_trans [OF same_disk_within [OF d(1)] x(1)])
  have "s' = s1 \<or> s' = s2 \<or> s' = snd (Remove env (staged_path cfg) s2)"
    using assms 1 2 by (auto simp: stageTelemtBinary_def split: sum.splits option.splits)
  then show "within {staged_path cfg} s s'" "upd s' = None \<longleftrightarrow> upd s = None"
    using w2 same_disk_within [OF d(1)] within_trans [OF w2 Remove_frame(2)] x(2) same_disk_facts(2) [OF d(1)]
    by (auto simp: upd_keep)
  assume q: "r = Inr q"
  then obtain data where data: "r1 = Inr data" "e2 = None" "q = staged_path cfg" "s' = s2"
    using assms 1 2 by (auto simp: stageTelemtBinary_def split: sum.splits option.splits)
  with d(2) [OF data(1)] x(3) [OF data(2)] show "q = staged_path cfg \<and> (\<exists>N. disk s' (staged_path cfg) = Some N \<and> built_from env req N)"
    unfolding built_from_def by force
qed

subsection \<open>The journal\<close>

lemma save_contract:
  assumes "saveVerifiedCopy env src dst s = (r, s')"
  shows "within {dst} s s'" "upd s' = upd s"
    "r = Inr h \<Longrightarrow> disk s src = Some b \<Longrightarrow> disk s' dst = Some b \<and> h = sha256_hex env b"
proof -
  obtain rr s1 where 1: "ReadFile env src s = (rr, s1)" by fastforce
  have f: "disk s1 = disk s" "dlog s1 = dlog s" "upd s1 = upd s"
    using ReadFile_frame [of env src s] upd_keep(8) [of env src s] 1 by simp_all
  have c: "s' = s1 \<and> (\<exists>y. r = Inl y) \<or>
      (\<exists>b. rr = Contents b \<and> s' = snd (writeAtomic env dst b s1) \<and>
         r = (case fst (writeAtomic env dst b s1) of Some y \<Rightarrow> Inl y | None \<Rightarrow> Inr (sha256_hex env b)))"
    using assms 1 by (auto simp: saveVerifiedCopy_def Let_def split_beta split: read_result.splits option.splits)
  have w1: "within {dst} s s1" using f by (simp add: within_eq)
  from c show "within {dst} s s'" "upd s' = upd s"
    using w1 within_trans [OF w1 within_writeAtomic] f by (auto simp: upd_keep)
  assume h: "r = Inr h" "disk s src = Some b"
  with c obtain b' where b': "rr = Contents b'" "s' = snd (writeAtomic env dst b' s1)" "fst (writeAtomic env dst b' s1) = None"
    "h = sha256_hex env b'"
    by (auto split: option.splits)
  moreover have "b' = b" using ReadFile_Contents [of env src s b'] 1 b'(1) h(2) by simp
  ultimately show "disk s' dst = Some b \<and> h = sha256_hex env b"
    using writeAtomic_ok [of env dst b s1] by simp
qed

lemma all_disks_write:
  assumes "P (disk s)" "P ((disk s)(p \<mapsto> b))"
  shows "all_disks P s (snd (writeAtomic env p b s))"
  by (rule writeAtomic_cases [of env p b s]) (use assms in \<open>auto simp: all_disks_def\<close>)

lemma old_build_exact:
  "disk s (TelemtBin cfg) = Some B \<Longrightarrow> disk s (TelemtConfigPath cfg) = Some C \<Longrightarrow> old_build env cfg B C (disk s)"
  by (simp add: old_build_def)

lemma inactive_cong: "d (updateJournalPath cfg) = d' (updateJournalPath cfg) \<Longrightarrow> inactive env cfg d = inactive env cfg d'"
  by (simp add: inactive_def journal_at_def)

lemma known_good_contract:
  assumes json: "json_ok env" and ok: "paths_ok cfg" and act: "J_active j"
    and bin: "disk s (TelemtBin cfg) = Some B" and con: "disk s (TelemtConfigPath cfg) = Some C" and ina: "inactive env cfg (disk s)"
    and run: "save_known_good env cfg j s = (r, s')"
  shows "all_disks (crash_safe env cfg req B C) s s'" "upd s' = upd s"
    "within {known_good_bin cfg, known_good_config cfg, updateJournalPath cfg} s s'"
    "r = Inr j' \<Longrightarrow> journal_at env cfg (disk s') = Some j' \<and> saved_in env cfg B C j' (disk s') \<and> J_target j' = J_target j"
proof -
  note p = paths_ok_durable [OF ok]
  let ?A = "{known_good_bin cfg, known_good_config cfg, updateJournalPath cfg}"
  obtain r1 s1 where 1: "saveVerifiedCopy env (TelemtBin cfg) (known_good_bin cfg) s = (r1, s1)" by fastforce
  obtain r2 s2 where 2: "saveVerifiedCopy env (TelemtConfigPath cfg) (known_good_config cfg) s1 = (r2, s2)" by fastforce
  note c1 = save_contract [OF 1] and c2 = save_contract [OF 2]
  have w2: "within {known_good_bin cfg, known_good_config cfg} s s2"
    using within_trans [OF within_mono [OF c1(1)] within_mono [OF c2(1)]] by simp
  have w1: "within {known_good_bin cfg, known_good_config cfg} s s1" using within_mono [OF c1(1)] by simp
  have safe0: "crash_safe env cfg req B C d" if "\<forall>p. p \<notin> {known_good_bin cfg, known_good_config cfg} \<longrightarrow> d p = disk s p" for d
    using that bin con ina p inactive_cong [of d cfg "disk s" env] by (simp add: crash_safe_def old_build_def)
  have s2: "all_disks (crash_safe env cfg req B C) s s1" "all_disks (crash_safe env cfg req B C) s s2"
    using all_disks_within [OF w1 safe0] all_disks_within [OF w2 safe0] safe0 by auto
  define j2 where "j2 = j\<lparr>J_binary := known_good_bin cfg, J_binary_sha := (case r1 of Inr h \<Rightarrow> h | Inl h \<Rightarrow> h),
      J_config := known_good_config cfg, J_config_sha := (case r2 of Inr h \<Rightarrow> h | Inl h \<Rightarrow> h)\<rparr>"
  let ?w = "writeUpdateJournal env cfg j2 s2"
  have c: "s' = s1 \<and> (\<exists>y. r = Inl y) \<or> s' = s2 \<and> (\<exists>y. r = Inl y) \<or>
      (\<exists>h1 h2. r1 = Inr h1 \<and> r2 = Inr h2) \<and> s' = snd ?w \<and> r = (case fst ?w of Some y \<Rightarrow> Inl y | None \<Rightarrow> Inr j2)"
    using run 1 2 by (cases r1; cases r2) (auto simp: save_known_good_def j2_def Let_def split_beta split: option.splits)
  have saved: "journal_at env cfg ((disk s2)(updateJournalPath cfg \<mapsto> enc_journal env j2)) = Some j2 \<and>
      saved_in env cfg B C j2 ((disk s2)(updateJournalPath cfg \<mapsto> enc_journal env j2))" if "r1 = Inr h1" "r2 = Inr h2" for h1 h2
  proof -
    have k1: "disk s1 (known_good_bin cfg) = Some B" "h1 = sha256_hex env B"
      using c1(3) [OF that(1) bin] by auto
    have "disk s1 (TelemtConfigPath cfg) = Some C"
      using within_disk [OF c1(1)] con p by auto
    then have k2: "disk s2 (known_good_config cfg) = Some C" "h2 = sha256_hex env C"
      using c2(3) [OF that(2)] by auto
    have "disk s2 (known_good_bin cfg) = Some B"
      using within_disk [OF c2(1)] k1(1) p by auto
    then show ?thesis
      using k1(2) k2 that act p by (auto simp: journal_at_def saved_in_def j2_def json_okD(1) [OF json])
  qed
  have "all_disks (crash_safe env cfg req B C) s (snd ?w)" if "r1 = Inr h1" "r2 = Inr h2" for h1 h2
    unfolding writeUpdateJournal_def
    by (rule all_disks_trans [OF s2(2) all_disks_write [where P = "crash_safe env cfg req B C", OF all_disks_last [OF s2(2)]]])
      (use saved [OF that] in \<open>auto simp: crash_safe_def recoverable_def\<close>)
  with c s2 show "all_disks (crash_safe env cfg req B C) s s'" by auto
  have ww: "within ?A s2 (snd ?w)" by (simp add: writeUpdateJournal_def within_writeAtomic)
  have "within ?A s s1" "within ?A s s2" "within ?A s (snd ?w)"
    using within_mono [OF w1] within_mono [OF w2] within_trans [OF within_mono [OF w2] ww] by auto
  moreover have "upd s1 = upd s" "upd s2 = upd s" "upd (snd ?w) = upd s"
    using c1(2) c2(2) by (simp_all add: writeUpdateJournal_def upd_keep)
  ultimately show "within ?A s s'" "upd s' = upd s"
    using c by (elim disjE; simp)+
  assume "r = Inr j'"
  with c show "journal_at env cfg (disk s') = Some j' \<and> saved_in env cfg B C j' (disk s') \<and> J_target j' = J_target j"
    using saved writeAtomic_ok [of env "updateJournalPath cfg" "enc_journal env j2" s2]
    by (auto simp: writeUpdateJournal_def j2_def split: option.splits)
qed

lemma prepare_contract:
  assumes json: "json_ok env" and ok: "paths_ok cfg"
    and bin: "disk s (TelemtBin cfg) = Some B" and con: "disk s (TelemtConfigPath cfg) = Some C" and ina: "inactive env cfg (disk s)"
    and run: "prepareUpdateJournal env cfg plan target s = (r, s')"
  shows "all_disks (crash_safe env cfg req B C) s s'" "upd s' = None \<longleftrightarrow> upd s = None"
    "within {known_good_bin cfg, known_good_config cfg, updateJournalPath cfg} s s'"
    "r = Inr j \<Longrightarrow> journal_at env cfg (disk s') = Some j \<and> saved_in env cfg B C j (disk s') \<and> J_target j = target"
proof -
  let ?A = "{known_good_bin cfg, known_good_config cfg, updateJournalPath cfg}" and ?P = "crash_safe env cfg req B C"
  obtain e1 s1 where 1: "checkUpdateJournal env cfg s = (e1, s1)" by fastforce
  obtain e2 s2 where 2: "fault env (MkdirOp (StateDir cfg)) s1 = (e2, s2)" by fastforce
  obtain r3 s3 where 3: "record_admission env plan s2 = (r3, s3)" by fastforce
  have "same_disk s s1" using same_disk_check [of s s env cfg] 1 by simp
  moreover from this have "same_disk s s2" using same_disk_outside [of s "io_fault env (MkdirOp (StateDir cfg))" s1] 2 by simp
  moreover from this have "same_disk s s3" using same_disk_admission [of s s2 env plan] 3 by simp
  ultimately have sd: "t \<in> {s1, s2, s3} \<Longrightarrow> same_disk s t" for t by auto
  have safe: "?P (disk s)" using bin con ina by (simp add: crash_safe_def old_build_def)
  have quiet: "t \<in> {s1, s2, s3} \<Longrightarrow> all_disks ?P s t \<and> (upd t = None \<longleftrightarrow> upd s = None) \<and> within ?A s t" for t
    using sd [of t] safe same_disk_within [OF sd] by (auto simp: same_disk_def all_disks_def)
  have c: "s' \<in> {s1, s2, s3} \<and> (\<exists>y. r = Inl y) \<or>
      (\<exists>j0. J_active j0 \<and> J_target j0 = target \<and> save_known_good env cfg j0 s3 = (r, s'))"
    using run 1 2 3 by (auto simp: prepareUpdateJournal_def split: option.splits sum.splits)
  have d3: "disk s3 = disk s" using sd [of s3] by (simp add: same_disk_def)
  have "all_disks ?P s s' \<and> (upd s' = None \<longleftrightarrow> upd s = None) \<and> within ?A s s' \<and> (r = Inr j \<longrightarrow>
      journal_at env cfg (disk s') = Some j \<and> saved_in env cfg B C j (disk s') \<and> J_target j = target)"
    using c
  proof (elim disjE exE conjE)
    fix y assume "s' \<in> {s1, s2, s3}" "r = Inl y"
    then show ?thesis using quiet by simp
  next
    fix j0 assume j0: "J_active j0" "J_target j0 = target" and k: "save_known_good env cfg j0 s3 = (r, s')"
    note kg = known_good_contract [OF json ok j0(1) bin [folded d3] con [folded d3] ina [folded d3] k]
    show ?thesis
      using quiet [of s3] all_disks_trans [OF _ kg(1)] within_trans [OF _ kg(3)] kg(2,4) j0(2) by auto
  qed
  then show "all_disks ?P s s'" "upd s' = None \<longleftrightarrow> upd s = None" "within ?A s s'"
    "r = Inr j \<Longrightarrow> journal_at env cfg (disk s') = Some j \<and> saved_in env cfg B C j (disk s') \<and> J_target j = target"
    by blast+
qed

lemma settled_failed:
  assumes "fst (updateSettled env cfg j OutcomeFailed s)"
  obtains x where "disk s (TelemtBin cfg) = Some x" "sha256_hex env x = J_binary_sha j"
proof -
  have "\<exists>x. fst (verifiedFile env (TelemtBin cfg) (J_binary_sha j) s) = Inr x"
    using assms by (auto simp: updateSettled_def split_beta split: sum.splits)
  then obtain x where "fst (ReadFile env (TelemtBin cfg) s) = Contents x" "sha256_hex env x = J_binary_sha j"
    by (auto simp: verifiedFile_def split_beta split: read_result.splits if_splits)
  then show ?thesis using that ReadFile_Contents by blast
qed

lemma finalize_contract:
  assumes json: "json_ok env" and ok: "paths_ok cfg"
    and res: "update_result cfg B C N s0 s" and new: "built_from env req N"
    and jr: "journal_at env cfg (disk s) = Some j" "saved_in env cfg B C j (disk s)" "J_target j = Req_version req"
  shows "all_disks (crash_safe env cfg req B C) s (finalize_journal env cfg j s)"
    "upd (finalize_journal env cfg j s) = None \<longleftrightarrow> upd s = None"
proof -
  note p = paths_ok_durable [OF ok]
  let ?P = "crash_safe env cfg req B C"
  obtain b s1 where 1: "updateSettled env cfg j (outcome_of s) s = (b, s1)" by fastforce
  have sd: "same_disk s s1" using same_disk_settled [of s s env cfg j "outcome_of s"] 1 by simp
  define j' where "j' = j\<lparr>J_active := False, J_outcome := outcome_of s, J_error := U_error (upd_of s)\<rparr>"
  have fin: "finalize_journal env cfg j s = (if b then snd (writeAtomic env (updateJournalPath cfg) (enc_journal env j') s1) else s1)"
    using 1 by (simp add: finalize_journal_def outcome_of_def j'_def writeUpdateJournal_def Let_def)
  have now: "?P (disk s)" using jr by (auto simp: crash_safe_def recoverable_def)
  let ?d = "(disk s)(updateJournalPath cfg \<mapsto> enc_journal env j')"
  have jd: "journal_at env cfg ?d = Some j'" by (simp add: journal_at_def json_okD(1) [OF json])
  have closed: "?P ?d" if settled: b
  proof (cases "outcome_of s \<in> {OutcomeUpdated, OutcomeAdmissionClosed}")
    case True
    then have "new_build env cfg req C ?d"
      using res new jd jr(3) p by (auto simp: new_build_def update_result_def j'_def)
    then show ?thesis by (simp add: crash_safe_def)
  next
    case False
    have "outcome_of s \<in> {OutcomeRolledBack, OutcomeFailed}"
      using False settled 1 by (auto simp: updateSettled_def split: update_outcome.splits)
    then have "old_build env cfg B C ?d"
    proof
      assume "outcome_of s = OutcomeRolledBack"
      then show ?thesis using res p by (simp add: old_build_def update_result_def)
    next
      assume "outcome_of s \<in> {OutcomeFailed}"
      then obtain x where "disk s (TelemtBin cfg) = Some x" "sha256_hex env x = J_binary_sha j"
        using settled_failed [of env cfg j s] 1 settled by auto
      then show ?thesis using \<open>outcome_of s \<in> {OutcomeFailed}\<close> res jr(2) p
        by (auto simp: old_build_def update_result_def saved_in_def)
    qed
    then show ?thesis using jd by (simp add: crash_safe_def inactive_def j'_def)
  qed
  have "all_disks ?P s s1" using sd now by (simp add: all_disks_def same_disk_def)
  moreover have "all_disks ?P s1 (snd (writeAtomic env (updateJournalPath cfg) (enc_journal env j') s1))" if b
    by (rule all_disks_write) (use now closed [OF that] same_disk_facts(1) [OF sd] in simp_all)
  ultimately show "all_disks ?P s (finalize_journal env cfg j s)"
    unfolding fin using all_disks_trans by auto
  show "upd (finalize_journal env cfg j s) = None \<longleftrightarrow> upd s = None"
    unfolding fin using same_disk_facts(2) [OF sd] by (simp add: upd_keep)
qed

subsection \<open>The whole run\<close>

lemma safe_frame:
  assumes "within A s s'" "A \<inter> durable_paths cfg = {}" "crash_safe env cfg req B C (disk s)"
  shows "all_disks (crash_safe env cfg req B C) s s'"
proof (rule all_disks_within [OF assms(1), where P = "crash_safe env cfg req B C", OF assms(3)])
  fix d assume "\<forall>p. p \<notin> A \<longrightarrow> d p = disk s p" "crash_safe env cfg req B C (disk s)"
  then show "crash_safe env cfg req B C d"
    using assms(2) crash_safe_cong [of cfg d "disk s" env req B C] by blast
qed

lemma staged_not_durable: "paths_ok cfg \<Longrightarrow> {staged_path cfg} \<inter> durable_paths cfg = {}"
  using paths_okD paths_ok_durable by (auto simp: durable_paths_def)

lemma safe_remove_staged:
  "paths_ok cfg \<Longrightarrow> crash_safe env cfg req B C (disk s) \<Longrightarrow>
     all_disks (crash_safe env cfg req B C) s (snd (Remove env (staged_path cfg) s))"
  by (rule safe_frame [OF Remove_frame(2) staged_not_durable]) simp_all

lemma update_body_safe:
  assumes json: "json_ok env" and ok: "paths_ok cfg"
    and bin: "disk s (TelemtBin cfg) = Some B" and con: "disk s (TelemtConfigPath cfg) = Some C"
    and new: "disk s (staged_path cfg) = Some N" "built_from env req N" and u: "upd s \<noteq> None"
    and jr: "journal_at env cfg (disk s) = Some j" "saved_in env cfg B C j (disk s)" "J_target j = Req_version req"
  shows "all_disks (crash_safe env cfg req B C) s (finalize_journal env cfg j (update_body env cfg req plan (staged_path cfg) s))"
proof -
  let ?s = "update_body env cfg req plan (staged_path cfg) s"
  note p = paths_okD [OF ok]
  have res: "update_result cfg B C N s ?s" by (rule update_body_contract [OF ok bin con new(1) u])
  then have w: "within (touched_paths cfg) s ?s" by (simp add: update_result_def)
  have keep: "journal_at env cfg d = Some j \<and> saved_in env cfg B C j d" if "\<forall>q. q \<notin> touched_paths cfg \<longrightarrow> d q = disk s q" for d
    using that jr p(2,3,4) by (simp add: journal_at_def saved_in_def)
  have "all_disks (crash_safe env cfg req B C) s ?s"
    by (rule all_disks_within [OF w]) (use keep in \<open>auto simp: crash_safe_def recoverable_def\<close>)
  moreover have "journal_at env cfg (disk ?s) = Some j \<and> saved_in env cfg B C j (disk ?s)"
    by (rule keep) (use within_disk [OF w] in blast)
  ultimately show ?thesis
    using all_disks_trans finalize_contract(1) [OF json ok res new(2) _ _ jr(3)] by blast
qed

lemma run_safe:
  assumes json: "json_ok env" and ok: "paths_ok cfg" and u: "upd s \<noteq> None"
    and bin: "disk s (TelemtBin cfg) = Some B" and con: "disk s (TelemtConfigPath cfg) = Some C" and ina: "inactive env cfg (disk s)"
  shows "all_disks (crash_safe env cfg req B C) s (runTelemtUpdate env cfg req s)"
proof -
  let ?P = "crash_safe env cfg req B C"
  note p = paths_ok_durable [OF ok] paths_okD [OF ok]
  have safe: "?P (disk s)" using bin con ina by (simp add: crash_safe_def old_build_def)
  obtain r1 s1 where 1: "updatePreflight env req s = (r1, s1)" by fastforce
  have sd1: "same_disk s s1" using same_disk_preflight [of s s env req] 1 by simp
  obtain r2 s2 where 2: "stageTelemtBinary env cfg req (begin_step StepDownload s1) = (r2, s2)" by fastforce
  note st = stage_contract [OF 2]
  have sd1': "same_disk s (begin_step StepDownload s1)" using sd1 by simp
  have w2: "within {staged_path cfg} s s2" by (rule within_trans [OF same_disk_within [OF sd1'] st(1)])
  have keep2: "disk s2 q = disk s q" if "q \<noteq> staged_path cfg" for q using within_disk [OF w2] that by simp
  have a1: "all_disks ?P s (end_update x y s1)" for x y using sd1 safe by (auto simp: all_disks_def same_disk_def)
  have a2: "all_disks ?P s s2" by (rule safe_frame [OF w2 staged_not_durable [OF ok] safe])
  have end2: "all_disks ?P s (end_update x y (finish_step k z s2))" for x y k z using a2 by (simp add: all_disks_def)
  obtain plan where plan: "r1 = Inr plan \<or> (\<exists>x. r1 = Inl x)" by (cases r1) auto
  obtain r3 s3 where 3: "prepareUpdateJournal env cfg plan (Req_version req) (finish_step StepDownload StateOK s2) = (r3, s3)" by fastforce
  have bc: "disk (finish_step StepDownload StateOK s2) (TelemtBin cfg) = Some B"
    "disk (finish_step StepDownload StateOK s2) (TelemtConfigPath cfg) = Some C" "inactive env cfg (disk (finish_step StepDownload StateOK s2))"
    using keep2 bin con ina p inactive_cong [of "disk s2" cfg "disk s" env] by auto
  note pr = prepare_contract [OF json ok bc 3]
  have a3: "all_disks ?P s s3"
    by (rule all_disks_trans [OF _ pr(1)]) (use a2 in \<open>simp add: all_disks_def\<close>)
  have refuse: "all_disks ?P s (snd (Remove env (staged_path cfg) (end_update x y s3)))" for x y
    by (rule all_disks_trans [OF _ safe_remove_staged [OF ok]]) (use a3 in \<open>auto simp: all_disks_def\<close>)
  have go: "all_disks ?P s (snd (Remove env (staged_path cfg) (finalize_journal env cfg j (update_body env cfg req plan' (staged_path cfg) s3))))"
    if "r2 = Inr q" "r3 = Inr j" for q j plan'
  proof -
    from st(3) [OF that(1)] obtain N where N: "disk s2 (staged_path cfg) = Some N" "built_from env req N" by auto
    have d3: "disk s3 (TelemtBin cfg) = Some B" "disk s3 (TelemtConfigPath cfg) = Some C" "disk s3 (staged_path cfg) = Some N"
      using within_disk [OF pr(3)] bc N p by auto
    have u3: "upd s3 \<noteq> None" using pr(2) st(2) sd1 u by (simp add: same_disk_def)
    note fin = update_body_safe [OF json ok d3 N(2) u3, of j plan']
    have "all_disks ?P s3 (finalize_journal env cfg j (update_body env cfg req plan' (staged_path cfg) s3))"
      using fin pr(4) [OF that(2)] by blast
    from all_disks_trans [OF a3 this] show ?thesis
      using all_disks_trans [OF _ safe_remove_staged [OF ok]] all_disks_last by blast
  qed
  show ?thesis
  proof (cases r1)
    case (Inl x)
    then show ?thesis using 1 a1 by (simp add: runTelemtUpdate_def)
  next
    case (Inr plan0)
    then have "plan0 = plan" using plan by simp
    then show ?thesis
      using 1 2 3 Inr end2 refuse go st(3) by (cases r2; cases r3) (auto simp: runTelemtUpdate_def Let_def)
  qed
qed

subsection \<open>Recovery\<close>

lemma verified_contract:
  assumes "verifiedFile env p h s = (r, s')"
  shows "same_disk s s'" "r = Inr b \<Longrightarrow> disk s p = Some b"
proof -
  show "same_disk s s'" using same_disk_verified [of s s env p h] assms by simp
  show "r = Inr b \<Longrightarrow> disk s p = Some b"
    using assms ReadFile_Contents [of env p s b] by (auto simp: verifiedFile_def split_beta split: read_result.splits if_splits)
qed

lemma restore_saved_contract:
  assumes ok: "paths_ok cfg" and sv: "saved_in env cfg B C j (disk s)" and run: "restore_saved env cfg j s = (e, s')"
  shows "within {TelemtBin cfg, TelemtConfigPath cfg} s s'" "upd s' = None \<longleftrightarrow> upd s = None"
    "e = None \<Longrightarrow> disk s' (TelemtBin cfg) = Some B \<and> disk s' (TelemtConfigPath cfg) = Some C"
proof -
  let ?A = "{TelemtBin cfg, TelemtConfigPath cfg}"
  note p = paths_okD [OF ok]
  obtain r1 s1 where 1: "verifiedFile env (J_binary j) (J_binary_sha j) s = (r1, s1)" by fastforce
  obtain r2 s2 where 2: "verifiedFile env (J_config j) (J_config_sha j) s1 = (r2, s2)" by fastforce
  note v1 = verified_contract [OF 1] and v2 = verified_contract [OF 2]
  have sd2: "same_disk s s2" using same_disk_trans [OF v1(1) v2(1)] .
  have b: "r1 = Inr x \<Longrightarrow> x = B" "r2 = Inr y \<Longrightarrow> y = C" for x y
    using v1(2) v2(2) sv same_disk_facts(1) [OF v1(1)] by (auto simp: saved_in_def)
  obtain e3 s3 where 3: "writeAtomic env (TelemtBin cfg) B s2 = (e3, s3)" by fastforce
  obtain e4 s4 where 4: "writeAtomicKeepOwner env (TelemtConfigPath cfg) C s3 = (e4, s4)" by fastforce
  have w2: "within ?A s s2" by (rule same_disk_within [OF sd2])
  have w3: "within ?A s s3" using within_trans [OF w2] within_writeAtomic [of "TelemtBin cfg" ?A s2 env B] 3 by simp
  have w4: "within ?A s s4" using within_trans [OF w3] within_writeAtomicKeepOwner [of "TelemtConfigPath cfg" ?A s3 env C] 4 by simp
  have u: "upd s3 = upd s2" "upd s4 = upd s2"
    using upd_keep(1) [of env "TelemtBin cfg" B s2] 3 upd_keep(7) [of env "TelemtConfigPath cfg" C s3] 4 by simp_all
  have c: "s' = s \<and> e \<noteq> None \<or> s' = s1 \<and> e \<noteq> None \<or> s' = s2 \<and> e \<noteq> None \<or> s' = s3 \<and> e \<noteq> None \<or>
      s' = s4 \<and> e = e4 \<and> e3 = None"
  proof (cases "r1 = Inr B \<and> r2 = Inr C")
    case True
    then show ?thesis using run 1 2 3 4 by (cases e3) (auto simp: restore_saved_def split: if_splits)
  next
    case False
    with b have "(\<exists>x. r1 = Inl x) \<or> r1 = Inr B \<and> (\<exists>x. r2 = Inl x)" by (cases r1; cases r2) auto
    then show ?thesis using run 1 2 by (auto simp: restore_saved_def split: if_splits)
  qed
  have w1: "within ?A s s1" by (rule same_disk_within [OF v1(1)])
  show "within ?A s s'" "upd s' = None \<longleftrightarrow> upd s = None"
    using c w1 w2 w3 w4 u same_disk_facts(2) [OF sd2] same_disk_facts(2) [OF v1(1)] by (elim disjE; simp)+
  assume "e = None"
  with c have e: "s' = s4" "e4 = None" "e3 = None" by auto
  then show "disk s' (TelemtBin cfg) = Some B \<and> disk s' (TelemtConfigPath cfg) = Some C"
    using writeAtomic_ok [of env "TelemtBin cfg" B s2] writeAtomicKeepOwner_ok [of env "TelemtConfigPath cfg" C s3] 3 4 p by simp
qed

lemma recover_active_safe:
  assumes json: "json_ok env" and ok: "paths_ok cfg"
    and jr: "journal_at env cfg (disk s) = Some j" "saved_in env cfg B C j (disk s)" and run: "recover_active env cfg j s = (e, s')"
  shows "all_disks (crash_safe env cfg req B C) s s'"
    "e = None \<Longrightarrow> old_build env cfg B C (disk s') \<and> inactive env cfg (disk s')"
proof -
  let ?P = "crash_safe env cfg req B C"
  note p = paths_ok_durable [OF ok]
  obtain e1 s1 where 1: "restore_saved env cfg j s = (e1, s1)" by fastforce
  obtain e2 s2 where 2: "restartTelemt env cfg s1 = (e2, s2)" by fastforce
  obtain e3 s3 where 3: "verifyTelemtVersion env (J_version j) s2 = (e3, s3)" by fastforce
  obtain e4 s4 where 4: "restore_admission env j s3 = (e4, s4)" by fastforce
  note rs = restore_saved_contract [OF ok jr(2) 1]
  define j' where "j' = j\<lparr>J_active := False, J_outcome := OutcomeRolledBack, J_error := recovered_text\<rparr>"
  obtain e5 s5 where 5: "writeAtomic env (updateJournalPath cfg) (enc_journal env j') s4 = (e5, s5)" by fastforce
  have "same_disk s1 s2" using same_disk_restart [of s1 s1 env cfg] 2 by simp
  moreover from this have "same_disk s1 s3" using same_disk_version [of s1 s2 env "J_version j"] 3 by simp
  moreover from this have "same_disk s1 s4" using same_disk_restore_admission [of s1 s3 env j] 4 by simp
  ultimately have sd: "same_disk s1 t" if "t \<in> {s1, s2, s3, s4}" for t using that by auto
  have keep: "?P d" if "\<forall>q. q \<notin> {TelemtBin cfg, TelemtConfigPath cfg} \<longrightarrow> d q = disk s q" for d
    using that jr p by (simp add: crash_safe_def recoverable_def journal_at_def saved_in_def)
  have a: "all_disks ?P s t" if "t \<in> {s1, s2, s3, s4}" for t
    by (rule all_disks_within [OF within_trans [OF rs(1) same_disk_within [OF sd [OF that]]] keep]) (use keep in auto)
  have closed: "old_build env cfg B C d \<and> inactive env cfg d"
    if "e1 = None" "d = (disk s4)(updateJournalPath cfg \<mapsto> enc_journal env j')" for d
    using rs(3) [OF that(1)] same_disk_facts(1) [OF sd [of s4]] p that(2)
    by (simp add: old_build_def inactive_def journal_at_def json_okD(1) [OF json] j'_def)
  have a5: "all_disks ?P s s5" if "e1 = None"
    using all_disks_trans [OF a [of s4] all_disks_write [of ?P s4 "updateJournalPath cfg" "enc_journal env j'" env]]
      all_disks_last [OF a [of s4]] closed [OF that refl] 5 by (auto simp: crash_safe_def)
  define fin where "fin = recoveryEvent env cfg ''update_rollback'' ''recovered interrupted update''
     (s5\<lparr>upd := Some (end_record OutcomeRolledBack (Some recovered_text) (newTelemtUpdate (J_version j) (J_target j)))\<rparr>)"
  have wf: "within {recoveryPath cfg} s5 fin"
    unfolding fin_def by (rule within_trans [OF _ within_recoveryEvent]) (simp_all add: within_eq)
  have rp: "{recoveryPath cfg} \<inter> durable_paths cfg = {}"
    using ok by (auto simp: durable_paths_def paths_ok_def update_paths_def)
  have c: "s' \<in> {s1, s2, s3, s4} \<and> e \<noteq> None \<or> e1 = None \<and> (s' = s5 \<and> e \<noteq> None \<or> s' = fin \<and> e5 = None)"
    using run 1 2 3 4 5 by (auto simp: recover_active_def fin_def writeUpdateJournal_def j'_def split: option.splits)
  then show "all_disks ?P s s'"
    using a a5 all_disks_trans [OF a5 safe_frame [OF wf rp all_disks_last [OF a5]]] by blast
  assume "e = None"
  with c have f: "e1 = None" "s' = fin" "e5 = None" by auto
  have "disk s5 = (disk s4)(updateJournalPath cfg \<mapsto> enc_journal env j')"
    using writeAtomic_ok [of env "updateJournalPath cfg" "enc_journal env j'" s4] 5 f(3) by simp
  with closed [OF f(1)] have "old_build env cfg B C (disk s5) \<and> inactive env cfg (disk s5)" by simp
  then show "old_build env cfg B C (disk s') \<and> inactive env cfg (disk s')"
    using within_disk [OF wf] p inactive_cong [of "disk fin" cfg "disk s5" env] by (simp add: f(2) old_build_def)
qed

end
