(* ===== verification/Agent_Sample.thy ===== *)
theory Agent_Sample
  imports Agent_Update_Safety
begin

text \<open>
  A concrete environment for the node agent: a text format for the two durable records in the
  place of JSON, which reads back what it wrote, and a Telemt that does what it is told. The
  examples of the update theories run in it.
\<close>

subsection \<open>Lists of fields\<close>

definition enc_fields :: "string list \<Rightarrow> string" where
  "enc_fields ss = concat (map (\<lambda>s. QueryEscape s @ ''&'') ss)"

definition dec_fields :: "string \<Rightarrow> string list option" where
  "dec_fields t = all_some (map QueryUnescape (butlast (split_on (CHR ''&'') t)))"

interpretation fieldcodec: codec enc_fields dec_fields
proof
  have split: "split_on (CHR ''&'') (enc_fields ss) = map QueryEscape ss @ [[]]" for ss
  proof (induction ss)
    case (Cons s ss)
    have "enc_fields (s # ss) = QueryEscape s @ CHR ''&'' # enc_fields ss" by (simp add: enc_fields_def)
    then show ?case using Cons split_on_append [OF QueryEscape_plain(1)] by simp
  qed (simp add: enc_fields_def)
  show "dec_fields (enc_fields ss) = Some ss" for ss
  proof -
    have "all_some (map (QueryUnescape \<circ> QueryEscape) ss) = Some ss"
      by (induction ss) (simp_all add: querycodec.decodes)
    then show ?thesis by (simp add: dec_fields_def split)
  qed
qed

definition enc_int :: "int \<Rightarrow> string" where
  "enc_int i = (if 0 \<le> i then replicate (nat i) (CHR ''+'') else replicate (nat (- i)) (CHR ''-''))"

definition dec_int :: "string \<Rightarrow> int" where
  "dec_int s = (if s = [] \<or> hd s = CHR ''+'' then int (length s) else - int (length s))"

lemma dec_enc_int [simp]: "dec_int (enc_int i) = i"
  by (cases "nat i"; cases "nat (- i)") (auto simp: dec_int_def enc_int_def)

definition enc_bool :: "bool \<Rightarrow> string" where
  "enc_bool b = (if b then ''t'' else ''f'')"

lemma dec_enc_bool [simp]: "(enc_bool b = ''t'') = b"
  by (simp add: enc_bool_def)

definition outcomes :: "update_outcome list" where
  "outcomes = [NoOutcome, OutcomeUpdated, OutcomeRefused, OutcomeFailed, OutcomeRolledBack, OutcomeRollbackFailed, OutcomeAdmissionClosed]"

definition enc_outcome :: "update_outcome \<Rightarrow> string" where
  "enc_outcome r = (case index_of r outcomes of Some n \<Rightarrow> enc_int (int n) | None \<Rightarrow> [])"

definition dec_outcome :: "string \<Rightarrow> update_outcome" where
  "dec_outcome s = outcomes ! nat (dec_int s)"

lemma dec_enc_outcome [simp]: "dec_outcome (enc_outcome r) = r"
  by (cases r) (simp_all add: enc_outcome_def dec_outcome_def outcomes_def)

subsection \<open>The durable records\<close>

definition journal_text :: "updateJournal \<Rightarrow> string" where
  "journal_text j = enc_fields [enc_outcome (J_outcome j), J_error j, J_target j, enc_bool (J_active j), J_version j, J_binary j,
     J_binary_sha j, J_config j, J_config_sha j, enc_bool (J_had_web j), enc_bool (J_admission_open j), enc_int (J_started j)]"

definition read_journal :: "string \<Rightarrow> updateJournal option" where
  "read_journal t =
     (case dec_fields t of
        Some [a, b, c, d, e, f, g, h, i, k, l, m] \<Rightarrow>
          Some \<lparr>J_outcome = dec_outcome a, J_error = b, J_target = c, J_active = (d = ''t''), J_version = e, J_binary = f,
            J_binary_sha = g, J_config = h, J_config_sha = i, J_had_web = (k = ''t''), J_admission_open = (l = ''t''),
            J_started = dec_int m\<rparr>
      | _ \<Rightarrow> None)"

interpretation journalcodec: codec journal_text read_journal
  by unfold_locales (simp add: journal_text_def read_journal_def fieldcodec.decodes)

definition policy_fields :: "Policy \<Rightarrow> string list" where
  "policy_fields p = [enc_bool (RestorePrimary p), Recovery p, enc_bool (Maintenance p), enc_int (FailureThreshold p),
     enc_int (CooldownSeconds p), enc_int (MaxActionsHour p), Egress p, SOCKSAddress p, ReserveSOCKSAddress p,
     enc_bool (AutomaticFailover p)]"

fun event_fields :: "Event list \<Rightarrow> string list" where
  "event_fields [] = []"
| "event_fields (e # es) = enc_int (Ev_at e) # Ev_action e # Ev_result e # event_fields es"

fun read_events :: "string list \<Rightarrow> Event list" where
  "read_events (a # b # c # rest) = \<lparr>Ev_at = dec_int a, Ev_action = b, Ev_result = c\<rparr> # read_events rest"
| "read_events _ = []"

lemma read_event_fields [simp]: "read_events (event_fields es) = es"
  by (induction es) simp_all

definition recovery_text :: "recoveryState \<Rightarrow> string" where
  "recovery_text r = enc_fields (policy_fields (RS_policy r) @ RS_active r # enc_int (RS_last r) # event_fields (RS_events r))"

definition read_recovery :: "string \<Rightarrow> recoveryState option" where
  "read_recovery t =
     (case dec_fields t of
        Some (a # b # c # d # e # f # g # h # i # k # l # m # es) \<Rightarrow>
          Some \<lparr>RS_policy = \<lparr>RestorePrimary = (a = ''t''), Recovery = b, Maintenance = (c = ''t''), FailureThreshold = dec_int d,
              CooldownSeconds = dec_int e, MaxActionsHour = dec_int f, Egress = g, SOCKSAddress = h, ReserveSOCKSAddress = i,
              AutomaticFailover = (k = ''t'')\<rparr>, RS_active = l, RS_events = read_events es, RS_last = dec_int m\<rparr>
      | _ \<Rightarrow> None)"

interpretation recoverycodec: codec recovery_text read_recovery
  by unfold_locales (simp add: recovery_text_def read_recovery_def policy_fields_def fieldcodec.decodes)

subsection \<open>A node\<close>

definition sample_caps :: Capabilities where
  "sample_caps = \<lparr>Cap_pause = True, Cap_resume = True, Cap_runtime = True, Cap_drain = True, Cap_drain_unknown = False\<rparr>"

definition sample_lifecycle :: "bool \<Rightarrow> OperatorLifecycle" where
  "sample_lifecycle open1 = \<lparr>LC_state = (if open1 then ''open'' else ''drained''), LC_admission_open = open1,
     LC_drain = Some \<lparr>D_state = ''completed'', D_sessions = 0, D_streams = 0, D_websockets = 0\<rparr>\<rparr>"

text \<open>The world: the version that runs and whether admission is open.\<close>

type_synonym sample_world = "string \<times> bool"

definition sample_node :: "sample_world node_env" where
  "sample_node =
     \<lparr>api_SystemInfo = (\<lambda>w. (Inr (fst w), w)), api_Capabilities = (\<lambda>w. (Inr sample_caps, w)),
      api_WebStatus = (\<lambda>w. (Inr (Some (sample_lifecycle (snd w))), w)),
      api_WebPause = (\<lambda>w. (None, (fst w, False))), api_WebResume = (\<lambda>w. (None, (fst w, True))),
      api_WebDrain = (\<lambda>_ w. (None, (fst w, False))), api_Ready = (\<lambda>w. (Inr (True, []), w)),
      sys_restart = (\<lambda>d w. (None, (if d ''/usr/bin/telemt'' = Some ''new'' then ''3.1.0'' else ''3.0.0'', snd w))),
      check_decoy = (\<lambda>w. (None, w)), http_get = (\<lambda>_ w. (Inr (200, ''archive''), w)),
      select_wait = (\<lambda>w. (None, w)), past_deadline = (\<lambda>w. (False, w)), io_fault = (\<lambda>_ w. (None, w)),
      clock = (\<lambda>_. 0), tar_read = (\<lambda>_. ([\<lparr>TE_name = ''telemt'', TE_regular = True, TE_content = ''new''\<rparr>], None)),
      sha256_hex = (\<lambda>_. replicate 64 (CHR ''0'')), enc_journal = journal_text, dec_journal = read_journal,
      enc_recovery = recovery_text, dec_recovery = read_recovery, loopback_endpoint = (\<lambda>_. True)\<rparr>"

lemma sample_json: "json_ok sample_node"
  by (simp add: json_ok_def sample_node_def journalcodec.decodes recoverycodec.decodes)

definition sample_config :: Config where
  "sample_config = \<lparr>StateDir = ''/var/lib/a'', Engine = ''telemt'', TelemtConfigPath = ''/etc/t.toml'', TelemtBin = ''/usr/bin/telemt'',
     health_polls = 80, drain_polls = (\<lambda>n. nat n + 5)\<rparr>"

lemma sample_paths:
  "updateJournalPath sample_config = ''/var/lib/a/telemt-update-journal.json''" "known_good_bin sample_config = ''/var/lib/a/telemt-known-good''"
  "known_good_config sample_config = ''/var/lib/a/telemt-known-good.toml''" "recoveryPath sample_config = ''/var/lib/a/reliability.json''"
  "staged_path sample_config = ''/usr/bin/.telemt.new''" "prev_of (TelemtBin sample_config) = ''/usr/bin/telemt.prev''"
  "prev_of (TelemtConfigPath sample_config) = ''/etc/t.toml.prev''" "TelemtBin sample_config = ''/usr/bin/telemt''"
  "TelemtConfigPath sample_config = ''/etc/t.toml''"
  by (simp_all add: sample_config_def updateJournalPath_def known_good_bin_def known_good_config_def recoveryPath_def Join_def
      staged_path_def Dir_def prev_of_def)

lemma sample_paths_ok: "paths_ok sample_config"
  by (simp add: paths_ok_def update_paths_def sample_paths prev_of_def)

definition sample_disk :: disk where
  "sample_disk = [''/usr/bin/telemt'' \<mapsto> ''old'', ''/etc/t.toml'' \<mapsto> ''conf'']"

definition sample_agent :: "sample_world agent" where
  "sample_agent = \<lparr>disk = sample_disk, dlog = [], world = (''3.0.0'', True), maintenance = False, upd = None,
     recoveryPolicy = DefaultPolicy, activeEgress = [], recoveryEvents = [], recoveryLast = 0, recoveryFailures = 0\<rparr>"

definition sample_request :: UpdateTelemtRequest where
  "sample_request = \<lparr>Req_version = ''3.1.0'', Req_sha256 = replicate 64 (CHR ''0''), Req_url = ''https://p/t.tgz'',
     Req_require_drain = True, Req_drain_timeout = 60\<rparr>"

end
