(* ===== verification/Agent_Update_Properties.thy ===== *)
theory Agent_Update_Properties
  imports Agent_Sample
begin

text \<open>
  The properties of the Telemt update: interruption and recovery, what an outcome tells, and the
  drain before the swap.
\<close>

subsection \<open>Interruptions\<close>

text \<open>
  The disks an agent can be found on after any number of restarts, each of which runs the
  recovery and may itself be interrupted at any disk it goes through.
\<close>

inductive restarts :: "'w node_env \<Rightarrow> Config \<Rightarrow> disk \<Rightarrow> disk \<Rightarrow> bool" for env cfg d where
  stay: "restarts env cfg d d"
| again: "restarts env cfg d d' \<Longrightarrow> disk t = d' \<Longrightarrow> dlog t = [] \<Longrightarrow> recoverUpdate env cfg t = (e, t') \<Longrightarrow>
     d'' \<in> insert (disk t') (set (dlog t')) \<Longrightarrow> restarts env cfg d d''"

lemma recover_safe:
  assumes json: "json_ok env" and ok: "paths_ok cfg" and safe: "crash_safe env cfg req B C (disk t)"
    and eng: "Engine cfg = ''telemt''" and run: "recoverUpdate env cfg t = (e, t')"
  shows "all_disks (crash_safe env cfg req B C) t t'"
    "e = None \<Longrightarrow> (old_build env cfg B C (disk t') \<or> new_build env cfg req C (disk t')) \<and> inactive env cfg (disk t')"
proof -
  let ?P = "crash_safe env cfg req B C"
  obtain r s1 where 1: "ReadFile env (updateJournalPath cfg) t = (r, s1)" by fastforce
  have s1: "disk s1 = disk t" "dlog s1 = dlog t"
    using ReadFile_frame [of env "updateJournalPath cfg" t] 1 by simp_all
  have read: "r = Contents b \<Longrightarrow> disk t (updateJournalPath cfg) = Some b" "r = Missing \<longleftrightarrow> disk t (updateJournalPath cfg) = None" for b
    using ReadFile_Contents [of env "updateJournalPath cfg" t b] ReadFile_Missing [of env "updateJournalPath cfg" t] 1 by auto
  have idle: "(old_build env cfg B C (disk t) \<or> new_build env cfg req C (disk t)) \<and> inactive env cfg (disk t)"
    if "inactive env cfg (disk t)"
    using that safe by (auto simp: crash_safe_def inactive_def recoverable_def saved_in_def)
  have "all_disks ?P t t' \<and>
      (e = None \<longrightarrow> (old_build env cfg B C (disk t') \<or> new_build env cfg req C (disk t')) \<and> inactive env cfg (disk t'))"
  proof (cases "\<exists>j b. r = Contents b \<and> dec_journal env b = Some j \<and> J_active j \<and> \<not> maintenance s1")
    case True
    then obtain j b where j: "r = Contents b" "dec_journal env b = Some j" "J_active j" "\<not> maintenance s1" by blast
    then have run': "recover_active env cfg j s1 = (e, t')" using run 1 eng by (simp add: recoverUpdate_def)
    have at: "journal_at env cfg (disk s1) = Some j" using read(1) j s1 by (simp add: journal_at_def)
    then have "saved_in env cfg B C j (disk s1)"
      using safe j(3) s1 by (auto simp: crash_safe_def inactive_def recoverable_def new_build_def)
    from recover_active_safe [OF json ok at this run'] show ?thesis
      using s1 by (auto simp: all_disks_def)
  next
    case False
    then have d: "disk t' = disk t" "dlog t' = dlog t" and i: "e = None \<longrightarrow> inactive env cfg (disk t)"
      using run 1 eng s1 read by (auto simp: recoverUpdate_def inactive_def journal_at_def split: read_result.splits option.splits if_splits)
    show ?thesis using d i idle safe by (simp add: all_disks_def)
  qed
  then show "all_disks ?P t t'"
    "e = None \<Longrightarrow> (old_build env cfg B C (disk t') \<or> new_build env cfg req C (disk t')) \<and> inactive env cfg (disk t')"
    by blast+
qed

lemma restarts_safe:
  assumes "restarts env cfg d d'" "json_ok env" "paths_ok cfg" "Engine cfg = ''telemt''" "crash_safe env cfg req B C d"
  shows "crash_safe env cfg req B C d'"
  using assms
proof (induction rule: restarts.induct)
  case (again d' t e t' d'')
  then have "crash_safe env cfg req B C (disk t)" by simp
  from recover_safe(1) [OF again.prems(1,2) this again.prems(3) again.hyps(4)] show ?case
    using again.hyps by (auto simp: all_disks_def)
qed

lemma Start_accepts:
  assumes "StartTelemtUpdate env cfg req s0 = (None, s)"
  shows "Engine cfg = ''telemt''" "disk s = disk s0" "dlog s = dlog s0" "upd s \<noteq> None" "inactive env cfg (disk s0)"
    "was_drained s = False"
proof -
  obtain e s1 where 1: "checkUpdateJournal env cfg s0 = (e, s1)" by fastforce
  have sd: "same_disk s0 s1" using same_disk_check [of s0 s0 env cfg] 1 by simp
  show "Engine cfg = ''telemt''" "disk s = disk s0" "dlog s = dlog s0" "upd s \<noteq> None" "was_drained s = False"
    using assms 1 sd by (auto simp: StartTelemtUpdate_def same_disk_def was_drained_def newTelemtUpdate_def split: if_splits option.splits)
  have "e = None" using assms 1 by (auto simp: StartTelemtUpdate_def split: if_splits option.splits)
  then show "inactive env cfg (disk s0)"
    using 1 ReadFile_Contents [of env "updateJournalPath cfg" s0] ReadFile_Missing [of env "updateJournalPath cfg" s0]
    by (auto simp: checkUpdateJournal_def inactive_def journal_at_def split_beta split: read_result.splits option.splits if_splits)
qed

lemma job_safe:
  assumes "json_ok env" "paths_ok cfg" "StartTelemtUpdate env cfg req s0 = (None, s)"
    and "disk s0 (TelemtBin cfg) = Some B" "disk s0 (TelemtConfigPath cfg) = Some C" "dlog s0 = []"
    and "d \<in> insert (disk s0) (set (dlog (update_job env cfg req s)))"
  shows "crash_safe env cfg req B C d"
proof -
  note st = Start_accepts [OF assms(3)]
  have "crash_safe env cfg req B C (disk s0)"
    using assms(4,5) st(5) by (simp add: crash_safe_def old_build_def)
  moreover have "all_disks (crash_safe env cfg req B C) s (runTelemtUpdate env cfg req s)"
    by (rule run_safe [OF assms(1,2)]) (use st assms(4,5) in simp_all)
  ultimately show ?thesis
    using assms(6,7) st(3) by (auto simp: update_job_def all_disks_def)
qed


lemma sample_quiet: "Engine sample_config = ''telemt''" "disk sample_agent (updateJournalPath sample_config) = None"
  "world sample_agent = (''3.0.0'', True)" "\<not> maintenance sample_agent" "upd sample_agent = None" "sample_agent\<lparr>world := (''3.0.0'', True)\<rparr> = sample_agent"
  "io_fault sample_node op w = (None, w)"
  by (simp_all add: sample_paths sample_agent_def sample_disk_def sample_node_def) (simp add: sample_config_def)

lemma sample_start: "StartTelemtUpdate sample_node sample_config sample_request sample_agent =
    (None, sample_agent\<lparr>maintenance := True, upd := Some (newTelemtUpdate [] (TrimSpace (Req_version sample_request)))\<rparr>)"
  by (simp add: StartTelemtUpdate_def checkUpdateJournal_def ReadFile_def outside_def sample_quiet upd_running_def)

lemma sample_files:
  "disk sample_agent (TelemtBin sample_config) = Some ''old''" "disk sample_agent (TelemtConfigPath sample_config) = Some ''conf''"
  "dlog sample_agent = []"
  by (simp_all add: sample_paths sample_agent_def sample_disk_def)


subsection \<open>Outcomes\<close>

definition ended :: "'w agent \<Rightarrow> bool" where
  "ended s \<longleftrightarrow> (\<exists>u. upd s = Some u \<and> U_phase u = PhaseDone \<and> (U_ok u \<longleftrightarrow> U_outcome u = OutcomeUpdated) \<and>
     (U_rolled_back u \<longleftrightarrow> U_outcome u = OutcomeRolledBack))"

lemma ended_end [simp]: "ended (end_update r x s) \<longleftrightarrow> upd s \<noteq> None"
  by (auto simp: ended_def end_update_def end_record_def)

lemma ended_cong: "upd s' = upd s \<Longrightarrow> ended s' = ended s" "upd s' = upd s \<Longrightarrow> outcome_of s' = outcome_of s"
  by (simp_all add: ended_def outcome_of_def upd_of_def)

definition ends :: "'w agent \<Rightarrow> bool" where
  "ends s \<longleftrightarrow> (\<exists>r x t. s = end_update r x t)"

lemma ends_intro [simp]: "ends (end_update r x t)" "ends (rollback_fail cause y t)"
  by (auto simp: ends_def rollback_fail_def)

lemma ends_ended: "ends s \<Longrightarrow> upd s \<noteq> None \<Longrightarrow> ended s"
  unfolding ends_def by (elim exE) (simp del: not_None_eq)

lemma ends_rollback: "ends (rollbackTelemt env cfg plan kept cause s)"
  by (simp add: rollbackTelemt_def confirm_rollback_def split_beta split: option.split)

lemma ends_swap: "ends (update_swap env cfg req plan paused p s)"
  by (simp add: update_swap_def split_beta ends_rollback split: option.split sum.split)

lemma ends_body: "ends (update_body env cfg req plan p s)"
  by (simp add: update_body_def split_beta ends_swap split: option.split)

lemma upd_settled: "upd (snd (updateSettled env cfg j r s)) = upd s"
  by (auto simp: updateSettled_def verifiedFile_def split_beta upd_keep split: update_outcome.split sum.split read_result.split)

lemma upd_finalize: "upd (finalize_journal env cfg j s) = upd s"
  by (simp add: finalize_journal_def Let_def split_beta writeUpdateJournal_def upd_keep upd_settled)

lemma finalize_disk: "q \<noteq> updateJournalPath cfg \<Longrightarrow> disk (finalize_journal env cfg j s) q = disk s q"
proof -
  assume q: "q \<noteq> updateJournalPath cfg"
  let ?s = "snd (updateSettled env cfg j (U_outcome (upd_of s)) s)"
  have d: "disk ?s = disk s"
    using same_disk_facts(1) [OF same_disk_settled [OF same_disk_refl]] .
  have "disk (snd (writeAtomic env (updateJournalPath cfg) b ?s)) q = disk s q" for b
    by (rule writeAtomic_cases [of env "updateJournalPath cfg" b ?s]) (use d q in auto)
  then show ?thesis using d by (simp add: finalize_journal_def Let_def split_beta writeUpdateJournal_def)
qed

text \<open>What the files are when the update ends with a given outcome.\<close>

definition outcome_files ::
  "'w node_env \<Rightarrow> Config \<Rightarrow> UpdateTelemtRequest \<Rightarrow> string \<Rightarrow> string \<Rightarrow> update_outcome \<Rightarrow> disk \<Rightarrow> bool" where
  "outcome_files env cfg req B C r d \<longleftrightarrow>
     (case r of
        OutcomeUpdated \<Rightarrow> (\<exists>N. d (TelemtBin cfg) = Some N \<and> built_from env req N) \<and> d (TelemtConfigPath cfg) = Some C
      | OutcomeAdmissionClosed \<Rightarrow> (\<exists>N. d (TelemtBin cfg) = Some N \<and> built_from env req N) \<and> d (TelemtConfigPath cfg) = Some C
      | OutcomeRefused \<Rightarrow> d (TelemtBin cfg) = Some B \<and> d (TelemtConfigPath cfg) = Some C
      | OutcomeRolledBack \<Rightarrow> d (TelemtBin cfg) = Some B \<and> d (TelemtConfigPath cfg) = Some C
      | OutcomeFailed \<Rightarrow> d (TelemtConfigPath cfg) = Some C
      | OutcomeRollbackFailed \<Rightarrow> True
      | NoOutcome \<Rightarrow> False)"

lemma outcome_files_cong:
  "d (TelemtBin cfg) = d' (TelemtBin cfg) \<Longrightarrow> d (TelemtConfigPath cfg) = d' (TelemtConfigPath cfg) \<Longrightarrow>
     outcome_files env cfg req B C r d = outcome_files env cfg req B C r d'"
  by (simp add: outcome_files_def split: update_outcome.split)

definition run_ok :: "'w node_env \<Rightarrow> Config \<Rightarrow> UpdateTelemtRequest \<Rightarrow> string \<Rightarrow> string \<Rightarrow> 'w agent \<Rightarrow> bool" where
  "run_ok env cfg req B C s \<longleftrightarrow> ended s \<and> outcome_files env cfg req B C (outcome_of s) (disk s)"

lemma run_ok_frame:
  assumes "run_ok env cfg req B C s" "upd s' = upd s" "disk s' (TelemtBin cfg) = disk s (TelemtBin cfg)"
    "disk s' (TelemtConfigPath cfg) = disk s (TelemtConfigPath cfg)"
  shows "run_ok env cfg req B C s'"
  using assms(1) ended_cong [OF assms(2)] outcome_files_cong [OF assms(3,4), of env] by (simp add: run_ok_def)

lemma run_ok_refused:
  "upd s \<noteq> None \<Longrightarrow> disk s (TelemtBin cfg) = Some B \<Longrightarrow> disk s (TelemtConfigPath cfg) = Some C \<Longrightarrow>
     run_ok env cfg req B C (end_update OutcomeRefused x s)"
  by (simp add: run_ok_def outcome_files_def del: not_None_eq)

lemma run_ok_body:
  assumes "update_result cfg B C N s (update_body env cfg req plan p s)" "built_from env req N"
  shows "run_ok env cfg req B C (update_body env cfg req plan p s)"
proof -
  have "upd (update_body env cfg req plan p s) \<noteq> None" using assms(1) by (simp add: update_result_def)
  then have "ended (update_body env cfg req plan p s)" by (rule ends_ended [OF ends_body])
  with assms show ?thesis
    by (auto simp: run_ok_def outcome_files_def update_result_def split: update_outcome.splits)
qed

lemma remove_keeps:
  "paths_ok cfg \<Longrightarrow> run_ok env cfg req B C s \<Longrightarrow> run_ok env cfg req B C (snd (Remove env (staged_path cfg) s))"
  by (rule run_ok_frame) (use paths_okD [of cfg] within_disk [OF Remove_frame(2) [of "staged_path cfg" "{staged_path cfg}" s env]] in
    \<open>auto simp: upd_keep\<close>)

text \<open>The two ways a run can go: refused before the journal, or through it.\<close>

definition prepared_paths :: "Config \<Rightarrow> path set" where
  "prepared_paths cfg = {staged_path cfg, known_good_bin cfg, known_good_config cfg, updateJournalPath cfg}"

lemma preflight_drain:
  "fst (updatePreflight env req s) = Inr plan \<Longrightarrow> Req_require_drain req \<Longrightarrow> drainSkip plan = []"
  by (auto simp: updatePreflight_def fail_step_def drain_plan_def Let_def split_beta split: option.splits sum.splits if_splits)

lemma run_shape:
  assumes json: "json_ok env" and ok: "paths_ok cfg" and u: "upd s \<noteq> None"
    and bin: "disk s (TelemtBin cfg) = Some B" and con: "disk s (TelemtConfigPath cfg) = Some C" and ina: "inactive env cfg (disk s)"
  obtains (refused) t x where "upd t \<noteq> None" "within (prepared_paths cfg) s t"
      "runTelemtUpdate env cfg req s \<in> {end_update OutcomeRefused x t, snd (Remove env (staged_path cfg) (end_update OutcomeRefused x t))}"
    | (ran) t j plan N where "upd t \<noteq> None" "within (prepared_paths cfg) s t" "disk t (staged_path cfg) = Some N" "built_from env req N"
      "Req_require_drain req \<Longrightarrow> drainSkip plan = []"
      "runTelemtUpdate env cfg req s =
         snd (Remove env (staged_path cfg) (finalize_journal env cfg j (update_body env cfg req plan (staged_path cfg) t)))"
proof -
  note p = paths_ok_durable [OF ok] paths_okD [OF ok]
  let ?A = "prepared_paths cfg"
  obtain r1 s1 where 1: "updatePreflight env req s = (r1, s1)" by fastforce
  have sd1: "same_disk s s1" using same_disk_preflight [of s s env req] 1 by simp
  obtain r2 s2 where 2: "stageTelemtBinary env cfg req (begin_step StepDownload s1) = (r2, s2)" by fastforce
  note st = stage_contract [OF 2]
  have sd1': "same_disk s (begin_step StepDownload s1)" using sd1 by simp
  have w2s: "within {staged_path cfg} s s2" by (rule within_trans [OF same_disk_within [OF sd1'] st(1)])
  have w2: "within ?A s (finish_step k z s2)" for k z
    by (rule within_trans [OF within_mono [OF w2s]]) (simp_all add: prepared_paths_def within_eq)
  have u12: "upd s1 \<noteq> None" "upd s2 \<noteq> None" using u st(2) sd1 by (simp_all add: same_disk_def)
  show ?thesis
  proof (cases r1)
    case (Inl x)
    then show ?thesis using refused [of s1 "Some x"] u12(1) same_disk_within [OF sd1] 1 by (simp add: runTelemtUpdate_def)
  next
    case r1: (Inr plan)
    show ?thesis
    proof (cases r2)
      case (Inl x)
      then show ?thesis
        using refused [of "finish_step StepDownload StateFailed s2" "Some x"] u12(2) w2 1 2 r1 by (simp add: runTelemtUpdate_def)
    next
      case r2: (Inr q)
      from st(3) [OF r2] obtain N where q: "q = staged_path cfg" and N: "disk s2 (staged_path cfg) = Some N" "built_from env req N" by auto
      let ?s2 = "finish_step StepDownload StateOK s2"
      obtain r3 s3 where 3: "prepareUpdateJournal env cfg plan (Req_version req) ?s2 = (r3, s3)" by fastforce
      have bc: "disk ?s2 (TelemtBin cfg) = Some B" "disk ?s2 (TelemtConfigPath cfg) = Some C" "inactive env cfg (disk ?s2)"
        using within_disk [OF w2s] bin con ina p inactive_cong [of "disk s2" cfg "disk s" env] by auto
      note pr = prepare_contract [OF json ok bc 3]
      have w3: "within ?A s s3"
        by (rule within_trans [OF w2 within_mono [OF pr(3)]]) (simp add: prepared_paths_def)
      have u3: "upd s3 \<noteq> None" using pr(2) u12(2) by simp
      have N3: "disk s3 (staged_path cfg) = Some N" using within_disk [OF pr(3)] N(1) p by simp
      show ?thesis
      proof (cases r3)
        case (Inl x)
        then show ?thesis
          using refused [OF u3 w3, of "Some (''persist rollback intent: '' @ x)"] 1 2 3 r1 r2 q by (simp add: runTelemtUpdate_def)
      next
        case (Inr j)
        then show ?thesis
          using ran [OF u3 w3 N3 N(2), of "plan\<lparr>preserveClosed := J_had_web j \<and> \<not> J_admission_open j\<rparr>" j]
            preflight_drain [of env req s plan] 1 2 3 r1 r2 q by (simp add: runTelemtUpdate_def Let_def)
      qed
    qed
  qed
qed

lemma prepared_keeps:
  assumes "paths_ok cfg" "within (prepared_paths cfg) s t"
  shows "disk t (TelemtBin cfg) = disk s (TelemtBin cfg)" "disk t (TelemtConfigPath cfg) = disk s (TelemtConfigPath cfg)"
  using assms(2) paths_ok_durable [OF assms(1)] paths_okD [OF assms(1)]
  by (auto intro!: within_disk simp: prepared_paths_def)

lemma run_truthful:
  assumes json: "json_ok env" and ok: "paths_ok cfg" and u: "upd s \<noteq> None"
    and bin: "disk s (TelemtBin cfg) = Some B" and con: "disk s (TelemtConfigPath cfg) = Some C" and ina: "inactive env cfg (disk s)"
  shows "run_ok env cfg req B C (runTelemtUpdate env cfg req s)"
  using json ok u bin con ina
proof (cases rule: run_shape [where req = req])
  case (refused t x)
  then have "run_ok env cfg req B C (end_update OutcomeRefused x t)"
    using run_ok_refused prepared_keeps [OF ok refused(2)] bin con by simp
  then show ?thesis using refused(3) remove_keeps [OF ok] by auto
next
  case (ran t j plan N)
  let ?b = "update_body env cfg req plan (staged_path cfg) t"
  have "update_result cfg B C N t ?b"
    by (rule update_body_contract [OF ok]) (use ran prepared_keeps [OF ok ran(2)] bin con in simp_all)
  then have "run_ok env cfg req B C ?b" by (rule run_ok_body [OF _ ran(4)])
  then have "run_ok env cfg req B C (finalize_journal env cfg j ?b)"
    by (rule run_ok_frame) (use paths_ok_durable [OF ok] in \<open>simp_all add: upd_finalize finalize_disk\<close>)
  then show ?thesis unfolding ran(6) by (rule remove_keeps [OF ok])
qed

text \<open>
  C6: a Telemt update always ends with an outcome, and the outcome is true of the files: refused
  and rolled back mean the old binary and configuration are in place, updated and
  updated-with-closed-admission mean a binary from a download with the pinned checksum under the
  old configuration, and a failed update has kept the configuration. Only a failed rollback
  promises nothing.
\<close>

theorem update_outcome_truthful:
  assumes "json_ok env" and "paths_ok cfg" and "StartTelemtUpdate env cfg req s0 = (None, s)"
    and "disk s0 (TelemtBin cfg) = Some B" and "disk s0 (TelemtConfigPath cfg) = Some C"
  shows "\<exists>u. upd (update_job env cfg req s) = Some u \<and> U_phase u = PhaseDone \<and> (U_ok u \<longleftrightarrow> U_outcome u = OutcomeUpdated) \<and>
     outcome_files env cfg req B C (U_outcome u) (disk (update_job env cfg req s))"
  using run_truthful [OF assms(1,2), of s B C req] Start_accepts [OF assms(3)] assms(4,5)
  by (auto simp: run_ok_def ended_def update_job_def outcome_of_def upd_of_def)

theorem update_outcome_truthful_witness:
  "\<exists>u. upd (update_job sample_node sample_config sample_request
        (sample_agent\<lparr>maintenance := True, upd := Some (newTelemtUpdate [] (TrimSpace (Req_version sample_request)))\<rparr>)) = Some u \<and>
     U_phase u = PhaseDone"
  using update_outcome_truthful [OF sample_json sample_paths_ok sample_start sample_files(1,2)] by blast

subsection \<open>Draining before the swap\<close>

lemma body_drained:
  assumes "drainSkip plan = []" "upd s \<noteq> None"
  shows "same_disk s (update_body env cfg req plan p s) \<or> was_drained (update_body env cfg req plan p s)"
proof -
  obtain e1 s1 where 1: "updatePause env plan s = (e1, s1)" by fastforce
  have sd1: "same_disk s s1" using same_disk_pause [of s s env plan] 1 by simp
  obtain e2 s2 where 2: "updateDrain env cfg (drainTimeoutSecs req) s1 = (e2, s2)" by fastforce
  have sd2: "same_disk s s2" using same_disk_drain [OF sd1, of env cfg "drainTimeoutSecs req"] 2 by simp
  obtain re s3 where 3: "updateResume env plan True s2 = (re, s3)" by fastforce
  have sd3: "same_disk s s3" using same_disk_resume [OF sd2, of env plan True] 3 by simp
  have "e2 = None \<Longrightarrow> was_drained s2"
    using drain_marks [of s1 env cfg "drainTimeoutSecs req"] 2 assms(2) same_disk_facts(2) [OF sd1] by simp
  then show ?thesis
    using 1 2 3 sd1 sd3 assms(1) was_drained_update_swap [of s2] by (simp add: update_body_def split: option.split)
qed

text \<open>Nothing outside the listed paths changes on any disk of the way.\<close>

lemma within_bin:
  assumes "within A s s'" "q \<notin> A" "\<forall>d \<in> insert (disk s) (set (dlog s)). d q = v"
  shows "\<forall>d \<in> insert (disk s') (set (dlog s')). d q = v"
proof -
  from assms(1) obtain ds where ds: "dlog s' = ds @ dlog s" "\<forall>d \<in> insert (disk s') (set ds). \<forall>p. p \<notin> A \<longrightarrow> d p = disk s p"
    by (auto simp: within_def)
  with assms(2,3) show ?thesis by auto
qed

lemma finalize_within: "within {updateJournalPath cfg} s (finalize_journal env cfg j s)"
proof -
  have "within A s (snd (updateSettled env cfg j r s))" for r A
    by (rule same_disk_within [OF same_disk_settled [OF same_disk_refl]])
  then show ?thesis
    by (auto simp: finalize_journal_def Let_def split_beta writeUpdateJournal_def intro!: within_trans [OF _ within_writeAtomic])
qed

lemma run_drained:
  assumes json: "json_ok env" and ok: "paths_ok cfg" and u: "upd s \<noteq> None" and req: "Req_require_drain req" and log: "dlog s = []"
    and bin: "disk s (TelemtBin cfg) = Some B" and con: "disk s (TelemtConfigPath cfg) = Some C" and ina: "inactive env cfg (disk s)"
  shows "was_drained (runTelemtUpdate env cfg req s) \<or> (\<forall>d \<in> set (dlog (runTelemtUpdate env cfg req s)). d (TelemtBin cfg) = Some B)"
proof -
  have notin: "TelemtBin cfg \<notin> prepared_paths cfg" "TelemtBin cfg \<notin> {staged_path cfg}" "TelemtBin cfg \<notin> {updateJournalPath cfg}"
    using paths_ok_durable [OF ok] paths_okD [OF ok] by (auto simp: prepared_paths_def)
  have start: "\<forall>d \<in> insert (disk s) (set (dlog s)). d (TelemtBin cfg) = Some B" using bin log by simp
  have rem: "\<forall>d \<in> set (dlog (snd (Remove env (staged_path cfg) t))). d (TelemtBin cfg) = Some B"
    if "\<forall>d \<in> insert (disk t) (set (dlog t)). d (TelemtBin cfg) = Some B" for t
  proof -
    have "within {staged_path cfg} t (snd (Remove env (staged_path cfg) t))" by (rule Remove_frame(2)) simp
    from within_bin [OF this notin(2) that] show ?thesis by simp
  qed
  from json ok u bin con ina show ?thesis
  proof (cases rule: run_shape [where req = req])
    case (refused t x)
    have "\<forall>d \<in> insert (disk (end_update OutcomeRefused x t)) (set (dlog (end_update OutcomeRefused x t))). d (TelemtBin cfg) = Some B"
      using within_bin [OF refused(2) notin(1) start] by simp
    from this rem [OF this] show ?thesis using refused(3) by auto
  next
    case (ran t j plan N)
    let ?b = "update_body env cfg req plan (staged_path cfg) t"
    let ?f = "finalize_journal env cfg j ?b"
    consider "same_disk t ?b" | "was_drained ?b" using body_drained ran req by blast
    then show ?thesis
    proof cases
      case 1
      have "\<forall>d \<in> insert (disk ?f) (set (dlog ?f)). d (TelemtBin cfg) = Some B"
        by (rule within_bin [OF within_trans [OF same_disk_within [OF 1] finalize_within] notin(3)
              within_bin [OF ran(2) notin(1) start]])
      from rem [OF this] show ?thesis unfolding ran(6) by auto
    next
      case 2
      then have "was_drained ?f" by (simp add: was_drained_cong [OF upd_finalize])
      then show ?thesis unfolding ran(6) by simp
    qed
  qed
qed



subsection \<open>A failed update with the new binary in place\<close>

definition faulty_node :: "sample_world node_env" where
  "faulty_node = sample_node\<lparr>io_fault := \<lambda>op w.
     (if op = ChmodOp ''/usr/bin/telemt'' then Some ''chmod: input/output error''
      else if op = StatOp ''/usr/bin/telemt.prev'' then Some ''stat: input/output error'' else None, w)\<rparr>"

definition staged_agent :: "sample_world agent" where
  "staged_agent = sample_agent\<lparr>disk := sample_disk(''/usr/bin/.telemt.new'' \<mapsto> ''new''), upd := Some (newTelemtUpdate [] ''3.1.0'')\<rparr>"

definition sample_plan :: updatePlan where
  "sample_plan = \<lparr>preserveClosed = False, installed = ''3.0.0'', p_drain = True, p_pause = False, p_resume = True, drainSkip = [], hadWeb = True\<rparr>"

lemma faulty_io: "outside (io_fault faulty_node op) s = (if op = ChmodOp ''/usr/bin/telemt'' then Some ''chmod: input/output error''
      else if op = StatOp ''/usr/bin/telemt.prev'' then Some ''stat: input/output error'' else None, s)"
  by (simp add: outside_def faulty_node_def)

lemma faulty_swap: "\<exists>x t. swapTelemtBinary faulty_node sample_config (staged_path sample_config) (begin_step StepSwap staged_agent) = (Inl x, t) \<and>
   disk t (TelemtBin sample_config) = Some ''new'' \<and> upd t \<noteq> None"
  by (simp add: swapTelemtBinary_def Let_def backupFile_def ReadFile_def faulty_io open_trunc_def copy_to_def keep_config_def restoreFile_def
      sample_paths prev_of_def set_disk_def errors_Join_def staged_agent_def sample_disk_def begin_step_def on_upd_def sample_agent_def)
text \<open>
  C30: the outcome failed does not always mean that the run stopped before the binary was
  swapped: when the file mode of the installed binary cannot be set and the kept copy cannot be
  put back either, the run ends as failed with the new binary in place.
\<close>

theorem failed_update_with_new_binary:
  "let s = update_swap faulty_node sample_config sample_request sample_plan False (staged_path sample_config) staged_agent
   in outcome_of s = OutcomeFailed \<and> disk staged_agent (TelemtBin sample_config) = Some ''old'' \<and>
      disk s (TelemtBin sample_config) = Some ''new''"
proof -
  obtain x t where t: "swapTelemtBinary faulty_node sample_config (staged_path sample_config) (begin_step StepSwap staged_agent) = (Inl x, t)"
    "disk t (TelemtBin sample_config) = Some ''new''" "upd t \<noteq> None"
    using faulty_swap by blast
  have "updateResume faulty_node sample_plan False (finish_step StepSwap StateFailed t) =
      (None, skip_step StepResume (finish_step StepSwap StateFailed t))"
    by (simp add: updateResume_def sample_plan_def)
  then show ?thesis
    using t by (simp add: update_swap_def staged_agent_def sample_disk_def sample_paths del: not_None_eq)
qed

end
