(* ===== verification/Go_Json.thy ===== *)
theory Go_Json
  imports Go_Strings "HOL-Library.Finite_Map"
begin

text \<open>
  Decoded JSON, the \<^verbatim>\<open>any\<close> of \<^verbatim>\<open>encoding/json\<close>: an object is a finite map, so that equality of
  two values is \<^verbatim>\<open>reflect.DeepEqual\<close>. A missing key of a Go map reads as \<^verbatim>\<open>nil\<close>, which is also
  what \<^verbatim>\<open>null\<close> decodes to. A type assertion \<^verbatim>\<open>v, _ := x.(T)\<close> gives the zero value of \<open>T\<close> when
  it fails. Numbers are the rationals a \<^verbatim>\<open>float64\<close> may hold.
\<close>

datatype json =
    JNull
  | JBool bool
  | JNum rat
  | JStr string
  | JArr "json list"
  | JObj "(string, json) fmap"

type_synonym object = "(string, json) fmap"

definition field :: "object \<Rightarrow> string \<Rightarrow> json" where
  "field m k = (case fmlookup m k of None \<Rightarrow> JNull | Some v \<Rightarrow> v)"

definition has_field :: "object \<Rightarrow> string \<Rightarrow> bool" where
  "has_field m k \<longleftrightarrow> fmlookup m k \<noteq> None"

definition as_obj :: "json \<Rightarrow> object option" where
  "as_obj v = (case v of JObj m \<Rightarrow> Some m | _ \<Rightarrow> None)"

definition obj :: "json \<Rightarrow> object" where
  "obj v = (case v of JObj m \<Rightarrow> m | _ \<Rightarrow> fmempty)"

definition arr :: "json \<Rightarrow> json list" where
  "arr v = (case v of JArr xs \<Rightarrow> xs | _ \<Rightarrow> [])"

definition str :: "json \<Rightarrow> string" where
  "str v = (case v of JStr s \<Rightarrow> s | _ \<Rightarrow> [])"

definition truth :: "json \<Rightarrow> bool" where
  "truth v = (case v of JBool b \<Rightarrow> b | _ \<Rightarrow> False)"

lemma json_views [simp]:
  "as_obj (JObj m) = Some m" "obj (JObj m) = m" "obj JNull = fmempty" "arr (JArr xs) = xs" "arr JNull = []"
  "str (JStr s) = s" "str JNull = []" "truth (JBool b) = b" "truth JNull = False"
  by (simp_all add: as_obj_def obj_def arr_def str_def truth_def)

lemma field_simps [simp]:
  "field fmempty k = JNull"
  "field (fmupd k v m) k' = (if k = k' then v else field m k')"
  "field (fmap_of_list kvs) k = (case map_of kvs k of None \<Rightarrow> JNull | Some v \<Rightarrow> v)"
  by (simp_all add: field_def fmlookup_of_list)

text \<open>An object with one member, the form of most patches.\<close>

abbreviation single :: "string \<Rightarrow> json \<Rightarrow> object" where
  "single k v \<equiv> fmupd k v fmempty"

end
