(* ===== verification/Agent_Recovery.thy ===== *)
theory Agent_Recovery
  imports Agent_Update Go_Json
begin

text \<open>
  Automatic recovery on a node (\<^verbatim>\<open>internal/agent/recovery.go\<close>): the reliability policy the panel
  sends, the outbound route of Telemt, and the tick that runs every thirty seconds and may
  restart Telemt or switch the route to the reserve.

  The calls it makes on Telemt's control API, on \<^verbatim>\<open>systemctl is-active\<close> and on the network are the
  operations of \<open>control_env\<close>. The two mutexes are held for the spans the code holds them; the
  maintenance lock is the flag of the agent.
\<close>

subsection \<open>The control API\<close>

record PatchConfigResult =
  PC_restart_required :: bool
  PC_process_restart_required :: bool
  PC_runtime_reload_required :: bool
  PC_deferred :: "string list"

record Upstream =
  Up_healthy :: bool
  Up_last_check_age :: int

record UpstreamsStats =
  US_enabled :: bool
  US_upstreams :: "Upstream list"

record 'w control_env =
  sys_is_active :: "string \<Rightarrow> 'w \<Rightarrow> (string + string) \<times> 'w"
  ctx_Err :: "'w \<Rightarrow> failure \<times> 'w"
  api_UpstreamsStats :: "'w \<Rightarrow> (string + UpstreamsStats) \<times> 'w"
  api_GetConfig :: "'w \<Rightarrow> (string + object) \<times> 'w"
  api_PatchConfig :: "object \<Rightarrow> bool \<Rightarrow> 'w \<Rightarrow> (string + PatchConfigResult) \<times> 'w"
  socks5_dialer :: "string \<Rightarrow> failure"
  net_dial :: "string \<Rightarrow> string \<Rightarrow> 'w \<Rightarrow> failure \<times> 'w"
  dec_policy :: "string \<Rightarrow> string + Policy"

definition unitActive :: "'w control_env \<Rightarrow> string \<Rightarrow> 'w agent \<Rightarrow> bool \<times> 'w agent" where
  "unitActive net unit1 s =
     (let (r, s1) = outside (sys_is_active net unit1) s
      in (case r of Inl _ \<Rightarrow> False | Inr out \<Rightarrow> TrimSpace out = ''active'', s1))"

subsection \<open>The outbound route\<close>

definition hasScope :: "json \<Rightarrow> bool" where
  "hasScope v = (case v of JStr t \<Rightarrow> t \<noteq> [] | JArr xs \<Rightarrow> xs \<noteq> [] | _ \<Rightarrow> v \<noteq> JNull)"

definition probe_targets :: "string list" where
  "probe_targets = [''149.154.175.50:443'', ''149.154.167.51:443'']"

fun dial_all :: "'w control_env \<Rightarrow> string \<Rightarrow> string list \<Rightarrow> 'w agent \<Rightarrow> failure \<times> 'w agent" where
  "dial_all net addr [] s = (None, s)"
| "dial_all net addr (t # ts) s =
     (let (e, s1) = outside (net_dial net addr t) s in case e of Some x \<Rightarrow> (Some x, s1) | None \<Rightarrow> dial_all net addr ts s1)"

definition probeEgress :: "'w control_env \<Rightarrow> string \<Rightarrow> 'w agent \<Rightarrow> failure \<times> 'w agent" where
  "probeEgress net addr s =
     (case (if addr \<noteq> [] then socks5_dialer net addr else None) of
        Some x \<Rightarrow> (Some x, s)
      | None \<Rightarrow> dial_all net addr probe_targets s)"

definition scoped_upstreams :: "json \<Rightarrow> json list" where
  "scoped_upstreams old = filter (\<lambda>item. case as_obj item of None \<Rightarrow> False | Some m \<Rightarrow> hasScope (field m ''scopes'')) (arr old)"

definition egress_route :: "string \<Rightarrow> json" where
  "egress_route addr =
     (let route = fmap_of_list [(''type'', JStr ''direct''), (''weight'', JNum 1), (''enabled'', JBool True)]
      in JObj (if addr \<noteq> [] then fmupd ''address'' (JStr addr) (fmupd ''type'' (JStr ''socks5'') route) else route))"

definition or_empty :: "json \<Rightarrow> json" where
  "or_empty v = (if v = JNull then JArr [] else v)"

definition patch_and_restart :: "'w node_env \<Rightarrow> 'w control_env \<Rightarrow> Config \<Rightarrow> json \<Rightarrow> 'w agent \<Rightarrow> failure \<times> 'w agent" where
  "patch_and_restart env net cfg old s =
     (let (r, s1) = outside (api_PatchConfig net (single ''upstreams'' (or_empty old)) True) s
      in case r of Inl x \<Rightarrow> (Some x, s1) | Inr _ \<Rightarrow> restartTelemt env cfg s1)"

definition activate_route :: "'w node_env \<Rightarrow> 'w control_env \<Rightarrow> Config \<Rightarrow> json list \<Rightarrow> 'w agent \<Rightarrow> failure \<times> 'w agent" where
  "activate_route env net cfg next_up s =
     (let (r, s1) = outside (api_PatchConfig net (single ''upstreams'' (JArr next_up)) True) s
      in case r of Inl x \<Rightarrow> (Some x, s1)
         | Inr out \<Rightarrow>
     (let (e, s2) = (if PC_restart_required out \<or> PC_process_restart_required out then restartTelemt env cfg s1 else (None, s1))
      in case e of Some x \<Rightarrow> (Some x, s2) | None \<Rightarrow> waitTelemtReady env (health_polls cfg) s2))"

definition applyEgress :: "'w node_env \<Rightarrow> 'w control_env \<Rightarrow> Config \<Rightarrow> string \<Rightarrow> 'w agent \<Rightarrow> failure \<times> 'w agent" where
  "applyEgress env net cfg addr s =
     (let (r, s1) = outside (api_GetConfig net) s
      in case r of Inl x \<Rightarrow> (Some x, s1)
         | Inr conf \<Rightarrow>
             if truth (field (obj (field conf ''general'')) ''use_middle_proxy'') \<and> addr \<noteq> []
             then (Some ''SOCKS/WARP egress conflicts with Middle Proxy; disable the sponsor tag first'', s1)
             else
     (let (e, s2) = probeEgress net addr s1
      in case e of Some x \<Rightarrow> (Some (''candidate route cannot reach Telegram: '' @ x), s2)
         | None \<Rightarrow>
     (let old = field conf ''upstreams'';
          (e3, s3) = activate_route env net cfg (scoped_upstreams old @ [egress_route addr]) s2
      in case e3 of None \<Rightarrow> (None, s3)
         | Some x \<Rightarrow> (let (restore, s4) = patch_and_restart env net cfg old s3 in (errors_Join (Some x) restore, s4)))))"

subsection \<open>The policy the panel sends\<close>

definition current_recovery :: "'w agent \<Rightarrow> recoveryState" where
  "current_recovery s = \<lparr>RS_policy = recoveryPolicy s, RS_active = activeEgress s, RS_events = recoveryEvents s, RS_last = recoveryLast s\<rparr>"

definition desired_route :: "Policy \<Rightarrow> string" where
  "desired_route p = (if Egress p = ''socks5'' then SOCKSAddress p else Egress p)"

definition changes_route :: "Policy \<Rightarrow> Policy \<Rightarrow> string \<Rightarrow> bool \<Rightarrow> bool" where
  "changes_route p old oldActive restorePrimary \<longleftrightarrow>
     Egress p \<noteq> ''unmanaged'' \<and>
     (Egress p \<noteq> Egress old \<or> SOCKSAddress p \<noteq> SOCKSAddress old \<or> restorePrimary \<and> oldActive \<noteq> desired_route p)"

definition switch_route ::
  "'w node_env \<Rightarrow> 'w control_env \<Rightarrow> Config \<Rightarrow> Policy \<Rightarrow> bool \<Rightarrow> 'w agent \<Rightarrow> (string + json) \<times> 'w agent" where
  "switch_route env net cfg p change s =
     (if \<not> change then (Inr JNull, s)
      else
     (let (r, s1) = outside (api_GetConfig net) s
      in case r of Inl x \<Rightarrow> (Inl x, s1)
         | Inr conf \<Rightarrow>
             if Egress p = ''unmanaged'' then (Inl ''restore the direct route before handing routing back to manual control'', s1)
             else
     (let (e, s2) = applyEgress env net cfg (if Egress p = ''socks5'' then SOCKSAddress p else []) s1
      in case e of Some x \<Rightarrow> (Inl x, s2) | None \<Rightarrow> (Inr (field conf ''upstreams''), s2))))"

text \<open>The policy is installed and saved; when saving fails the previous one is put back.\<close>

definition install_policy ::
  "'w node_env \<Rightarrow> 'w control_env \<Rightarrow> Config \<Rightarrow> Policy \<Rightarrow> bool \<Rightarrow> string \<Rightarrow> json \<Rightarrow> 'w agent \<Rightarrow> failure \<times> 'w agent" where
  "install_policy env net cfg p change oldActive previousUpstreams s =
     (let (e, s1) = saveRecoveryLocked env cfg
             (s\<lparr>recoveryPolicy := p,
                activeEgress := (if change \<or> Egress p = ''unmanaged'' then desired_route p else activeEgress s)\<rparr>)
      in case e of None \<Rightarrow> (None, s1)
         | Some x \<Rightarrow>
     (let s2 = s1\<lparr>recoveryPolicy := recoveryPolicy s, activeEgress := oldActive\<rparr>
      in if \<not> change then (Some x, s2)
         else let (restore, s3) = patch_and_restart env net cfg previousUpstreams s2 in (errors_Join (Some x) restore, s3)))"

definition accept_policy ::
  "'w node_env \<Rightarrow> 'w control_env \<Rightarrow> Config \<Rightarrow> Policy \<Rightarrow> 'w agent \<Rightarrow> failure \<times> 'w agent" where
  "accept_policy env net cfg p0 s =
     (let old = recoveryPolicy s; oldActive = activeEgress s;
          p = p0\<lparr>RestorePrimary := False\<rparr>;
          change = changes_route p old oldActive (RestorePrimary p0)
      in if Egress p = ''unmanaged'' \<and> Egress old \<noteq> ''unmanaged'' \<and> oldActive \<noteq> ''direct''
         then (Some ''restore the direct route before handing routing back to manual control'', s)
         else
     (let (r, s1) = switch_route env net cfg p change s
      in case r of Inl x \<Rightarrow> (Some x, s1)
         | Inr previousUpstreams \<Rightarrow> install_policy env net cfg p change oldActive previousUpstreams s1))"

definition configure_policy ::
  "'w node_env \<Rightarrow> 'w control_env \<Rightarrow> Config \<Rightarrow> string \<Rightarrow> 'w agent \<Rightarrow> failure \<times> 'w agent" where
  "configure_policy env net cfg raw s =
     (let (e, s1) = checkUpdateJournal env cfg s
      in case e of Some x \<Rightarrow> (Some x, s1)
         | None \<Rightarrow>
             if Engine cfg \<noteq> ''telemt'' then (Some ''recovery and egress require telemt'', s1)
             else case dec_policy net raw of
                    Inl x \<Rightarrow> (Some x, s1)
                  | Inr p \<Rightarrow>
                      (case Policy_Validate (loopback_endpoint env) p of
                         Some x \<Rightarrow> (Some x, s1)
                       | None \<Rightarrow> accept_policy env net cfg p s1))"

definition configureReliability ::
  "'w node_env \<Rightarrow> 'w control_env \<Rightarrow> Config \<Rightarrow> string \<Rightarrow> 'w agent \<Rightarrow> (string + string) \<times> 'w agent" where
  "configureReliability env net cfg raw s =
     (if maintenance s then (Inl ''node maintenance is already in progress'', s)
      else
     (let (e, s1) = (if raw \<noteq> [] then configure_policy env net cfg raw (s\<lparr>maintenance := True\<rparr>) else (None, s\<lparr>maintenance := True\<rparr>));
          s2 = s1\<lparr>maintenance := False\<rparr>
      in case e of Some x \<Rightarrow> (Inl x, s2) | None \<Rightarrow> (Inr (enc_recovery env (current_recovery s2)), s2)))"

subsection \<open>The tick\<close>

text \<open>
  A failed readiness call counts against the service unless Telemt answered with a status below
  500; an unready answer does not.
\<close>

definition bad_service :: "(string \<times> int option) + (bool \<times> string) \<Rightarrow> bool" where
  "bad_service re =
     (case re of Inr _ \<Rightarrow> False | Inl (_, None) \<Rightarrow> True | Inl (_, Some status) \<Rightarrow> \<not> status < 500)"

definition route_bad :: "string + UpstreamsStats \<Rightarrow> bool" where
  "route_bad r =
     (case r of
        Inl _ \<Rightarrow> False
      | Inr st \<Rightarrow> US_enabled st \<and> US_upstreams st \<noteq> [] \<and>
          list_all (\<lambda>u. \<not> Up_last_check_age u > 120 \<and> \<not> (Up_healthy u \<and> Up_last_check_age u \<le> 120)) (US_upstreams st))"

definition operator_paused :: "string + OperatorLifecycle option \<Rightarrow> bool" where
  "operator_paused r = (case r of Inr (Some lc) \<Rightarrow> \<not> LC_admission_open lc | _ \<Rightarrow> False)"

text \<open>What the tick sees: nothing to judge, or whether the service and the route are bad.\<close>

definition observe ::
  "'w node_env \<Rightarrow> 'w control_env \<Rightarrow> Config \<Rightarrow> Policy \<Rightarrow> 'w agent \<Rightarrow> (bool \<times> bool) option \<times> 'w agent" where
  "observe env net cfg p s =
     (if Maintenance p then (None, s)
      else
     (let (ej, s1) = checkUpdateJournal env cfg s
      in if ej \<noteq> None then (None, s1)
         else
     (let (up, s2) = unitActive net ''telemt'' s1
      in if \<not> up then (None, s2)
         else
     (let (web, s3) = outside (api_WebStatus env) s2
      in if operator_paused web then (None, s3)
         else
     (let (re, s4) = outside (api_Ready env) s3; (ce, s5) = outside (ctx_Err net) s4
      in if ce \<noteq> None \<or> re = Inr (False, ''admission_closed'') then (None, s5)
         else
     (let (rb, s6) = (if AutomaticFailover p then (let (r, t) = outside (api_UpstreamsStats net) s5 in (route_bad r, t)) else (False, s5))
      in (Some (bad_service re, rb), s6)))))))"

definition attempt_times :: "Event list \<Rightarrow> gotime list" where
  "attempt_times es = map Ev_at (filter (\<lambda>ev. Ev_action ev = ''attempt'') es)"

definition recent_actions :: "gotime \<Rightarrow> Event list \<Rightarrow> int" where
  "recent_actions now es = int (length (filter (\<lambda>t. time_Sub now t < Hour) (attempt_times es)))"

definition may_act :: "Policy \<Rightarrow> gotime \<Rightarrow> bool \<Rightarrow> 'w agent \<Rightarrow> bool" where
  "may_act p now routeBad s \<longleftrightarrow>
     \<not> (recoveryFailures s < FailureThreshold p \<or> time_Sub now (recoveryLast s) < CooldownSeconds p * Second \<or>
        recent_actions now (recoveryEvents s) \<ge> MaxActionsHour p) \<and>
     \<not> (Recovery p \<noteq> ''restart'' \<and> (\<not> routeBad \<or> \<not> AutomaticFailover p))"

definition record_attempt_event :: "gotime \<Rightarrow> 'w agent \<Rightarrow> 'w agent" where
  "record_attempt_event now s =
     s\<lparr>recoveryLast := now,
       recoveryEvents := keep_events (recoveryEvents s @
         [\<lparr>Ev_at = now, Ev_action = ''attempt'', Ev_result = ''confirmed repeated failure''\<rparr>])\<rparr>"

text \<open>
  The decision of a tick: \<open>Some (bad, route)\<close> when an attempt has been recorded and saved and
  the action comes next.
\<close>

definition tick_plan ::
  "'w node_env \<Rightarrow> 'w control_env \<Rightarrow> Config \<Rightarrow> Policy \<Rightarrow> 'w agent \<Rightarrow> (bool \<times> bool) option \<times> 'w agent" where
  "tick_plan env net cfg p s =
     (let (seen, s1) = observe env net cfg p s
      in case seen of None \<Rightarrow> (None, s1)
         | Some (badService, routeBad) \<Rightarrow>
             if \<not> badService \<and> \<not> routeBad then (None, s1\<lparr>recoveryFailures := 0\<rparr>)
             else
     (let s2 = s1\<lparr>recoveryFailures := recoveryFailures s1 + 1\<rparr>; now = clock env (world s2)
      in if \<not> may_act p now routeBad s2 then (None, s2)
         else
     (let (e, s3) = saveRecoveryLocked env cfg (record_attempt_event now s2)
      in (if e = None then Some (badService, routeBad) else None, s3))))"

definition tick_result :: "'w node_env \<Rightarrow> Config \<Rightarrow> failure \<Rightarrow> 'w agent \<Rightarrow> 'w agent" where
  "tick_result env cfg e = recoveryEvent env cfg ''result'' (case e of None \<Rightarrow> ''recovered'' | Some x \<Rightarrow> ''failed: '' @ x)"

definition tick_act ::
  "'w node_env \<Rightarrow> 'w control_env \<Rightarrow> Config \<Rightarrow> Policy \<Rightarrow> string \<Rightarrow> bool \<Rightarrow> bool \<Rightarrow> 'w agent \<Rightarrow> 'w agent" where
  "tick_act env net cfg p active badService routeBad s =
     (if routeBad \<and> AutomaticFailover p \<and> active \<noteq> ReserveSOCKSAddress p
      then (let (e, s1) = applyEgress env net cfg (ReserveSOCKSAddress p) s
            in tick_result env cfg e (if e = None then s1\<lparr>activeEgress := ReserveSOCKSAddress p\<rparr> else s1))
      else if badService \<and> Recovery p = ''restart''
      then (let (e, s1) = restartTelemt env cfg s in tick_result env cfg e s1)
      else s)"

definition recoveryTick :: "'w node_env \<Rightarrow> 'w control_env \<Rightarrow> Config \<Rightarrow> 'w agent \<Rightarrow> 'w agent" where
  "recoveryTick env net cfg s =
     (if Engine cfg \<noteq> ''telemt'' \<or> maintenance s then s
      else
     (let p = recoveryPolicy s; active = activeEgress s;
          (plan, s1) = tick_plan env net cfg p (s\<lparr>maintenance := True\<rparr>);
          s2 = (case plan of None \<Rightarrow> s1 | Some (badService, routeBad) \<Rightarrow> tick_act env net cfg p active badService routeBad s1)
      in s2\<lparr>maintenance := False\<rparr>))"

text \<open>The memory of an agent that has just started.\<close>

definition NewHandler :: "'w agent \<Rightarrow> 'w agent" where
  "NewHandler s =
     s\<lparr>maintenance := False, upd := None, recoveryPolicy := DefaultPolicy, activeEgress := [], recoveryEvents := [],
       recoveryLast := zero_time, recoveryFailures := 0\<rparr>"

text \<open>The instant of the attempt this tick records and saves, if it does.\<close>

definition tick_attempt :: "'w node_env \<Rightarrow> 'w control_env \<Rightarrow> Config \<Rightarrow> 'w agent \<Rightarrow> gotime option" where
  "tick_attempt env net cfg s =
     (if Engine cfg \<noteq> ''telemt'' \<or> maintenance s then None
      else let (plan, s1) = tick_plan env net cfg (recoveryPolicy s) (s\<lparr>maintenance := True\<rparr>)
           in if plan = None then None else Some (recoveryLast s1))"

end
