(* ===== verification/Agent_Recovery_Safety.thy ===== *)
theory Agent_Recovery_Safety
  imports Agent_Recovery Rate_Limit
begin

text \<open>
  What bounds automatic recovery. The hourly budget and the cooldown are read off a history of at
  most fifty events that is also the only durable record. The invariant relates that history, in
  memory and on disk, to the attempts really made, and the run relation covers ticks, policy
  changes, restarts of the agent and everything else that leaves the recovery file alone.
\<close>

subsection \<open>Operations that reach outside only\<close>

definition only_world :: "'w agent \<Rightarrow> 'w agent \<Rightarrow> bool" where
  "only_world s s' \<longleftrightarrow> (\<exists>w. s' = s\<lparr>world := w\<rparr>)"

named_theorems calls \<open>operations that change the world only\<close>

lemma only_world_refl [calls]: "only_world s s"
  by (auto simp: only_world_def intro: exI [of _ "world s"])

lemma only_world_trans: "only_world s s1 \<Longrightarrow> only_world s1 s2 \<Longrightarrow> only_world s s2"
  by (auto simp: only_world_def)

lemma only_world_outside [calls]: "only_world s s1 \<Longrightarrow> only_world s (snd (outside f s1))"
  by (auto simp: only_world_def outside_def split_beta)

lemma only_world_pair: "outside f s1 = (r, s2) \<Longrightarrow> only_world s s1 \<Longrightarrow> only_world s s2"
  using only_world_outside [of s s1 f] by simp

lemma only_worldD:
  assumes "only_world s s'"
  shows "disk s' = disk s" "dlog s' = dlog s" "maintenance s' = maintenance s" "upd s' = upd s" "recoveryPolicy s' = recoveryPolicy s"
    "activeEgress s' = activeEgress s" "recoveryEvents s' = recoveryEvents s" "recoveryLast s' = recoveryLast s"
    "recoveryFailures s' = recoveryFailures s"
  using assms by (auto simp: only_world_def)

lemma only_world_ReadFile [calls]: "only_world s s1 \<Longrightarrow> only_world s (snd (ReadFile env p s1))"
  by (auto simp: ReadFile_def Let_def split_beta only_world_outside split: option.splits)

lemma only_world_wait [calls]: "only_world s s1 \<Longrightarrow> only_world s (snd (waitTelemtReady env n s1))"
  by (induction n arbitrary: s1) (simp_all add: Let_def split_beta only_world_outside split: option.splits)

lemma only_world_restart [calls]: "only_world s s1 \<Longrightarrow> only_world s (snd (restartTelemt env cfg s1))"
  by (simp add: restartTelemt_def Let_def split_beta calls split: option.splits)

lemma only_world_check [calls]: "only_world s s1 \<Longrightarrow> only_world s (snd (checkUpdateJournal env cfg s1))"
  by (simp add: checkUpdateJournal_def Let_def split_beta calls split: read_result.splits option.splits)

lemma only_world_unit [calls]: "only_world s s1 \<Longrightarrow> only_world s (snd (unitActive net u s1))"
  by (simp add: unitActive_def Let_def split_beta calls)

lemma only_world_dial [calls]: "only_world s s1 \<Longrightarrow> only_world s (snd (dial_all net addr ts s1))"
  by (induction ts arbitrary: s1) (simp_all add: Let_def split_beta only_world_outside split: option.splits)

lemma only_world_probe [calls]: "only_world s s1 \<Longrightarrow> only_world s (snd (probeEgress net addr s1))"
  by (simp add: probeEgress_def calls split: option.splits)

lemma only_world_patch [calls]: "only_world s s1 \<Longrightarrow> only_world s (snd (patch_and_restart env net cfg old s1))"
  by (simp add: patch_and_restart_def Let_def split_beta calls split: sum.splits)

lemma only_world_activate [calls]: "only_world s s1 \<Longrightarrow> only_world s (snd (activate_route env net cfg up s1))"
  by (simp add: activate_route_def Let_def split_beta calls split: sum.splits option.splits)

lemma only_world_egress [calls]: "only_world s s1 \<Longrightarrow> only_world s (snd (applyEgress env net cfg addr s1))"
  by (simp add: applyEgress_def Let_def split_beta calls split: sum.splits option.splits)

lemma only_world_switch [calls]: "only_world s s1 \<Longrightarrow> only_world s (snd (switch_route env net cfg p c s1))"
  by (simp add: switch_route_def Let_def split_beta calls split: sum.splits option.splits)

lemma only_world_observe [calls]: "only_world s s1 \<Longrightarrow> only_world s (snd (observe env net cfg p s1))"
  by (simp add: observe_def Let_def split_beta calls)

subsection \<open>Saving\<close>

lemma saveRecovery_cases:
  obtains "fst (saveRecoveryLocked env cfg s) \<noteq> None" "disk (snd (saveRecoveryLocked env cfg s)) = disk s"
    | "disk (snd (saveRecoveryLocked env cfg s)) = (disk s)(recoveryPath cfg \<mapsto> enc_recovery env (current_recovery s))"
proof -
  obtain e s1 where 1: "fault env (MkdirOp (StateDir cfg)) s = (e, s1)" by fastforce
  note o = outside_pair [OF 1]
  let ?b = "enc_recovery env (current_recovery s)"
  show ?thesis
  proof (cases e)
    case None
    then have "saveRecoveryLocked env cfg s = writeAtomic env (recoveryPath cfg) ?b s1"
      using 1 by (simp add: saveRecoveryLocked_def current_recovery_def Let_def)
    with that o show ?thesis by (cases rule: writeAtomic_cases [of env "recoveryPath cfg" ?b s1]) auto
  next
    case (Some x)
    with that(1) o 1 show ?thesis by (simp add: saveRecoveryLocked_def Let_def)
  qed
qed

lemmas save_memory = more_eq [OF saveRecovery_frame(1)]

subsection \<open>The history\<close>

abbreviation is_attempt :: "Event \<Rightarrow> bool" where
  "is_attempt ev \<equiv> Ev_action ev = ''attempt''"

fun tight :: "Event list \<Rightarrow> bool" where
  "tight (e # f # es) = ((is_attempt e \<or> is_attempt f) \<and> tight (f # es))"
| "tight _ = True"

definition covered :: "gotime \<Rightarrow> Event list \<Rightarrow> bool" where
  "covered a es \<longleftrightarrow> a \<in> set (attempt_times es) \<or> 6 \<le> length (filter (\<lambda>x. a \<le> x) (attempt_times es))"

text \<open>
  \<open>history A es last\<close>: the events \<open>es\<close> and the instant \<open>last\<close> account for the attempts \<open>A\<close>. An
  attempt that is no longer listed was followed by at least six that are.
\<close>

definition history :: "gotime list \<Rightarrow> Event list \<Rightarrow> gotime \<Rightarrow> bool" where
  "history A es l \<longleftrightarrow> sorted (attempt_times es) \<and> tight es \<and> (\<forall>x \<in> set (attempt_times es). x \<le> l) \<and>
     (\<forall>a \<in> set A. a \<le> l \<and> covered a es)"

lemma attempt_times_simps [simp]:
  "attempt_times [] = []" "attempt_times (es @ fs) = attempt_times es @ attempt_times fs"
  "attempt_times (e # es) = (if is_attempt e then Ev_at e # attempt_times es else attempt_times es)"
  by (simp_all add: attempt_times_def)

lemma tight_tail: "tight (e # es) \<Longrightarrow> tight es"
  by (cases es) simp_all

lemma tight_drop: "tight es \<Longrightarrow> tight (drop k es)"
proof (induction k arbitrary: es)
  case (Suc k)
  then show ?case by (cases es) (auto dest: tight_tail)
qed simp

lemma tight_attempts: "tight es \<Longrightarrow> length es \<le> 2 * length (attempt_times es) + 1"
  by (induction es rule: induct_list012) (auto dest: tight_tail)

lemma tight_attempt: "tight es \<Longrightarrow> is_attempt e \<Longrightarrow> tight (es @ [e])"
  by (induction es rule: tight.induct) auto

lemma tight_other: "tight (es @ [f]) \<Longrightarrow> is_attempt f \<Longrightarrow> tight (es @ [f, e])"
  by (induction es rule: tight.induct) auto

lemma keep_events_drop: "keep_events es = drop (length es - 50) es"
  by (simp add: keep_events_def)

lemma covered_drop:
  assumes "covered a es" "sorted (attempt_times es)" "tight es" "12 < length (drop k es)"
  shows "covered a (drop k es)"
proof -
  let ?old = "attempt_times (take k es)" and ?new = "attempt_times (drop k es)"
  have split: "attempt_times es = ?old @ ?new" by (metis append_take_drop_id attempt_times_simps(2))
  have many: "6 \<le> length ?new" using tight_attempts [OF tight_drop [OF assms(3), of k]] assms(4) by simp
  have later: "x \<le> y" if "x \<in> set ?old" "y \<in> set ?new" for x y
    using assms(2) that by (simp add: split sorted_append)
  show ?thesis
  proof (cases "\<exists>x \<in> set ?old. a \<le> x")
    case True
    then have "filter (\<lambda>x. a \<le> x) ?new = ?new" using later by (force intro!: filter_True)
    then show ?thesis using many by (simp add: covered_def)
  next
    case False
    then have "a \<notin> set ?old" "filter (\<lambda>x. a \<le> x) ?old = []" by (auto simp: filter_empty_conv)
    then show ?thesis using assms(1) by (simp add: covered_def split)
  qed
qed

lemma covered_append: "covered a es \<Longrightarrow> covered a (es @ fs)"
  by (auto simp: covered_def)

lemma history_keep:
  assumes "history A es l"
  shows "history A (keep_events es) l"
proof (cases "length es \<le> 50")
  case True
  then show ?thesis using assms by (simp add: keep_events_def)
next
  case False
  let ?k = "length es - 50"
  have "attempt_times es = attempt_times (take ?k es) @ attempt_times (drop ?k es)"
    by (metis append_take_drop_id attempt_times_simps(2))
  then have "set (attempt_times (drop ?k es)) \<subseteq> set (attempt_times es)" "sorted (attempt_times (drop ?k es))"
    using assms by (auto simp: history_def sorted_append)
  then show ?thesis
    using assms False covered_drop [of _ es ?k] tight_drop [of es ?k] by (auto simp: history_def keep_events_drop)
qed

lemma history_attempt:
  assumes "history A es l" "l \<le> t" "is_attempt e" "Ev_at e = t"
  shows "history (A @ [t]) (keep_events (es @ [e])) t" "\<exists>fs. keep_events (es @ [e]) = fs @ [e]"
proof -
  have "history (A @ [t]) (es @ [e]) t"
    using assms by (force simp: history_def sorted_append covered_append tight_attempt intro: covered_def [THEN iffD2])
  then show "history (A @ [t]) (keep_events (es @ [e])) t" by (rule history_keep)
  show "\<exists>fs. keep_events (es @ [e]) = fs @ [e]"
    by (auto simp: keep_events_drop)
qed

lemma history_other:
  assumes "history A (es @ [f]) l" "is_attempt f" "\<not> is_attempt e"
  shows "history A (keep_events (es @ [f, e])) l"
  using assms covered_append [of _ "es @ [f]" "[e]"] tight_other [of es f e]
  by (intro history_keep) (auto simp: history_def)

lemma history_fewer: "history (A @ B) es l \<Longrightarrow> history A es l"
  by (auto simp: history_def)

lemma filter_length_mono: "(\<And>x. P x \<Longrightarrow> Q x) \<Longrightarrow> length (filter P xs) \<le> length (filter Q xs)"
  by (induction xs) auto

lemma history_count:
  assumes "history A es l" "distinct A" "recent_actions t es < m" "m \<le> 6"
  shows "int (since Hour t A) < m"
proof -
  let ?recent = "\<lambda>x. t - x < Hour"
  have rec: "recent_actions t es = int (length (filter ?recent (attempt_times es)))"
    by (simp add: recent_actions_def go_time duration_units min_duration_def max_duration_def)
  have "a \<in> set (attempt_times es)" if "a \<in> set A" "?recent a" for a
  proof (rule ccontr)
    assume "a \<notin> set (attempt_times es)"
    then have "6 \<le> length (filter (\<lambda>x. a \<le> x) (attempt_times es))" using assms(1) that by (auto simp: history_def covered_def)
    also have "\<dots> \<le> length (filter ?recent (attempt_times es))"
      using that(2) by (intro filter_length_mono) auto
    finally show False using rec assms(3,4) by simp
  qed
  then have "set (filter ?recent A) \<subseteq> set (filter ?recent (attempt_times es))" by auto
  then have "card (set (filter ?recent A)) \<le> card (set (filter ?recent (attempt_times es)))" by (simp add: card_mono)
  also have "\<dots> \<le> length (filter ?recent (attempt_times es))" by (rule card_length)
  finally have "length (filter ?recent A) \<le> length (filter ?recent (attempt_times es))"
    using distinct_card [OF distinct_filter [OF assms(2)]] by metis
  then show ?thesis using rec assms(3) by (simp add: since_def)
qed

subsection \<open>Runs\<close>

inductive recovery_run :: "'w node_env \<Rightarrow> 'w control_env \<Rightarrow> Config \<Rightarrow> nat \<Rightarrow> int \<Rightarrow> 'w agent \<Rightarrow> gotime list \<Rightarrow> bool"
  for env net cfg m c where
  start: "recoveryEvents s = [] \<Longrightarrow> recoveryPolicy s = DefaultPolicy \<Longrightarrow> disk s (recoveryPath cfg) = None \<Longrightarrow>
    recovery_run env net cfg m c s []"
| tick: "recovery_run env net cfg m c s A \<Longrightarrow>
    recovery_run env net cfg m c (recoveryTick env net cfg s) (A @ (case tick_attempt env net cfg s of None \<Rightarrow> [] | Some t \<Rightarrow> [t]))"
| configure: "recovery_run env net cfg m c s A \<Longrightarrow>
    (\<And>p. dec_policy net raw = Inr p \<Longrightarrow> MaxActionsHour p \<le> int m \<and> c \<le> CooldownSeconds p) \<Longrightarrow>
    recovery_run env net cfg m c (snd (configureReliability env net cfg raw s)) A"
| restart: "recovery_run env net cfg m c s A \<Longrightarrow> loadRecovery env cfg (NewHandler s) = (None, s') \<Longrightarrow>
    recovery_run env net cfg m c s' A"
| elsewhere: "recovery_run env net cfg m c s A \<Longrightarrow> current_recovery s' = current_recovery s \<Longrightarrow>
    disk s' (recoveryPath cfg) = disk s (recoveryPath cfg) \<Longrightarrow> recovery_run env net cfg m c s' A"

definition policy_ok :: "'w node_env \<Rightarrow> nat \<Rightarrow> int \<Rightarrow> Policy \<Rightarrow> bool" where
  "policy_ok env m c p \<longleftrightarrow>
     (Recovery p \<noteq> ''restart'' \<and> \<not> AutomaticFailover p) \<or>
     (Policy_Validate (loopback_endpoint env) p = None \<and> MaxActionsHour p \<le> int m \<and> c \<le> CooldownSeconds p)"

definition state_ok :: "'w node_env \<Rightarrow> nat \<Rightarrow> int \<Rightarrow> gotime list \<Rightarrow> recoveryState \<Rightarrow> bool" where
  "state_ok env m c A r \<longleftrightarrow> history A (RS_events r) (RS_last r) \<and> policy_ok env m c (RS_policy r)"

definition file_ok :: "'w node_env \<Rightarrow> nat \<Rightarrow> int \<Rightarrow> gotime list \<Rightarrow> string option \<Rightarrow> bool" where
  "file_ok env m c A f \<longleftrightarrow>
     (case f of None \<Rightarrow> A = [] | Some b \<Rightarrow> (case dec_recovery env b of None \<Rightarrow> False | Some r \<Rightarrow> state_ok env m c A r))"

abbreviation both_ok :: "'w node_env \<Rightarrow> Config \<Rightarrow> nat \<Rightarrow> int \<Rightarrow> gotime list \<Rightarrow> 'w agent \<Rightarrow> bool" where
  "both_ok env cfg m c A s \<equiv>
     state_ok env m c A (current_recovery s) \<and> file_ok env m c A (disk s (recoveryPath cfg))"

text \<open>The attempts made so far keep the cooldown and the hourly budget.\<close>

definition spaced :: "nat \<Rightarrow> int \<Rightarrow> gotime list \<Rightarrow> bool" where
  "spaced m c A \<longleftrightarrow>
     sorted_wrt (\<lambda>a b. a < b \<and> a + c * Second \<le> b) A \<and> (\<forall>t. in_window Hour t A \<le> m)"

lemma current_recovery_eq:
  "current_recovery s' = current_recovery s \<longleftrightarrow> recoveryPolicy s' = recoveryPolicy s \<and> activeEgress s' = activeEgress s \<and>
     recoveryEvents s' = recoveryEvents s \<and> recoveryLast s' = recoveryLast s"
  by (simp add: current_recovery_def)

lemma current_recovery_sel [simp]:
  "RS_policy (current_recovery s) = recoveryPolicy s" "RS_active (current_recovery s) = activeEgress s"
  "RS_events (current_recovery s) = recoveryEvents s" "RS_last (current_recovery s) = recoveryLast s"
  by (simp_all add: current_recovery_def)

lemma state_ok_fewer: "state_ok env m c (A @ B) r \<Longrightarrow> state_ok env m c A r"
  by (auto simp: state_ok_def intro: history_fewer)

lemma only_world_both:
  "only_world s s' \<Longrightarrow> current_recovery s' = current_recovery s \<and> disk s' = disk s"
  by (simp add: current_recovery_eq only_worldD)

lemma save_current [simp]: "current_recovery (snd (saveRecoveryLocked env cfg s)) = current_recovery s"
  by (simp add: current_recovery_eq save_memory)

lemma save_file:
  assumes "json_ok env" "state_ok env m c A (current_recovery s)"
    and "file_ok env m c A (disk s (recoveryPath cfg)) \<or> fst (saveRecoveryLocked env cfg s) = None"
  shows "file_ok env m c A (disk (snd (saveRecoveryLocked env cfg s)) (recoveryPath cfg))"
  using assms by (cases rule: saveRecovery_cases [of env cfg s]) (auto simp: file_ok_def json_okD)

lemma save_both:
  assumes "json_ok env" "both_ok env cfg m c A s"
  shows "both_ok env cfg m c A (snd (saveRecoveryLocked env cfg s))"
  using assms by (simp add: save_file)

subsection \<open>The tick keeps the bounds\<close>

lemma Validate_bounds:
  assumes "Policy_Validate l p = None"
  shows "60 \<le> CooldownSeconds p" "CooldownSeconds p \<le> 86400" "1 \<le> MaxActionsHour p" "MaxActionsHour p \<le> 6"
  using assms by (auto simp: Policy_Validate_def split: if_splits)

lemma may_act_policy:
  assumes "may_act p now rb s" "policy_ok env m c p"
  shows "Policy_Validate (loopback_endpoint env) p = None" "MaxActionsHour p \<le> int m" "c \<le> CooldownSeconds p"
  using assms by (auto simp: may_act_def policy_ok_def)

lemma may_act_cooldown:
  assumes "may_act p now rb s" "Policy_Validate l p = None"
  shows "recoveryLast s + CooldownSeconds p * Second \<le> now"
  using assms Validate_bounds [OF assms(2)]
  by (auto simp: may_act_def time_Sub_def Second_def max_duration_def min_duration_def max_def min_def split: if_splits)

lemma spaced_attempt:
  assumes sp: "spaced m c A" and st: "state_ok env m c A (current_recovery s)" and may: "may_act (recoveryPolicy s) now rb s"
  shows "spaced m c (A @ [now])"
proof -
  let ?p = "recoveryPolicy s"
  have ok: "policy_ok env m c ?p" and hist: "history A (recoveryEvents s) (recoveryLast s)" using st by (auto simp: state_ok_def)
  note pol = may_act_policy [OF may ok]
  note bounds = Validate_bounds [OF pol(1)] may_act_cooldown [OF may pol(1)]
  have past: "a \<le> recoveryLast s" if "a \<in> set A" for a using hist that by (auto simp: history_def)
  have step: "a < now \<and> a + c * Second \<le> now" if "a \<in> set A" for a
    using past [OF that] bounds pol(3) by (auto simp: Second_def)
  have "distinct A" using sp by (auto simp: spaced_def sorted_wrt_iff_nth_less distinct_conv_nth neq_iff)
  then have few: "int (since Hour now A) < MaxActionsHour ?p"
    using history_count [OF hist] bounds(4) may by (auto simp: may_act_def)
  have "in_window Hour t (A @ [now]) \<le> m" for t
  proof (cases "now \<le> t")
    case True
    have "in_window Hour t (A @ [now]) \<le> Suc (in_window Hour t A)" by (simp add: in_window_def)
    also have "\<dots> \<le> Suc (since Hour now A)" using in_window_recent [OF _ True] step by (simp add: less_imp_le)
    finally show ?thesis using few pol(2) by linarith
  next
    case False
    then show ?thesis using sp by (simp add: in_window_def spaced_def)
  qed
  then show ?thesis using sp step by (simp add: spaced_def sorted_wrt_append)
qed

lemma recorded_attempt:
  assumes st: "state_ok env m c A (current_recovery s)" and may: "may_act (recoveryPolicy s) now rb s"
  shows "state_ok env m c (A @ [now]) (current_recovery (record_attempt_event now s))"
    "\<exists>fs f. recoveryEvents (record_attempt_event now s) = fs @ [f] \<and> is_attempt f"
proof -
  let ?e = "\<lparr>Ev_at = now, Ev_action = ''attempt'', Ev_result = ''confirmed repeated failure''\<rparr>"
  have ok: "policy_ok env m c (recoveryPolicy s)" and hist: "history A (recoveryEvents s) (recoveryLast s)"
    using st by (auto simp: state_ok_def)
  note pol = may_act_policy [OF may ok]
  have "recoveryLast s \<le> now" using may_act_cooldown [OF may pol(1)] Validate_bounds [OF pol(1)] by (simp add: Second_def)
  note * = history_attempt [OF hist this, of ?e]
  show "state_ok env m c (A @ [now]) (current_recovery (record_attempt_event now s))"
    using *(1) ok by (simp add: state_ok_def record_attempt_event_def)
  show "\<exists>fs f. recoveryEvents (record_attempt_event now s) = fs @ [f] \<and> is_attempt f"
    using *(2) by (auto simp: record_attempt_event_def)
qed

text \<open>A tick either leaves the recovery state alone or records and saves one attempt.\<close>

lemma tick_plan_cases:
  assumes plan: "tick_plan env net cfg (recoveryPolicy s) s = (plan, s')"
  obtains "plan = None" "current_recovery s' = current_recovery s" "disk s' = disk s"
    | t bad rb now where "current_recovery t = current_recovery s" "disk t = disk s" "may_act (recoveryPolicy s) now rb t"
        "plan = (if fst (saveRecoveryLocked env cfg (record_attempt_event now t)) = None then Some (bad, rb) else None)"
        "s' = snd (saveRecoveryLocked env cfg (record_attempt_event now t))"
proof -
  let ?p = "recoveryPolicy s"
  obtain seen s1 where 1: "observe env net cfg ?p s = (seen, s1)" by fastforce
  have same: "current_recovery s1 = current_recovery s" "disk s1 = disk s"
    using only_world_both [OF only_world_observe [OF only_world_refl, of s env net cfg ?p]] 1 by simp_all
  let ?s2 = "s1\<lparr>recoveryFailures := recoveryFailures s1 + 1\<rparr>"
  have counted: "current_recovery ?s2 = current_recovery s" "current_recovery (s1\<lparr>recoveryFailures := 0\<rparr>) = current_recovery s"
    using same by (simp_all add: current_recovery_eq)
  define now where "now = clock env (world ?s2)"
  show ?thesis
  proof (cases seen)
    case None
    then show ?thesis using that(1) plan 1 same by (simp add: tick_plan_def)
  next
    case (Some v)
    then obtain bad rb where v: "seen = Some (bad, rb)" by (cases v) simp
    consider "\<not> bad \<and> \<not> rb" | "bad \<or> rb" "\<not> may_act ?p now rb ?s2" | "bad \<or> rb" "may_act ?p now rb ?s2" by blast
    then show ?thesis
    proof cases
      case 1
      then have "tick_plan env net cfg ?p s = (None, s1\<lparr>recoveryFailures := 0\<rparr>)"
        using \<open>observe env net cfg ?p s = (seen, s1)\<close> v by (simp add: tick_plan_def)
      then show ?thesis using that(1) plan counted same by auto
    next
      case 2
      then have "tick_plan env net cfg ?p s = (None, ?s2)" using 1 v unfolding tick_plan_def Let_def now_def by auto
      then show ?thesis using that(1) plan counted same by simp
    next
      case 3
      then have "tick_plan env net cfg ?p s =
          (let (e, s3) = saveRecoveryLocked env cfg (record_attempt_event now ?s2) in (if e = None then Some (bad, rb) else None, s3))"
        using 1 v unfolding tick_plan_def Let_def now_def by auto
      then show ?thesis using that(2) [of ?s2 now rb bad] plan counted same 3 by (simp add: Let_def split_beta)
    qed
  qed
qed

lemma tick_plan_ok:
  assumes json: "json_ok env" and ok: "both_ok env cfg m c A s" "spaced m c A"
    and plan: "tick_plan env net cfg (recoveryPolicy s) s = (plan, s')"
  shows "case plan of
      None \<Rightarrow> both_ok env cfg m c A s'
    | Some _ \<Rightarrow> both_ok env cfg m c (A @ [recoveryLast s']) s' \<and> spaced m c (A @ [recoveryLast s']) \<and>
        (\<exists>fs f. recoveryEvents s' = fs @ [f] \<and> is_attempt f)"
proof (cases rule: tick_plan_cases [OF plan])
  case 1
  then show ?thesis using ok by simp
next
  case (2 t bad rb now)
  let ?r = "record_attempt_event now t"
  have p2: "recoveryPolicy t = recoveryPolicy s" using 2(1) by (simp add: current_recovery_eq)
  have st: "state_ok env m c A (current_recovery t)" using ok(1) 2(1) by simp
  have may: "may_act (recoveryPolicy t) now rb t" using 2(3) p2 by simp
  have saved: "file_ok env m c A (disk ?r (recoveryPath cfg))" using ok(1) 2(2) by (simp add: record_attempt_event_def)
  note rec = recorded_attempt [OF st may]
  have last: "recoveryLast s' = now" "recoveryEvents s' = recoveryEvents ?r"
    by (simp_all add: 2(5) save_memory record_attempt_event_def)
  show ?thesis
  proof (cases plan)
    case None
    then show ?thesis using save_both [OF json, where A = A] state_ok_fewer [OF rec(1)] saved by (simp add: 2(5))
  next
    case (Some q)
    then have "fst (saveRecoveryLocked env cfg ?r) = None" using 2(4) by (auto split: if_splits)
    then have "file_ok env m c (A @ [now]) (disk s' (recoveryPath cfg))"
      unfolding 2(5) using save_file [OF json rec(1)] by blast
    moreover have "state_ok env m c (A @ [now]) (current_recovery s')" using rec(1) by (simp add: 2(5))
    moreover have "spaced m c (A @ [now])" by (rule spaced_attempt [OF ok(2) st may])
    ultimately show ?thesis using Some last rec(2) by simp
  qed
qed

lemma result_ok:
  assumes "json_ok env" "both_ok env cfg m c A s" "recoveryEvents s = fs @ [f]" "is_attempt f"
  shows "both_ok env cfg m c A (tick_result env cfg e s)"
proof -
  define ev where "ev = \<lparr>Ev_at = clock env (world s), Ev_action = ''result'', Ev_result = (case e of None \<Rightarrow> ''recovered'' | Some x \<Rightarrow> ''failed: '' @ x)\<rparr>"
  let ?s = "s\<lparr>recoveryEvents := keep_events (fs @ [f, ev])\<rparr>"
  have "both_ok env cfg m c A ?s"
    using assms history_other [of A fs f "recoveryLast s" ev] by (simp add: state_ok_def ev_def)
  from save_both [OF assms(1) this] show ?thesis
    using assms(3) by (simp add: tick_result_def recoveryEvent_def ev_def)
qed

lemma both_ok_active: "both_ok env cfg m c A (s\<lparr>activeEgress := a\<rparr>) = both_ok env cfg m c A s"
  by (simp add: state_ok_def)

lemma tick_act_ok:
  assumes json: "json_ok env" and ok: "both_ok env cfg m c A s" and ev: "recoveryEvents s = fs @ [f]" "is_attempt f"
  shows "both_ok env cfg m c A (tick_act env net cfg p active bad rb s)"
proof -
  have same: "both_ok env cfg m c A s'" "recoveryEvents s' = fs @ [f]" if "only_world s s'" for s'
    using only_world_both [OF that] ok ev only_worldD(7) [OF that] by simp_all
  obtain e1 s1 where 1: "applyEgress env net cfg (ReserveSOCKSAddress p) s = (e1, s1)" by fastforce
  obtain e2 s2 where 2: "restartTelemt env cfg s = (e2, s2)" by fastforce
  have w: "only_world s s1" "only_world s s2"
    using only_world_egress [OF only_world_refl, of s env net cfg "ReserveSOCKSAddress p"]
      only_world_restart [OF only_world_refl, of s env cfg] 1 2 by simp_all
  have "both_ok env cfg m c A (tick_result env cfg e1 (if e1 = None then s1\<lparr>activeEgress := a\<rparr> else s1))" for a
    using result_ok [OF json _ _ ev(2), where s = "s1\<lparr>activeEgress := a\<rparr>" and fs = fs] result_ok [OF json _ _ ev(2), where s = s1 and fs = fs]
      same [OF w(1)] both_ok_active [where s = s1 and a = a] by simp
  moreover have "both_ok env cfg m c A (tick_result env cfg e2 s2)"
    using result_ok [OF json same(1) same(2) ev(2)] w(2) by blast
  ultimately show ?thesis using ok by (simp add: tick_act_def 1 2)
qed

lemma current_recovery_maintenance [simp]: "current_recovery (s\<lparr>maintenance := b\<rparr>) = current_recovery s"
  by (simp add: current_recovery_eq)

lemma tick_ok:
  fixes net :: "'w control_env"
  assumes json: "json_ok env" and ok: "both_ok env cfg m c A s" "spaced m c A"
  defines "B \<equiv> A @ (case tick_attempt env net cfg s of None \<Rightarrow> [] | Some t \<Rightarrow> [t])"
  shows "both_ok env cfg m c B (recoveryTick env net cfg s)" "spaced m c B"
proof -
  let ?s = "s\<lparr>maintenance := True\<rparr>"
  obtain plan s1 where plan: "tick_plan env net cfg (recoveryPolicy ?s) ?s = (plan, s1)" by fastforce
  note * = tick_plan_ok [OF json _ ok(2) plan]
  show "both_ok env cfg m c B (recoveryTick env net cfg s)"
  proof (cases "Engine cfg \<noteq> ''telemt'' \<or> maintenance s")
    case True
    then show ?thesis using ok by (simp add: B_def tick_attempt_def recoveryTick_def)
  next
    case False
    show ?thesis
    proof (cases plan)
      case None
      then show ?thesis using False * plan ok by (simp add: B_def tick_attempt_def recoveryTick_def)
    next
      case (Some v)
      then obtain bad rb fs f where "v = (bad, rb)" "recoveryEvents s1 = fs @ [f]" "is_attempt f"
        "both_ok env cfg m c (A @ [recoveryLast s1]) s1"
        using * ok by (cases v) auto
      from tick_act_ok [OF json this(4,2,3)] show ?thesis
        using False plan Some \<open>v = (bad, rb)\<close> by (simp add: B_def tick_attempt_def recoveryTick_def)
    qed
  qed
  show "spaced m c B"
    using * plan ok by (auto simp: B_def tick_attempt_def split: option.splits)
qed

subsection \<open>Policy changes and restarts\<close>

lemma install_ok:
  assumes json: "json_ok env" and ok: "both_ok env cfg m c A s" and p: "policy_ok env m c p"
  shows "both_ok env cfg m c A (snd (install_policy env net cfg p ch a up s))"
proof -
  define t where "t = s\<lparr>recoveryPolicy := p,
    activeEgress := (if ch \<or> Egress p = ''unmanaged'' then desired_route p else activeEgress s)\<rparr>"
  obtain e s1 where 1: "saveRecoveryLocked env cfg t = (e, s1)" by fastforce
  have "both_ok env cfg m c A t" using ok p by (simp add: t_def state_ok_def)
  from save_both [OF json this] have saved: "both_ok env cfg m c A s1" by (simp add: 1)
  have kept: "recoveryEvents s1 = recoveryEvents s" "recoveryLast s1 = recoveryLast s"
    using save_memory(5,6) [of env cfg t] unfolding 1 by (simp_all add: t_def)
  define u where "u = s1\<lparr>recoveryPolicy := recoveryPolicy s, activeEgress := a\<rparr>"
  have undone: "both_ok env cfg m c A u" using saved ok kept by (simp add: u_def state_ok_def)
  have "both_ok env cfg m c A (snd (patch_and_restart env net cfg up u))"
    using only_world_both [OF only_world_patch [OF only_world_refl, of u env net cfg up]] undone by simp
  then show ?thesis using saved undone
    by (auto simp: install_policy_def Let_def split_beta 1 t_def [symmetric] u_def [symmetric] split: option.splits)
qed

lemma Policy_Validate_restore: "Policy_Validate l (p\<lparr>RestorePrimary := b\<rparr>) = Policy_Validate l p"
  by (cases p) (simp only: Policy_Validate_def Policy.select_convs Policy.update_convs)

lemma accept_ok:
  assumes "json_ok env" "both_ok env cfg m c A s" "policy_ok env m c p"
  shows "both_ok env cfg m c A (snd (accept_policy env net cfg p s))"
proof -
  let ?p = "p\<lparr>RestorePrimary := False\<rparr>" and ?ch = "changes_route (p\<lparr>RestorePrimary := False\<rparr>) (recoveryPolicy s) (activeEgress s) (RestorePrimary p)"
  obtain r s1 where 1: "switch_route env net cfg ?p ?ch s = (r, s1)" by fastforce
  have "both_ok env cfg m c A s1"
    using only_world_both [OF only_world_switch [OF only_world_refl, of s env net cfg ?p ?ch]] 1 assms(2) by simp
  moreover have "policy_ok env m c ?p" using assms(3) by (simp add: policy_ok_def Policy_Validate_restore)
  ultimately show ?thesis
    using install_ok [OF assms(1)] assms(2) by (auto simp: accept_policy_def Let_def 1 split: sum.splits)
qed

lemma configure_ok:
  assumes json: "json_ok env" and ok: "both_ok env cfg m c A s"
    and p: "\<And>p. dec_policy net raw = Inr p \<Longrightarrow> MaxActionsHour p \<le> int m \<and> c \<le> CooldownSeconds p"
  shows "both_ok env cfg m c A (snd (configureReliability env net cfg raw s))"
proof -
  let ?s = "s\<lparr>maintenance := True\<rparr>"
  obtain e s1 where 1: "checkUpdateJournal env cfg ?s = (e, s1)" by fastforce
  have s1: "both_ok env cfg m c A s1"
    using only_world_both [OF only_world_check [OF only_world_refl, of ?s env cfg]] 1 ok by simp
  have "both_ok env cfg m c A (snd (configure_policy env net cfg raw ?s))"
  proof (cases "\<exists>p. e = None \<and> Engine cfg = ''telemt'' \<and> dec_policy net raw = Inr p \<and> Policy_Validate (loopback_endpoint env) p = None")
    case True
    then obtain p where p': "e = None" "Engine cfg = ''telemt''" "dec_policy net raw = Inr p" "Policy_Validate (loopback_endpoint env) p = None"
      by blast
    with p have "policy_ok env m c p" by (simp add: policy_ok_def)
    from accept_ok [OF json s1 this] show ?thesis using p' by (simp add: configure_policy_def 1)
  next
    case False
    then have "snd (configure_policy env net cfg raw ?s) = s1"
      by (auto simp: configure_policy_def 1 split: option.splits sum.splits)
    then show ?thesis using s1 by simp
  qed
  then show ?thesis using ok by (auto simp: configureReliability_def Let_def split_beta split: option.splits)
qed

lemma load_ok:
  assumes ok: "both_ok env cfg m c A s" and load: "loadRecovery env cfg (NewHandler s) = (None, s')"
  shows "both_ok env cfg m c A s'"
proof -
  let ?n = "NewHandler s"
  obtain r s1 where 1: "ReadFile env (recoveryPath cfg) ?n = (r, s1)" by fastforce
  have w: "only_world ?n s1" using only_world_ReadFile [OF only_world_refl, of ?n env "recoveryPath cfg"] 1 by simp
  have d: "disk s1 = disk s" using only_worldD [OF w] by (simp add: NewHandler_def)
  show ?thesis
  proof (cases r)
    case Missing
    then have "disk s (recoveryPath cfg) = None" "s' = s1"
      using ReadFile_Missing [of env "recoveryPath cfg" ?n] load 1 by (simp_all add: loadRecovery_def NewHandler_def)
    then show ?thesis using ok only_worldD [OF w]
      by (simp add: file_ok_def state_ok_def history_def policy_ok_def NewHandler_def DefaultPolicy_def)
  next
    case (ReadError x)
    then show ?thesis using load 1 by (simp add: loadRecovery_def)
  next
    case (Contents b)
    then have b: "disk s (recoveryPath cfg) = Some b"
      using ReadFile_Contents [of env "recoveryPath cfg" ?n] 1 by (simp add: NewHandler_def)
    obtain st where st: "dec_recovery env b = Some st" "state_ok env m c A st" using ok b by (auto simp: file_ok_def split: option.splits)
    then have "s' = s1\<lparr>recoveryPolicy := RS_policy st, activeEgress := RS_active st, recoveryEvents := RS_events st, recoveryLast := RS_last st\<rparr>"
      using load 1 Contents by (simp add: loadRecovery_def split: option.splits)
    then show ?thesis using ok st d by (simp add: state_ok_def)
  qed
qed

lemma run_ok:
  assumes "json_ok env" "recovery_run env net cfg m c s A"
  shows "both_ok env cfg m c A s \<and> spaced m c A"
  using assms(2)
proof induction
  case (start s)
  then show ?case
    by (simp add: state_ok_def history_def policy_ok_def DefaultPolicy_def file_ok_def spaced_def in_window_def)
next
  case (tick s A)
  then show ?case using tick_ok [OF assms(1)] by blast
next
  case (configure s A raw)
  then show ?case using configure_ok [OF assms(1)] by blast
next
  case (restart s A s')
  then show ?case using load_ok by blast
next
  case (elsewhere s A s')
  then show ?case by simp
qed

end
