(* ===== verification/Agent_Recovery_Properties.thy ===== *)
theory Agent_Recovery_Properties
  imports Agent_Recovery_Safety Agent_Sample
begin

text \<open>
  The properties of automatic recovery on a node, over the invariant of \<open>Agent_Recovery_Safety\<close>,
  with a sample node whose control API does not answer.
\<close>

subsection \<open>A node whose control API is down\<close>

definition restart_policy :: Policy where
  "restart_policy = DefaultPolicy\<lparr>Recovery := ''restart'', FailureThreshold := 2\<rparr>"

definition failover_policy :: Policy where
  "failover_policy = DefaultPolicy\<lparr>FailureThreshold := 2, Egress := ''direct'', ReserveSOCKSAddress := ''127.0.0.1:1080'',
     AutomaticFailover := True\<rparr>"

definition silent_node :: "sample_world node_env" where
  "silent_node = sample_node\<lparr>api_Ready := (\<lambda>w. (Inl (''connection refused'', None), w))\<rparr>"

definition sample_control :: "sample_world control_env" where
  "sample_control =
     \<lparr>sys_is_active = (\<lambda>_ w. (Inr ''active'', w)), ctx_Err = (\<lambda>w. (None, w)),
      api_UpstreamsStats = (\<lambda>w. (Inr \<lparr>US_enabled = True, US_upstreams = [\<lparr>Up_healthy = False, Up_last_check_age = 5\<rparr>]\<rparr>, w)),
      api_GetConfig = (\<lambda>w. (Inr fmempty, w)),
      api_PatchConfig = (\<lambda>_ _ w. (Inr \<lparr>PC_restart_required = False, PC_process_restart_required = False,
         PC_runtime_reload_required = False, PC_deferred = []\<rparr>, w)),
      socks5_dialer = (\<lambda>_. None), net_dial = (\<lambda>_ _ w. (None, w)),
      dec_policy = (\<lambda>raw. Inr (if raw = ''restart'' then restart_policy else failover_policy))\<rparr>"

definition quiet_config :: Config where
  "quiet_config = sample_config\<lparr>health_polls := 0\<rparr>"

definition fresh_agent :: "sample_world agent" where
  "fresh_agent = NewHandler sample_agent"

lemma silent_json: "json_ok silent_node"
  using sample_json by (simp add: json_ok_def silent_node_def)

text \<open>The agent of that node after \<open>n\<close> failed observations, before the first attempt.\<close>

definition sick :: "int \<Rightarrow> sample_world agent \<Rightarrow> bool" where
  "sick n s \<longleftrightarrow> recoveryPolicy s = restart_policy \<and> recoveryEvents s = [] \<and> recoveryLast s = zero_time \<and> \<not> maintenance s \<and>
     disk s (updateJournalPath quiet_config) = None \<and> snd (world s) \<and> recoveryFailures s = n"

lemmas env_eval = silent_node_def sample_node_def sample_control_def quiet_config_def sample_config_def restart_policy_def DefaultPolicy_def
  outside_def Let_def updateJournalPath_def recoveryPath_def Join_def

lemmas configure_eval = configureReliability_def configure_policy_def accept_policy_def install_policy_def switch_route_def checkUpdateJournal_def
  ReadFile_def Policy_Validate_def changes_route_def desired_route_def saveRecoveryLocked_def writeAtomic_def set_disk_def
  fresh_agent_def sample_agent_def sample_disk_def NewHandler_def

lemma sick_start: "sick 0 (snd (configureReliability silent_node sample_control quiet_config ''restart'' fresh_agent))"
  by (simp add: sick_def env_eval configure_eval)

lemma trim_active: "TrimSpace ''active'' = ''active''"
  by code_simp

lemma sick_observe:
  assumes "sick n s"
  shows "observe silent_node sample_control quiet_config restart_policy (s\<lparr>maintenance := True\<rparr>) = (Some (True, False), s\<lparr>maintenance := True\<rparr>)"
  using assms by (simp add: sick_def observe_def env_eval checkUpdateJournal_def ReadFile_def unitActive_def trim_active
      operator_paused_def sample_lifecycle_def bad_service_def)

lemma sick_zero: "\<not> time_Sub 0 zero_time < 300 * Second"
  by (simp add: time_Sub_def zero_time_def Second_def max_duration_def min_duration_def)

lemma sick_first:
  assumes "sick 0 s"
  shows "sick 1 (recoveryTick silent_node sample_control quiet_config s)" "tick_attempt silent_node sample_control quiet_config s = None"
  using assms sick_observe [OF assms] 
  by (simp_all add: sick_def recoveryTick_def tick_attempt_def tick_plan_def may_act_def restart_policy_def DefaultPolicy_def quiet_config_def sample_config_def)

lemma sick_second:
  assumes "sick 1 s"
  shows "tick_attempt silent_node sample_control quiet_config s = Some 0"
  using assms sick_observe [OF assms] sick_zero
  by (simp add: sick_def tick_attempt_def tick_plan_def may_act_def record_attempt_event_def recent_actions_def saveRecoveryLocked_def writeAtomic_def set_disk_def env_eval)

text \<open>A node on its reserve route, which does not reach Telegram either.\<close>

definition stuck_agent :: "sample_world agent" where
  "stuck_agent = fresh_agent\<lparr>recoveryPolicy := failover_policy, activeEgress := ''127.0.0.1:1080'', recoveryFailures := 1\<rparr>"

lemma stuck_observe:
  "observe sample_node sample_control quiet_config failover_policy (stuck_agent\<lparr>maintenance := True\<rparr>) =
     (Some (False, True), stuck_agent\<lparr>maintenance := True\<rparr>)"
  by (simp add: observe_def env_eval stuck_agent_def failover_policy_def checkUpdateJournal_def ReadFile_def unitActive_def trim_active
      operator_paused_def sample_lifecycle_def bad_service_def route_bad_def fresh_agent_def NewHandler_def sample_agent_def sample_disk_def)

lemma stuck_attempt: "tick_attempt sample_node sample_control quiet_config stuck_agent = Some 0"
  using stuck_observe sick_zero
  by (simp add: tick_attempt_def tick_plan_def may_act_def record_attempt_event_def recent_actions_def saveRecoveryLocked_def
      writeAtomic_def set_disk_def env_eval stuck_agent_def failover_policy_def fresh_agent_def NewHandler_def sample_agent_def)

subsection \<open>Properties\<close>



text \<open> C31: an attempt may be spent on nothing. When the route is bad, the service is not, and the
  reserve route is already the active one, \<^verbatim>\<open>recoveryTick\<close> records and saves an attempt and then
  does nothing, not even a result event: its \<^verbatim>\<open>switch\<close> has no case for it. Until the cooldown
  has passed no tick acts, whatever it finds, also when Telemt itself has stopped answering. \<close>

theorem idle_attempt_spends_budget:
  fixes env :: "'w node_env"
  assumes "observe env net cfg (recoveryPolicy s) (s\<lparr>maintenance := True\<rparr>) = (Some (False, True), s1)"
    and "activeEgress s = ReserveSOCKSAddress (recoveryPolicy s)" and "tick_attempt env net cfg s = Some t"
    and "0 < CooldownSeconds (recoveryPolicy s)"
  shows "recoveryTick env net cfg s = (snd (tick_plan env net cfg (recoveryPolicy s) (s\<lparr>maintenance := True\<rparr>)))\<lparr>maintenance := False\<rparr> \<and>
    (\<forall>(u :: 'w agent) env' net'. current_recovery u = current_recovery (recoveryTick env net cfg s) \<and>
       (\<forall>w. clock env' w < t + CooldownSeconds (recoveryPolicy s) * Second) \<longrightarrow> tick_attempt env' net' cfg u = None)"
proof -
  let ?p = "recoveryPolicy s" and ?s = "s\<lparr>maintenance := True\<rparr>"
  obtain plan s2 where plan: "tick_plan env net cfg ?p ?s = (plan, s2)" by fastforce
  have some: "plan \<noteq> None" "t = recoveryLast s2" "\<not> (Engine cfg \<noteq> ''telemt'' \<or> maintenance s)"
    using assms(3) plan by (auto simp: tick_attempt_def split: if_splits)
  then have p2: "plan = Some (False, True)" using plan assms(1) by (auto simp: tick_plan_def Let_def split_beta split: if_splits)
  have idle: "recoveryTick env net cfg s = s2\<lparr>maintenance := False\<rparr>"
    using some(3) plan p2 assms(2) by (simp add: recoveryTick_def tick_act_def)
  have pol: "recoveryPolicy s2 = ?p"
    by (cases rule: tick_plan_cases [of env net cfg ?s plan s2]) (use plan in \<open>auto simp: current_recovery_eq save_memory record_attempt_event_def\<close>)
  have none: "tick_attempt env' net' cfg u = None"
    if u: "current_recovery u = current_recovery s2" and c: "\<forall>w. clock env' w < t + CooldownSeconds ?p * Second" for u :: "'w agent" and env' net'
  proof -
    have now: "time_Sub (clock env' w) t < CooldownSeconds ?p * Second" for w
      using c [rule_format, of w] assms(4) by (auto simp: time_Sub_def Second_def max_duration_def min_duration_def)
    have "\<not> may_act ?p (clock env' w) rb v" if "recoveryLast v = t" for w rb and v :: "'w agent"
      using now that by (simp add: may_act_def)
    moreover have "recoveryPolicy u = ?p" "recoveryLast u = t" using u pol some(2) by (auto simp: current_recovery_eq)
    moreover have "recoveryLast (snd (observe env' net' cfg ?p (u\<lparr>maintenance := True\<rparr>))) = recoveryLast u"
      by (simp add: only_worldD(8) [OF only_world_observe [OF only_world_refl]])
    ultimately show ?thesis
      by (auto simp: tick_attempt_def tick_plan_def Let_def split_beta split: option.splits if_splits)
  qed
  show ?thesis using idle none plan by simp
qed

theorem idle_attempt_spends_budget_witness:
  "tick_attempt sample_node sample_control quiet_config stuck_agent = Some 0 \<and>
   tick_attempt silent_node sample_control quiet_config (recoveryTick sample_node sample_control quiet_config stuck_agent) = None"
proof -
  have "recoveryPolicy stuck_agent = failover_policy" "activeEgress stuck_agent = ReserveSOCKSAddress failover_policy"
    "0 < CooldownSeconds failover_policy" "\<forall>w. clock silent_node w < 0 + CooldownSeconds failover_policy * Second"
    by (simp_all add: stuck_agent_def failover_policy_def DefaultPolicy_def silent_node_def sample_node_def Second_def)
  then show ?thesis
    using idle_attempt_spends_budget [of sample_node sample_control quiet_config stuck_agent _ 0] stuck_observe stuck_attempt by auto
qed

subsection \<open>A journal without a version\<close>

text \<open>
  The version a node runs may be empty when its update starts. \<^verbatim>\<open>rollbackTelemt\<close> then leaves out
  the version check; the recovery of an interrupted update does not, and no answer of Telemt passes
  it.
\<close>

lemma journal_without_version_never_recovers:
  assumes "normalizeVersion (J_version j) = []"
  shows "fst (recover_active env cfg j s) \<noteq> None"
proof -
  have "\<not> sameVersion v (J_version j)" for v using assms by (auto simp: sameVersion_def EqualFold_def Let_def)
  then have "fst (verifyTelemtVersion env (J_version j) t) \<noteq> None" for t
    by (auto simp: verifyTelemtVersion_def Let_def split_beta split: sum.splits)
  then show ?thesis by (auto simp: recover_active_def Let_def split_beta simp del: not_None_eq split: option.splits)
qed

end
