(* ===== verification/Agent_Steps.thy ===== *)
theory Agent_Steps
  imports Agent_Disk
begin

text \<open>
  Steps that change a state and may fail, as the agent's longer functions are built from them: a
  failure carries its text and the state reached so far.
\<close>

type_synonym ('a, 's) step = "'s \<Rightarrow> (string + 'a) \<times> 's"

definition bindE :: "('a, 's) step \<Rightarrow> ('a \<Rightarrow> ('b, 's) step) \<Rightarrow> ('b, 's) step" where
  "bindE m f s = (case m s of (Inl e, s1) \<Rightarrow> (Inl e, s1) | (Inr x, s1) \<Rightarrow> f x s1)"

definition returnE :: "'a \<Rightarrow> ('a, 's) step" where
  "returnE x s = (Inr x, s)"

definition failE :: "string \<Rightarrow> ('a, 's) step" where
  "failE e s = (Inl e, s)"

definition wrapE :: "string \<Rightarrow> ('a, 's) step \<Rightarrow> ('a, 's) step" where
  "wrapE pre m s = (case m s of (Inl e, s1) \<Rightarrow> (Inl (pre @ e), s1) | (Inr x, s1) \<Rightarrow> (Inr x, s1))"

definition modifyE :: "('s \<Rightarrow> 's) \<Rightarrow> (unit, 's) step" where
  "modifyE f s = (Inr (), f s)"

definition guardE :: "failure \<Rightarrow> (unit, 's) step" where
  "guardE e = (case e of None \<Rightarrow> returnE () | Some x \<Rightarrow> failE x)"

definition whenE :: "bool \<Rightarrow> (unit, 's) step \<Rightarrow> (unit, 's) step" where
  "whenE b m = (if b then m else returnE ())"

subsection \<open>What a step gave\<close>

lemma bindE_Inr:
  assumes "bindE m f s = (Inr y, s')"
  obtains x s1 where "m s = (Inr x, s1)" "f x s1 = (Inr y, s')"
  using assms by (auto simp: bindE_def split: prod.splits sum.splits)

lemma bindE_cases:
  assumes "bindE m f s = (r, s')"
  obtains e where "m s = (Inl e, s')" "r = Inl e"
    | x s1 where "m s = (Inr x, s1)" "f x s1 = (r, s')"
  using assms by (auto simp: bindE_def split: prod.splits sum.splits)

lemma step_results [simp]:
  "returnE x s = (r, s') \<longleftrightarrow> r = Inr x \<and> s' = s" "failE e s = (r, s') \<longleftrightarrow> r = Inl e \<and> s' = s"
  "modifyE g s = (u, s') \<longleftrightarrow> u = Inr () \<and> s' = g s"
  by (auto simp: returnE_def failE_def modifyE_def)

lemma wrapE_Inr [simp]: "wrapE pre m s = (Inr x, s') \<longleftrightarrow> m s = (Inr x, s')"
  by (auto simp: wrapE_def split: prod.splits sum.splits)

lemma wrapE_snd: "wrapE pre m s = (r, s') \<Longrightarrow> \<exists>r'. m s = (r', s') \<and> (r' = Inr x \<longleftrightarrow> r = Inr x)"
  by (auto simp: wrapE_def split: prod.splits sum.splits)

lemma guardE_Inr [simp]: "guardE e s = (Inr u, s') \<longleftrightarrow> e = None \<and> s' = s"
  by (auto simp: guardE_def split: option.splits)

lemma whenE_result: "whenE b m s = (r, s') \<longleftrightarrow> (if b then m s = (r, s') else r = Inr () \<and> s' = s)"
  by (simp add: whenE_def)

end
