(* ===== verification/Agent_Users.thy ===== *)
theory Agent_Users
  imports Agent_Recovery Agent_Steps Web_Policy Domain_Types "HOL-Library.AList"
begin

text \<open>
  Applying keys to Telemt on a node: the users half of \<^verbatim>\<open>internal/agent/telemt.go\<close>. The desired
  profiles are validated, compared with what Telemt reports and with the fingerprints the agent
  recorded at the last apply, and the users are created, changed and deleted one call at a time.

  The users calls of the control API, SHA-256 of a text and the JSON texts of the two records that
  are hashed or stored are the operations of \<open>users_env\<close>. \<open>applying\<close> is the state of one apply: the
  agent, what a rollback would need, and, for the statements only, the quota resets made so far.
  Lines of the apply log are left out.
\<close>

subsection \<open>The policy of a user\<close>

record telemtPolicy =
  DataQuotaBytes :: nat
  RateLimitUpBps :: nat
  RateLimitDownBps :: nat
  MaxUniqueIPs :: nat
  MaxTCPConns :: nat
  Expiration :: string
  PEnabled :: bool
  PAdTag :: string

record Profile_Limits =
  PL_MaxSessions :: int
  PL_MaxStreams :: int
  PL_MaxStreamsPerSession :: int

record ProtoProfile =
  P_Name :: string
  P_Secret :: string
  P_Limits :: "Profile_Limits option"
  P_DataQuotaBytes :: nat
  P_RateLimitUpBps :: nat
  P_RateLimitDownBps :: nat
  P_MaxUniqueIps :: nat
  P_MaxTcpConns :: nat
  P_ExpiresAtUnix :: int
  P_Enabled :: bool
  P_QuotaResetUnix :: int

record CreateUserRequest =
  CU_Username :: string
  CU_Secret :: string
  CU_MaxTCPConns :: "nat option"
  CU_Expiration :: "string option"
  CU_DataQuotaBytes :: "nat option"
  CU_RateLimitUpBps :: "nat option"
  CU_RateLimitDownBps :: "nat option"
  CU_MaxUniqueIPs :: "nat option"
  CU_Enabled :: "bool option"
  CU_UserAdTag :: "string option"

record PatchUserRequest =
  PU_Secret :: "string option"
  PU_MaxTCPConns :: "nat option"
  PU_Expiration :: "string option"
  PU_DataQuotaBytes :: "nat option"
  PU_RateLimitUpBps :: "nat option"
  PU_RateLimitDownBps :: "nat option"
  PU_MaxUniqueIPs :: "nat option"
  PU_Enabled :: "bool option"
  PU_UserAdTag :: "string option"
  PU_Clear :: "string list"

record User =
  Us_Username :: string
  Us_Enabled :: bool
  Us_Expiration :: string
  Us_DataQuotaBytes :: nat
  Us_RateLimitUpBps :: nat
  Us_RateLimitDownBps :: nat
  Us_MaxUniqueIPs :: nat
  Us_MaxTCPConns :: nat
  Us_UserAdTag :: string

text \<open>The maps of the stored state are association lists; the first entry of a name counts.\<close>

record telemtState =
  SecretHashes :: "(string \<times> string) list"
  LimitHashes :: "(string \<times> string) list"
  QuotaResets :: "(string \<times> int) list"

record 'w users_env =
  api_ListUsers :: "'w \<Rightarrow> (string + User list) \<times> 'w"
  api_CreateUser :: "CreateUserRequest \<Rightarrow> 'w \<Rightarrow> (string + unit) \<times> 'w"
  api_PatchUser :: "string \<Rightarrow> PatchUserRequest \<Rightarrow> 'w \<Rightarrow> (string + unit) \<times> 'w"
  api_DeleteUser :: "string \<Rightarrow> 'w \<Rightarrow> (string + unit) \<times> 'w"
  api_ResetQuota :: "string \<Rightarrow> 'w \<Rightarrow> (string + unit) \<times> 'w"
  format_rfc3339 :: "int \<Rightarrow> string"
  parse_rfc3339 :: "string \<Rightarrow> gotime option"
  policy_text :: "telemtPolicy \<Rightarrow> string"
  enc_state :: "telemtState \<Rightarrow> string"
  dec_state :: "string \<Rightarrow> telemtState option"

definition telemtPolicyFrom :: "'w users_env \<Rightarrow> ProtoProfile \<Rightarrow> telemtPolicy" where
  "telemtPolicyFrom us p =
     \<lparr>DataQuotaBytes = P_DataQuotaBytes p, RateLimitUpBps = P_RateLimitUpBps p, RateLimitDownBps = P_RateLimitDownBps p,
      MaxUniqueIPs = P_MaxUniqueIps p, MaxTCPConns = P_MaxTcpConns p,
      Expiration = (if P_ExpiresAtUnix p \<noteq> 0 then format_rfc3339 us (P_ExpiresAtUnix p) else []),
      PEnabled = P_Enabled p, PAdTag = []\<rparr>"

definition fingerprint :: "'w node_env \<Rightarrow> 'w users_env \<Rightarrow> telemtPolicy \<Rightarrow> string" where
  "fingerprint env us p = sha256_hex env (policy_text us p)"

definition secretFingerprint :: "'w node_env \<Rightarrow> string \<Rightarrow> string" where
  "secretFingerprint env secret = sha256_hex env secret"

definition positive :: "nat \<Rightarrow> nat option" where
  "positive n = (if n > 0 then Some n else None)"

definition nonempty :: "string \<Rightarrow> string option" where
  "nonempty s = (if s \<noteq> [] then Some s else None)"

definition createRequest :: "telemtPolicy \<Rightarrow> string \<Rightarrow> string \<Rightarrow> CreateUserRequest" where
  "createRequest p name secret =
     \<lparr>CU_Username = name, CU_Secret = secret, CU_MaxTCPConns = positive (MaxTCPConns p), CU_Expiration = nonempty (Expiration p),
      CU_DataQuotaBytes = positive (DataQuotaBytes p), CU_RateLimitUpBps = positive (RateLimitUpBps p),
      CU_RateLimitDownBps = positive (RateLimitDownBps p), CU_MaxUniqueIPs = positive (MaxUniqueIPs p),
      CU_Enabled = Some (PEnabled p), CU_UserAdTag = nonempty (PAdTag p)\<rparr>"

definition cleared :: "'a option \<Rightarrow> string \<Rightarrow> string list" where
  "cleared v name = (if v = None then [name] else [])"

definition patchRequest :: "telemtPolicy \<Rightarrow> string option \<Rightarrow> PatchUserRequest" where
  "patchRequest p secret =
     \<lparr>PU_Secret = secret, PU_MaxTCPConns = positive (MaxTCPConns p), PU_Expiration = nonempty (Expiration p),
      PU_DataQuotaBytes = positive (DataQuotaBytes p), PU_RateLimitUpBps = positive (RateLimitUpBps p),
      PU_RateLimitDownBps = positive (RateLimitDownBps p), PU_MaxUniqueIPs = positive (MaxUniqueIPs p),
      PU_Enabled = Some (PEnabled p), PU_UserAdTag = nonempty (PAdTag p),
      PU_Clear = cleared (positive (DataQuotaBytes p)) ''data_quota_bytes'' @ cleared (positive (RateLimitUpBps p)) ''rate_limit_up_bps'' @
        cleared (positive (RateLimitDownBps p)) ''rate_limit_down_bps'' @ cleared (positive (MaxUniqueIPs p)) ''max_unique_ips'' @
        cleared (positive (MaxTCPConns p)) ''max_tcp_conns'' @ cleared (nonempty (Expiration p)) ''expiration_rfc3339'' @
        cleared (nonempty (PAdTag p)) ''user_ad_tag''\<rparr>"

text \<open>Whether Telemt already holds exactly this policy.\<close>

definition policy_matches :: "'w users_env \<Rightarrow> telemtPolicy \<Rightarrow> User \<Rightarrow> bool" where
  "policy_matches us p u =
     (if Us_DataQuotaBytes u \<noteq> DataQuotaBytes p \<or> Us_RateLimitUpBps u \<noteq> RateLimitUpBps p \<or>
         Us_RateLimitDownBps u \<noteq> RateLimitDownBps p \<or> Us_MaxUniqueIPs u \<noteq> MaxUniqueIPs p \<or>
         Us_MaxTCPConns u \<noteq> MaxTCPConns p \<or> Us_Enabled u \<noteq> PEnabled p \<or> Us_UserAdTag u \<noteq> PAdTag p
      then False
      else if (Us_Expiration u = []) \<noteq> (Expiration p = []) then False
      else if Expiration p = [] then True
      else case (parse_rfc3339 us (Us_Expiration u), parse_rfc3339 us (Expiration p)) of
             (Some have1, Some want) \<Rightarrow> have1 = want
           | _ \<Rightarrow> False)"

subsection \<open>The desired users\<close>

record telemtDesired =
  d_name :: string
  d_secret :: string
  d_policy :: telemtPolicy
  d_webLimits :: WebProfileLimits
  d_quotaReset :: int

text \<open>The patterns \<^verbatim>\<open>^[A-Za-z0-9_.-]{1,64}$\<close> and \<^verbatim>\<open>^[0-9a-f]{32}$\<close>.\<close>

definition userRe :: "string \<Rightarrow> bool" where
  "userRe s \<longleftrightarrow> 1 \<le> length s \<and> length s \<le> 64 \<and>
     list_all (\<lambda>c. is_upper c \<or> is_lower c \<or> is_digit c \<or> c = CHR ''_'' \<or> c = CHR ''.'' \<or> c = CHR ''-'') s"

definition hexRe :: "string \<Rightarrow> bool" where
  "hexRe s \<longleftrightarrow> length s = 32 \<and> list_all is_hex_lower s"

definition desired_of :: "'w users_env \<Rightarrow> string \<Rightarrow> ProtoProfile \<Rightarrow> telemtDesired" where
  "desired_of us adTag p =
     \<lparr>d_name = P_Name p, d_secret = P_Secret p, d_policy = (telemtPolicyFrom us p)\<lparr>PAdTag := adTag\<rparr>,
      d_webLimits = (case P_Limits p of
          None \<Rightarrow> \<lparr>W_MaxSessions = 0, W_MaxStreams = 0, W_MaxStreamsPerSession = 0\<rparr>
        | Some l \<Rightarrow> \<lparr>W_MaxSessions = PL_MaxSessions l, W_MaxStreams = PL_MaxStreams l, W_MaxStreamsPerSession = PL_MaxStreamsPerSession l\<rparr>),
      d_quotaReset = (if P_DataQuotaBytes p > 0 then P_QuotaResetUnix p else 0)\<rparr>"

fun desired_loop :: "'w users_env \<Rightarrow> string \<Rightarrow> string list \<Rightarrow> ProtoProfile list \<Rightarrow> string + telemtDesired list" where
  "desired_loop us adTag seen [] = Inr []"
| "desired_loop us adTag seen (p # ps) =
     (if \<not> userRe (P_Name p) then Inl (''invalid profile name '' @ P_Name p)
      else if \<not> hexRe (P_Secret p) then Inl (''profile '' @ P_Name p @ '': secret must be 32 lowercase hex characters'')
      else if P_Name p \<in> set seen then Inl (''duplicate profile '' @ P_Name p)
      else map_sum id ((#) (desired_of us adTag p)) (desired_loop us adTag (P_Name p # seen) ps))"

definition telemtDesiredFrom :: "'w users_env \<Rightarrow> string \<Rightarrow> ProtoProfile list \<Rightarrow> string + telemtDesired list" where
  "telemtDesiredFrom us adTag ps =
     (if ps = [] then Inl ''at least one profile is required''
      else if adTag \<noteq> [] \<and> \<not> hexRe adTag then Inl ''ad tag must be 32 lowercase hex characters''
      else desired_loop us adTag [] ps)"

subsection \<open>One apply\<close>

record telemtRollback =
  created :: "string list"
  prevVhosts :: "json list option"
  siteBackup :: path
  prevListeners :: "object option"
  publicAddrChanged :: bool
  prevMiddleProxy :: "bool option"
  prevWebPolicy :: "object option"
  irreversible :: "string list"
  rb_config :: "string option"

record 'w applying =
  ag :: "'w agent"
  rb :: telemtRollback
  resets :: "(string \<times> int) list"

definition no_rollback :: telemtRollback where
  "no_rollback = \<lparr>created = [], prevVhosts = None, siteBackup = [], prevListeners = None, publicAddrChanged = False,
     prevMiddleProxy = None, prevWebPolicy = None, irreversible = [], rb_config = None\<rparr>"

definition call :: "('w \<Rightarrow> (string + 'a) \<times> 'w) \<Rightarrow> ('a, 'w applying) step" where
  "call f s = (let (r, a) = outside f (ag s) in (r, s\<lparr>ag := a\<rparr>))"

definition run_on :: "('w agent \<Rightarrow> failure \<times> 'w agent) \<Rightarrow> (unit, 'w applying) step" where
  "run_on f s = (let (e, a) = f (ag s) in (case e of None \<Rightarrow> Inr () | Some x \<Rightarrow> Inl x, s\<lparr>ag := a\<rparr>))"

definition on_rb :: "(telemtRollback \<Rightarrow> telemtRollback) \<Rightarrow> (unit, 'w applying) step" where
  "on_rb f = modifyE (\<lambda>s. s\<lparr>rb := f (rb s)\<rparr>)"

subsection \<open>What was last given to each user\<close>

definition telemtStatePath :: "Config \<Rightarrow> path" where
  "telemtStatePath cfg = Join (StateDir cfg) ''telemt-users.json''"

definition no_state :: telemtState where
  "no_state = \<lparr>SecretHashes = [], LimitHashes = [], QuotaResets = []\<rparr>"

definition readTelemtState :: "'w node_env \<Rightarrow> 'w users_env \<Rightarrow> Config \<Rightarrow> (telemtState, 'w applying) step" where
  "readTelemtState env us cfg s =
     (let (r, a) = ReadFile env (telemtStatePath cfg) (ag s)
      in (Inr (case r of Contents b \<Rightarrow> (case dec_state us b of None \<Rightarrow> no_state | Some st \<Rightarrow> st) | _ \<Rightarrow> no_state), s\<lparr>ag := a\<rparr>))"

definition saveTelemtState :: "'w node_env \<Rightarrow> 'w users_env \<Rightarrow> Config \<Rightarrow> telemtState \<Rightarrow> 'w agent \<Rightarrow> failure \<times> 'w agent" where
  "saveTelemtState env us cfg st a =
     (let (e, a1) = fault env (MkdirOp (StateDir cfg)) a
      in case e of Some x \<Rightarrow> (Some x, a1) | None \<Rightarrow> writeAtomic env (telemtStatePath cfg) (enc_state us st) a1)"

definition writeTelemtState :: "'w node_env \<Rightarrow> 'w users_env \<Rightarrow> Config \<Rightarrow> telemtState \<Rightarrow> (unit, 'w applying) step" where
  "writeTelemtState env us cfg st = run_on (saveTelemtState env us cfg st)"

subsection \<open>The virtual hosts of the configuration\<close>

definition telemtVhosts :: "object \<Rightarrow> string + json list" where
  "telemtVhosts conf =
     (case as_obj (field conf ''web'') of
        None \<Rightarrow> Inl ''telemt config has no [web] section; run init-node --engine telemt''
      | Some web \<Rightarrow>
          (case arr (field web ''vhosts'') of
             [] \<Rightarrow> Inl ''telemt config has no [[web.vhosts]] entry''
           | v # vs \<Rightarrow> if as_obj v = None then Inl ''telemt config web.vhosts[0] is not a table'' else Inr (v # vs)))"

definition copyVhosts :: "json list \<Rightarrow> string + json list" where
  "copyVhosts vhosts =
     (case vhosts of
        [] \<Rightarrow> Inl ''telemt config web.vhosts is empty''
      | v # vs \<Rightarrow> if as_obj v = None then Inl ''telemt config web.vhosts[0] is not a table'' else Inr (v # vs))"

fun vhost_scan :: "string \<Rightarrow> nat option \<Rightarrow> nat \<Rightarrow> json list \<Rightarrow> string + nat" where
  "vhost_scan host found i [] =
     (case found of Some n \<Rightarrow> Inr n | None \<Rightarrow> Inl (''managed WEB vhost '' @ host @ '' is missing''))"
| "vhost_scan host found i (raw # vs) =
     (case as_obj raw of
        None \<Rightarrow> vhost_scan host found (Suc i) vs
      | Some v \<Rightarrow>
          if host = [] then Inr i
          else if field v ''host'' = JStr host
          then (if found \<noteq> None then Inl (''managed WEB vhost '' @ host @ '' is ambiguous'') else vhost_scan host (Some i) (Suc i) vs)
          else vhost_scan host found (Suc i) vs)"

definition webVhostIndex :: "object \<Rightarrow> string \<Rightarrow> string + nat" where
  "webVhostIndex web host = vhost_scan host None 0 (arr (field web ''vhosts''))"

definition set_vhost :: "json list \<Rightarrow> nat \<Rightarrow> string \<Rightarrow> json \<Rightarrow> json list" where
  "set_vhost vhosts idx k v = vhosts[idx := JObj (fmupd k v (obj (vhosts ! idx)))]"

definition limit_read :: "object \<Rightarrow> string \<Rightarrow> int \<Rightarrow> int" where
  "limit_read limits key fallback =
     (case field limits key of JNum q \<Rightarrow> if q > 0 then \<lfloor>q\<rfloor> else fallback | _ \<Rightarrow> fallback)"

definition telemtGlobalWebLimits :: "object \<Rightarrow> WebGlobalLimits" where
  "telemtGlobalWebLimits conf =
     (let limits = obj (field (obj (field conf ''web'')) ''limits''); out = DefaultWebGlobalLimits
      in \<lparr>G_MaxSessions = limit_read limits ''max_sessions_global'' (G_MaxSessions out),
          G_MaxStreams = limit_read limits ''max_streams_global'' (G_MaxStreams out),
          G_MaxStreamsPerSession = limit_read limits ''max_streams_per_session'' (G_MaxStreamsPerSession out)\<rparr>)"

definition limit_field :: "string \<Rightarrow> int \<Rightarrow> object \<Rightarrow> object" where
  "limit_field k v m = (if v > 0 then fmupd k (JNum (of_int v)) m else m)"

definition profile_entry :: "telemtDesired \<Rightarrow> json" where
  "profile_entry d =
     JObj (limit_field ''max_streams_per_session'' (W_MaxStreamsPerSession (d_webLimits d))
       (limit_field ''max_streams'' (W_MaxStreams (d_webLimits d))
         (limit_field ''max_sessions'' (W_MaxSessions (d_webLimits d))
           (fmap_of_list [(''user'', JStr (d_name d)), (''secret_mode'', JStr ''plain'')]))))"

subsection \<open>Reconciling the users\<close>

definition existing_users :: "User list \<Rightarrow> string \<rightharpoonup> User" where
  "existing_users users = map_of (rev (map (\<lambda>u. (Us_Username u, u)) users))"

definition next_state :: "'w node_env \<Rightarrow> 'w users_env \<Rightarrow> telemtDesired list \<Rightarrow> telemtState" where
  "next_state env us desired =
     \<lparr>SecretHashes = rev (map (\<lambda>d. (d_name d, secretFingerprint env (d_secret d))) desired),
      LimitHashes = rev (map (\<lambda>d. (d_name d, fingerprint env us (d_policy d))) desired),
      QuotaResets = rev (map (\<lambda>d. (d_name d, d_quotaReset d)) (filter (\<lambda>d. d_quotaReset d \<noteq> 0) desired))\<rparr>"

text \<open>A completed reset is written down at once, with the old fingerprints.\<close>

definition reset_quota ::
  "'w node_env \<Rightarrow> 'w users_env \<Rightarrow> Config \<Rightarrow> telemtDesired \<Rightarrow> telemtState \<Rightarrow> (telemtState, 'w applying) step" where
  "reset_quota env us cfg d st =
     (let st' = st\<lparr>QuotaResets := AList.update (d_name d) (d_quotaReset d) (QuotaResets st)\<rparr>
      in bindE (wrapE (''reset quota of user '' @ d_name d @ '': '') (call (api_ResetQuota us (d_name d)))) (\<lambda>_.
         bindE (modifyE (\<lambda>s. s\<lparr>resets := resets s @ [(d_name d, d_quotaReset d)]\<rparr>)) (\<lambda>_.
         bindE (on_rb (\<lambda>r. r\<lparr>irreversible := irreversible r @ [''quota reset of user '' @ d_name d]\<rparr>)) (\<lambda>_.
         bindE (wrapE (''record quota reset of user '' @ d_name d @ '': '') (writeTelemtState env us cfg st')) (\<lambda>_.
         returnE st')))))"

definition irreversible_text :: "bool \<Rightarrow> bool \<Rightarrow> string \<Rightarrow> string" where
  "irreversible_text secretChanged policyChanged name =
     (if secretChanged \<and> policyChanged then ''secret and limits of user ''
      else if secretChanged then ''secret of user '' else ''limits of user '') @ name"

definition patch_user ::
  "'w node_env \<Rightarrow> 'w users_env \<Rightarrow> telemtDesired \<Rightarrow> User \<Rightarrow> telemtState \<Rightarrow> (bool, 'w applying) step" where
  "patch_user env us d u st =
     (let secretChanged = (map_of (SecretHashes st) (d_name d) \<noteq> Some (secretFingerprint env (d_secret d)));
          policyChanged = (case map_of (LimitHashes st) (d_name d) of
              None \<Rightarrow> \<not> policy_matches us (d_policy d) u
            | Some prev \<Rightarrow> prev \<noteq> fingerprint env us (d_policy d))
      in if \<not> secretChanged \<and> \<not> policyChanged then returnE False
         else bindE (call (api_PatchUser us (d_name d) (patchRequest (d_policy d) (if secretChanged then Some (d_secret d) else None)))) (\<lambda>_.
              bindE (on_rb (\<lambda>r. r\<lparr>irreversible := irreversible r @ [irreversible_text secretChanged policyChanged (d_name d)]\<rparr>)) (\<lambda>_.
              returnE True)))"

definition user_step ::
  "'w node_env \<Rightarrow> 'w users_env \<Rightarrow> Config \<Rightarrow> (string \<rightharpoonup> User) \<Rightarrow> telemtDesired \<Rightarrow> telemtState \<times> bool \<Rightarrow> (telemtState \<times> bool, 'w applying) step" where
  "user_step env us cfg existing d acc =
     (let (st, changed) = acc
      in case existing (d_name d) of
           None \<Rightarrow>
             bindE (call (api_CreateUser us (createRequest (d_policy d) (d_name d) (d_secret d)))) (\<lambda>_.
             bindE (on_rb (\<lambda>r. r\<lparr>created := created r @ [d_name d]\<rparr>)) (\<lambda>_. returnE (st, True)))
         | Some u \<Rightarrow>
             bindE (case map_of (QuotaResets st) (d_name d) of
                      None \<Rightarrow> returnE (st, changed)
                    | Some lastReset \<Rightarrow>
                        if d_quotaReset d > lastReset
                        then bindE (reset_quota env us cfg d st) (\<lambda>st'. returnE (st', True))
                        else returnE (st, changed)) (\<lambda>(st', changed').
             bindE (patch_user env us d u st') (\<lambda>patched. returnE (st', changed' \<or> patched))))"

fun users_loop ::
  "'w node_env \<Rightarrow> 'w users_env \<Rightarrow> Config \<Rightarrow> (string \<rightharpoonup> User) \<Rightarrow> telemtDesired list \<Rightarrow> telemtState \<times> bool \<Rightarrow> (telemtState \<times> bool, 'w applying) step" where
  "users_loop env us cfg existing [] acc = returnE acc"
| "users_loop env us cfg existing (d # ds) acc =
     bindE (user_step env us cfg existing d acc) (users_loop env us cfg existing ds)"

definition update_profiles ::
  "'w control_env \<Rightarrow> json list \<Rightarrow> nat \<Rightarrow> telemtDesired list \<Rightarrow> (bool \<times> bool, 'w applying) step" where
  "update_profiles net vhosts idx desired =
     (if arr (field (obj (vhosts ! idx)) ''profiles'') = map profile_entry desired then returnE (False, False)
      else case copyVhosts vhosts of
             Inl x \<Rightarrow> failE x
           | Inr prev \<Rightarrow>
               bindE (call (api_PatchConfig net (single ''web'' (JObj (single ''vhosts''
                        (JArr (set_vhost vhosts idx ''profiles'' (JArr (map profile_entry desired))))))) False)) (\<lambda>out.
               bindE (on_rb (\<lambda>r. r\<lparr>prevVhosts := Some prev\<rparr>)) (\<lambda>_. returnE (True, PC_runtime_reload_required out))))"

definition foreign_users :: "json list \<Rightarrow> nat \<Rightarrow> string list" where
  "foreign_users vhosts idx =
     concat (map (\<lambda>i. if i = idx then []
                      else map (\<lambda>p. str (field (obj p) ''user'')) (arr (field (obj (vhosts ! i)) ''profiles''))) [0..<length vhosts])"

fun delete_loop :: "'w users_env \<Rightarrow> string list \<Rightarrow> User list \<Rightarrow> bool \<Rightarrow> (bool, 'w applying) step" where
  "delete_loop us wanted [] changed = returnE changed"
| "delete_loop us wanted (u # rest) changed =
     (if Us_Username u \<in> set wanted then delete_loop us wanted rest changed
      else bindE (call (api_DeleteUser us (Us_Username u))) (\<lambda>_.
           bindE (on_rb (\<lambda>r. r\<lparr>irreversible := irreversible r @ [''deleted user '' @ Us_Username u]\<rparr>)) (\<lambda>_.
           delete_loop us wanted rest True)))"

definition state_moved :: "telemtState \<Rightarrow> telemtDesired list \<Rightarrow> bool" where
  "state_moved st desired \<longleftrightarrow>
     (\<exists>d \<in> set desired. (case map_of (QuotaResets st) (d_name d) of None \<Rightarrow> 0 | Some q \<Rightarrow> q) \<noteq> d_quotaReset d)"

text \<open>A state that cannot be recorded is only a warning in the log.\<close>

definition record_state ::
  "'w node_env \<Rightarrow> 'w users_env \<Rightarrow> Config \<Rightarrow> bool \<Rightarrow> telemtState \<Rightarrow> (unit, 'w applying) step" where
  "record_state env us cfg due st s =
     (if due then (Inr (), snd (writeTelemtState env us cfg st s)) else (Inr (), s))"

definition web_limits_error :: "WebGlobalLimits \<Rightarrow> telemtDesired list \<Rightarrow> failure" where
  "web_limits_error g desired =
     first_err (map (\<lambda>d. if WebProfileLimits_Validate (d_webLimits d) g = None then None
                         else Some (''profile '' @ d_name d @ '' WEB limits'')) desired)"

definition reconcile_with ::
  "'w node_env \<Rightarrow> 'w control_env \<Rightarrow> 'w users_env \<Rightarrow> Config \<Rightarrow> telemtDesired list \<Rightarrow> string \<Rightarrow> User list \<Rightarrow> json list \<Rightarrow> nat \<Rightarrow>
   (bool \<times> bool, 'w applying) step" where
  "reconcile_with env net us cfg desired managedHost users vhosts idx =
     bindE (readTelemtState env us cfg) (\<lambda>st.
     bindE (users_loop env us cfg (existing_users users) desired (st, False)) (\<lambda>(st', changed).
     bindE (update_profiles net vhosts idx desired) (\<lambda>(moved, reload).
     bindE (delete_loop us (map d_name desired @ (if managedHost \<noteq> [] then foreign_users vhosts idx else [])) users (changed \<or> moved)) (\<lambda>changed'.
     bindE (record_state env us cfg (changed' \<or> state_moved st desired) (next_state env us desired)) (\<lambda>_.
     returnE (changed', reload))))))"

definition reconcileTelemtUsers ::
  "'w node_env \<Rightarrow> 'w control_env \<Rightarrow> 'w users_env \<Rightarrow> Config \<Rightarrow> telemtDesired list \<Rightarrow> string \<Rightarrow> (bool \<times> bool, 'w applying) step" where
  "reconcileTelemtUsers env net us cfg desired managedHost =
     bindE (call (api_ListUsers us)) (\<lambda>users.
     bindE (call (api_GetConfig net)) (\<lambda>conf.
     case telemtVhosts conf of
       Inl x \<Rightarrow> failE x
     | Inr vhosts \<Rightarrow>
         (case webVhostIndex (obj (field conf ''web'')) managedHost of
            Inl x \<Rightarrow> failE x
          | Inr idx \<Rightarrow>
              bindE (guardE (web_limits_error (telemtGlobalWebLimits conf) desired)) (\<lambda>_.
              reconcile_with env net us cfg desired managedHost users vhosts idx))))"

end
