(* ===== verification/Agent_Users_Laws.thy ===== *)
theory Agent_Users_Laws
  imports Agent_Users
begin

text \<open>
  What the users calls of Telemt's control API do, as a table of users in the world, and the lemmas
  on the steps of an apply that the properties of \<open>Agent_Users\<close> rest on.
\<close>

subsection \<open>Steps\<close>

lemma on_rb_result [simp]: "on_rb h a = (u, a') \<longleftrightarrow> u = Inr () \<and> a' = a\<lparr>rb := h (rb a)\<rparr>"
  by (auto simp: on_rb_def)

abbreviation to_world :: "'w applying \<Rightarrow> 'w \<Rightarrow> 'w applying" where
  "to_world s w \<equiv> s\<lparr>ag := (ag s)\<lparr>world := w\<rparr>\<rparr>"

lemma call_cases: "call f s = (r, s') \<longleftrightarrow> (\<exists>w. f (world (ag s)) = (r, w) \<and> s' = to_world s w)"
  by (auto simp: call_def outside_def split_beta prod_eq_iff)

subsection \<open>Telemt's users\<close>

type_synonym users_table = "string \<rightharpoonup> string \<times> telemtPolicy"

definition user_view :: "string \<Rightarrow> telemtPolicy \<Rightarrow> User" where
  "user_view n p = \<lparr>Us_Username = n, Us_Enabled = PEnabled p, Us_Expiration = Expiration p, Us_DataQuotaBytes = DataQuotaBytes p,
     Us_RateLimitUpBps = RateLimitUpBps p, Us_RateLimitDownBps = RateLimitDownBps p, Us_MaxUniqueIPs = MaxUniqueIPs p,
     Us_MaxTCPConns = MaxTCPConns p, Us_UserAdTag = PAdTag p\<rparr>"

definition given :: "nat option \<Rightarrow> nat" where
  "given v = (case v of None \<Rightarrow> 0 | Some n \<Rightarrow> n)"

definition given_text :: "string option \<Rightarrow> string" where
  "given_text v = (case v of None \<Rightarrow> [] | Some t \<Rightarrow> t)"

text \<open>An option that is not given is not limited; a new user is enabled unless it is told otherwise.\<close>

definition create_policy :: "CreateUserRequest \<Rightarrow> telemtPolicy" where
  "create_policy r = \<lparr>DataQuotaBytes = given (CU_DataQuotaBytes r), RateLimitUpBps = given (CU_RateLimitUpBps r),
     RateLimitDownBps = given (CU_RateLimitDownBps r), MaxUniqueIPs = given (CU_MaxUniqueIPs r), MaxTCPConns = given (CU_MaxTCPConns r),
     Expiration = given_text (CU_Expiration r), PEnabled = (CU_Enabled r \<noteq> Some False), PAdTag = given_text (CU_UserAdTag r)\<rparr>"

text \<open>In a patch, a field sent as \<^verbatim>\<open>null\<close> removes the override and one that is absent keeps it.\<close>

definition patched :: "PatchUserRequest \<Rightarrow> string \<Rightarrow> 'a option \<Rightarrow> 'a \<Rightarrow> 'a \<Rightarrow> 'a" where
  "patched r name v none old = (if name \<in> set (PU_Clear r) then none else case v of None \<Rightarrow> old | Some x \<Rightarrow> x)"

definition patch_policy :: "PatchUserRequest \<Rightarrow> telemtPolicy \<Rightarrow> telemtPolicy" where
  "patch_policy r p = \<lparr>DataQuotaBytes = patched r ''data_quota_bytes'' (PU_DataQuotaBytes r) 0 (DataQuotaBytes p),
     RateLimitUpBps = patched r ''rate_limit_up_bps'' (PU_RateLimitUpBps r) 0 (RateLimitUpBps p),
     RateLimitDownBps = patched r ''rate_limit_down_bps'' (PU_RateLimitDownBps r) 0 (RateLimitDownBps p),
     MaxUniqueIPs = patched r ''max_unique_ips'' (PU_MaxUniqueIPs r) 0 (MaxUniqueIPs p),
     MaxTCPConns = patched r ''max_tcp_conns'' (PU_MaxTCPConns r) 0 (MaxTCPConns p),
     Expiration = patched r ''expiration_rfc3339'' (PU_Expiration r) [] (Expiration p),
     PEnabled = (case PU_Enabled r of None \<Rightarrow> PEnabled p | Some b \<Rightarrow> b),
     PAdTag = patched r ''user_ad_tag'' (PU_UserAdTag r) [] (PAdTag p)\<rparr>"

lemma given_positive [simp]: "given (positive n) = n" "given_text (nonempty t) = t"
  by (auto simp: given_def given_text_def positive_def nonempty_def)

lemma create_policy_request [simp]: "create_policy (createRequest p n s) = p"
  by (simp add: create_policy_def createRequest_def)

text \<open>A patch of the agent decides every field: nothing of the previous policy is left.\<close>

lemma cleared_mem [simp]: "x \<in> set (cleared v name) \<longleftrightarrow> v = None \<and> x = name"
  by (auto simp: cleared_def)

lemma positive_simps [simp]: "positive n = None \<longleftrightarrow> n = 0" "positive n = Some k \<longleftrightarrow> 0 < n \<and> k = n"
  "nonempty t = None \<longleftrightarrow> t = []" "nonempty t = Some u \<longleftrightarrow> t \<noteq> [] \<and> u = t"
  by (auto simp: positive_def nonempty_def)

lemma patch_policy_request [simp]: "patch_policy (patchRequest p s) old = p"
  by (auto simp: patch_policy_def patchRequest_def patched_def split: option.splits intro!: telemtPolicy.equality)

definition users_laws :: "'w node_env \<Rightarrow> 'w control_env \<Rightarrow> 'w users_env \<Rightarrow> ('w \<Rightarrow> users_table) \<Rightarrow> bool" where
  "users_laws env net us T \<longleftrightarrow>
     (\<forall>w l w'. api_ListUsers us w = (Inr l, w') \<longrightarrow>
        T w' = T w \<and> distinct (map Us_Username l) \<and> (\<forall>u. u \<in> set l \<longleftrightarrow> (\<exists>n s p. T w n = Some (s, p) \<and> u = user_view n p))) \<and>
     (\<forall>r w w'. api_CreateUser us r w = (Inr (), w') \<longrightarrow> T w' = (T w)(CU_Username r \<mapsto> (CU_Secret r, create_policy r))) \<and>
     (\<forall>n r w w'. api_PatchUser us n r w = (Inr (), w') \<longrightarrow>
        (\<exists>s p. T w n = Some (s, p) \<and> T w' = (T w)(n \<mapsto> (case PU_Secret r of None \<Rightarrow> s | Some x \<Rightarrow> x, patch_policy r p)))) \<and>
     (\<forall>n w w'. api_DeleteUser us n w = (Inr (), w') \<longrightarrow> T w' = (T w)(n := None)) \<and>
     (\<forall>n w w'. api_ResetQuota us n w = (Inr (), w') \<longrightarrow> T w' = T w) \<and>
     (\<forall>w c w'. api_GetConfig net w = (Inr c, w') \<longrightarrow> T w' = T w) \<and>
     (\<forall>p b w o1 w'. api_PatchConfig net p b w = (Inr o1, w') \<longrightarrow> T w' = T w) \<and>
     (\<forall>op w. T (snd (io_fault env op w)) = T w)"

lemmas law_list = users_laws_def [THEN iffD1, THEN conjunct1, rule_format]
lemmas law_create = users_laws_def [THEN iffD1, THEN conjunct2, THEN conjunct1, rule_format]
lemmas law_patch = users_laws_def [THEN iffD1, THEN conjunct2, THEN conjunct2, THEN conjunct1, rule_format]
lemmas law_delete = users_laws_def [THEN iffD1, THEN conjunct2, THEN conjunct2, THEN conjunct2, THEN conjunct1, rule_format]
lemmas law_reset = users_laws_def [THEN iffD1, THEN conjunct2, THEN conjunct2, THEN conjunct2, THEN conjunct2, THEN conjunct1, rule_format]
lemmas law_config = users_laws_def [THEN iffD1, THEN conjunct2, THEN conjunct2, THEN conjunct2, THEN conjunct2, THEN conjunct2, THEN conjunct1, rule_format]
lemmas law_patch_config = users_laws_def [THEN iffD1, THEN conjunct2, THEN conjunct2, THEN conjunct2, THEN conjunct2, THEN conjunct2, THEN conjunct2, THEN conjunct1, rule_format]
lemmas law_fault = users_laws_def [THEN iffD1, THEN conjunct2, THEN conjunct2, THEN conjunct2, THEN conjunct2, THEN conjunct2, THEN conjunct2, THEN conjunct2, rule_format]

text \<open>Two policies are the same up to the spelling of the instant of expiry.\<close>

definition same_policy :: "'w users_env \<Rightarrow> telemtPolicy \<Rightarrow> telemtPolicy \<Rightarrow> bool" where
  "same_policy us p q \<longleftrightarrow>
     p\<lparr>Expiration := []\<rparr> = q\<lparr>Expiration := []\<rparr> \<and>
     (Expiration p = Expiration q \<or>
      (\<exists>t. parse_rfc3339 us (Expiration p) = Some t \<and> parse_rfc3339 us (Expiration q) = Some t))"

lemma same_policy_refl [simp]: "same_policy us p p"
  by (simp add: same_policy_def)

lemma policy_matches_same: "policy_matches us q (user_view n p) \<Longrightarrow> same_policy us p q"
  by (cases p; cases q) (auto simp: policy_matches_def user_view_def same_policy_def split: if_splits option.splits)

definition collision_free :: "'w node_env \<Rightarrow> 'w users_env \<Rightarrow> bool" where
  "collision_free env us \<longleftrightarrow> inj (sha256_hex env) \<and> inj (policy_text us)"

lemma collision_freeD:
  assumes "collision_free env us"
  shows "secretFingerprint env s = secretFingerprint env t \<longleftrightarrow> s = t" "fingerprint env us p = fingerprint env us q \<longleftrightarrow> p = q"
  using assms by (auto simp: collision_free_def secretFingerprint_def fingerprint_def inj_def)

text \<open>The fingerprints on record are those of what Telemt holds.\<close>

definition truthful :: "'w node_env \<Rightarrow> 'w users_env \<Rightarrow> users_table \<Rightarrow> telemtState \<Rightarrow> bool" where
  "truthful env us U st \<longleftrightarrow>
     (\<forall>n s p h. U n = Some (s, p) \<longrightarrow>
        (map_of (SecretHashes st) n = Some h \<longrightarrow> h = secretFingerprint env s) \<and>
        (map_of (LimitHashes st) n = Some h \<longrightarrow> (\<exists>q. h = fingerprint env us q \<and> same_policy us p q)))"

definition recorded :: "'w users_env \<Rightarrow> Config \<Rightarrow> disk \<Rightarrow> telemtState" where
  "recorded us cfg d =
     (case d (telemtStatePath cfg) of None \<Rightarrow> no_state | Some b \<Rightarrow> (case dec_state us b of None \<Rightarrow> no_state | Some st \<Rightarrow> st))"

lemma truthful_no_state [simp]: "truthful env us U no_state"
  by (simp add: truthful_def no_state_def)

text \<open>What a user has after an apply that wanted \<open>d\<close>.\<close>

definition served :: "'w users_env \<Rightarrow> users_table \<Rightarrow> telemtDesired \<Rightarrow> bool" where
  "served us U d \<longleftrightarrow> (\<exists>p. U (d_name d) = Some (d_secret d, p) \<and> same_policy us p (d_policy d))"

abbreviation table :: "('w \<Rightarrow> users_table) \<Rightarrow> 'w applying \<Rightarrow> users_table" where
  "table T s \<equiv> T (world (ag s))"

end
