(* ===== verification/Agent_Users_Safety.thy ===== *)
theory Agent_Users_Safety
  imports Agent_Users_Laws
begin

text \<open>
  The two invariants of an apply of users: each user that has been handled has what was wanted, and
  the quota periods on record stay ahead of every reset made.
\<close>

subsection \<open>The users table\<close>

lemma fault_table: "users_laws env net us T \<Longrightarrow> T (world (snd (fault env op a))) = T (world a)"
  by (simp add: outside_def split_beta law_fault)

lemma writeAtomic_table:
  assumes "users_laws env net us T"
  shows "T (world (snd (writeAtomic env p b a))) = T (world a)"
proof -
  obtain e1 a1 where 1: "fault env (CreateOp p) a = (e1, a1)" by fastforce
  obtain e2 a2 where 2: "fault env (RenameOp p) a1 = (e2, a2)" by fastforce
  have "T (world a1) = T (world a)" "T (world a2) = T (world a1)"
    using fault_table [OF assms, of "CreateOp p" a] fault_table [OF assms, of "RenameOp p" a1] 1 2 by simp_all
  then show ?thesis
    using fault_table [OF assms, of "SyncDirOp p" "set_disk ((disk a2)(p \<mapsto> b)) a2"] 1 2
    by (simp add: writeAtomic_def Let_def set_disk_def split: option.splits)
qed

lemma saveTelemtState_table:
  "users_laws env net us T \<Longrightarrow> T (world (snd (saveTelemtState env us cfg st a))) = T (world a)"
  by (simp add: saveTelemtState_def Let_def split_beta fault_table writeAtomic_table split: option.splits)

lemma writeTelemtState_table:
  "users_laws env net us T \<Longrightarrow> writeTelemtState env us cfg st s = (r, s') \<Longrightarrow> table T s' = table T s"
  using saveTelemtState_table [of env net us T cfg st "ag s"] by (auto simp: writeTelemtState_def run_on_def split_beta)

lemma readTelemtState_result:
  assumes "users_laws env net us T" "readTelemtState env us cfg s = (r, s')"
  shows "table T s' = table T s" "disk (ag s') = disk (ag s)" "resets s' = resets s" "rb s' = rb s"
    "r = Inr (recorded us cfg (disk (ag s))) \<or> r = Inr no_state"
  using assms fault_table [OF assms(1), of "OpenOp (telemtStatePath cfg)" "ag s"]
  by (auto simp: readTelemtState_def Let_def split_beta recorded_def ReadFile_def split: read_result.splits option.splits)

lemma reset_quota_result:
  assumes laws: "users_laws env net us T" and r: "reset_quota env us cfg d st s = (Inr st', s')"
  shows "table T s' = table T s" "SecretHashes st' = SecretHashes st" "LimitHashes st' = LimitHashes st"
proof -
  obtain w s1 where 1: "api_ResetQuota us (d_name d) (world (ag s)) = (Inr (), w)"
    "writeTelemtState env us cfg st' s1 = (Inr (), s')" "world (ag s1) = w"
    "st' = st\<lparr>QuotaResets := AList.update (d_name d) (d_quotaReset d) (QuotaResets st)\<rparr>"
    using r by (fastforce simp: reset_quota_def Let_def call_cases elim!: bindE_Inr)
  show "table T s' = table T s"
    using writeTelemtState_table [OF laws 1(2)] law_reset [OF laws 1(1)] 1(3) by simp
  show "SecretHashes st' = SecretHashes st" "LimitHashes st' = LimitHashes st" by (simp_all add: 1(4))
qed

lemma truthfulD:
  assumes "truthful env us U st" "U n = Some (s, p)"
  shows "map_of (SecretHashes st) n = Some h \<Longrightarrow> h = secretFingerprint env s"
    and "map_of (LimitHashes st) n = Some h \<Longrightarrow> \<exists>q. h = fingerprint env us q \<and> same_policy us p q"
  using assms by (auto simp: truthful_def)

lemma patch_user_result:
  assumes laws: "users_laws env net us T" "collision_free env us"
    and truth: "truthful env us U st" "U (d_name d) = Some (sec, p)" "table T s (d_name d) = Some (sec, p)"
    and r: "patch_user env us d (user_view (d_name d) p) st s = (Inr b, s')"
  shows "\<exists>q. table T s' = (table T s)(d_name d \<mapsto> (d_secret d, q)) \<and> same_policy us q (d_policy d)"
proof -
  let ?n = "d_name d"
  define sc where "sc \<longleftrightarrow> map_of (SecretHashes st) ?n \<noteq> Some (secretFingerprint env (d_secret d))"
  define pc where "pc \<longleftrightarrow> (case map_of (LimitHashes st) ?n of None \<Rightarrow> \<not> policy_matches us (d_policy d) (user_view ?n p)
    | Some prev \<Rightarrow> prev \<noteq> fingerprint env us (d_policy d))"
  have same_secret: "sec = d_secret d" if "\<not> sc"
    using that truthfulD(1) [OF truth(1,2)] collision_freeD(1) [OF laws(2)] by (auto simp: sc_def)
  have same_pol: "same_policy us p (d_policy d)" if "\<not> pc"
  proof (cases "map_of (LimitHashes st) ?n")
    case None
    then show ?thesis using that policy_matches_same by (simp add: pc_def)
  next
    case (Some prev)
    then obtain q where "prev = fingerprint env us q" "same_policy us p q" using truthfulD(2) [OF truth(1,2)] by blast
    then show ?thesis using that Some collision_freeD(2) [OF laws(2)] by (simp add: pc_def)
  qed
  show ?thesis
  proof (cases "sc \<or> pc")
    case False
    then have "s' = s" using r by (simp add: patch_user_def Let_def sc_def [symmetric] pc_def [symmetric])
    then show ?thesis using same_secret same_pol False truth(3) by (auto intro!: exI [of _ p] simp: fun_upd_idem_iff)
  next
    case True
    then obtain w where w: "api_PatchUser us ?n (patchRequest (d_policy d) (if sc then Some (d_secret d) else None)) (world (ag s)) = (Inr (), w)"
      "world (ag s') = w"
      using r by (fastforce simp: patch_user_def Let_def sc_def [symmetric] pc_def [symmetric] call_cases elim!: bindE_Inr)
    obtain x y where "table T s ?n = Some (x, y)" "T w = (table T s)(?n \<mapsto> (case PU_Secret (patchRequest (d_policy d) (if sc then Some (d_secret d) else None)) of None \<Rightarrow> x | Some z \<Rightarrow> z, d_policy d))"
      using law_patch [OF laws(1) w(1)] by auto
    then show ?thesis using w(2) same_secret truth(3) by (auto simp: patchRequest_def)
  qed
qed

lemma user_step_result:
  assumes laws: "users_laws env net us T" "collision_free env us"
    and truth: "truthful env us U st" "table T s (d_name d) = U (d_name d)"
    and ex: "existing (d_name d) = map_option (\<lambda>(sec, p). user_view (d_name d) p) (U (d_name d))"
    and r: "user_step env us cfg existing d (st, ch) s = (Inr (st', ch'), s')"
  shows "(\<exists>q. table T s' = (table T s)(d_name d \<mapsto> (d_secret d, q)) \<and> same_policy us q (d_policy d)) \<and>
    SecretHashes st' = SecretHashes st \<and> LimitHashes st' = LimitHashes st"
proof (cases "U (d_name d)")
  case None
  then obtain w where "api_CreateUser us (createRequest (d_policy d) (d_name d) (d_secret d)) (world (ag s)) = (Inr (), w)"
    "world (ag s') = w" "st' = st"
    using r ex by (fastforce simp: user_step_def call_cases elim!: bindE_Inr)
  then show ?thesis using law_create [OF laws(1)] by (auto simp: createRequest_def create_policy_request [unfolded createRequest_def])
next
  case (Some v)
  obtain sec p where v: "v = (sec, p)" by fastforce
  obtain s1 b where s1: "table T s1 = table T s" "SecretHashes st' = SecretHashes st" "LimitHashes st' = LimitHashes st"
    and p1: "patch_user env us d (user_view (d_name d) p) st' s1 = (Inr b, s')"
  proof -
    obtain s1 b where r1: "patch_user env us d (user_view (d_name d) p) st' s1 = (Inr b, s')"
      and r0: "st' = st \<and> s1 = s \<or> reset_quota env us cfg d st s = (Inr st', s1)"
      using r ex Some v by (auto simp: user_step_def elim!: bindE_Inr split: option.splits if_splits)
    from r0 show thesis using that [OF _ _ _ r1] reset_quota_result [OF laws(1)] by blast
  qed
  have "truthful env us U st'" using truth(1) s1(2,3) by (simp add: truthful_def)
  from patch_user_result [OF laws this _ _ p1, of sec] show ?thesis using s1 truth(2) Some v by simp
qed

lemma users_loop_result:
  assumes laws: "users_laws env net us T" "collision_free env us" and truth: "truthful env us U st"
    and ex: "\<And>n. existing n = map_option (\<lambda>(sec, p). user_view n p) (U n)"
    and "distinct (map d_name ds)" "\<And>d. d \<in> set ds \<Longrightarrow> table T s (d_name d) = U (d_name d)"
    and "users_loop env us cfg existing ds (st, ch) s = (Inr (st', ch'), s')"
  shows "(\<forall>d \<in> set ds. served us (table T s') d) \<and> (\<forall>n. n \<notin> d_name ` set ds \<longrightarrow> table T s' n = table T s n)"
  using truth assms(5-)
proof (induction ds arbitrary: st ch s)
  case (Cons d ds)
  obtain st1 ch1 s1 where 1: "user_step env us cfg existing d (st, ch) s = (Inr (st1, ch1), s1)"
    and 2: "users_loop env us cfg existing ds (st1, ch1) s1 = (Inr (st', ch'), s')"
    using Cons.prems(4) by (auto elim!: bindE_Inr)
  have "table T s (d_name d) = U (d_name d)" using Cons.prems(3) by simp
  from user_step_result [OF laws Cons.prems(1) this ex 1] obtain q where
    q: "table T s1 = (table T s)(d_name d \<mapsto> (d_secret d, q))" "same_policy us q (d_policy d)"
    and st1: "SecretHashes st1 = SecretHashes st" "LimitHashes st1 = LimitHashes st" by blast
  have "truthful env us U st1" using Cons.prems(1) st1 by (simp add: truthful_def)
  moreover have "table T s1 (d_name e) = U (d_name e)" if "e \<in> set ds" for e
  proof -
    have "d_name e \<noteq> d_name d" using Cons.prems(2) that by (metis distinct.simps(2) image_eqI list.simps(9) set_map)
    then show ?thesis using Cons.prems(3) that q(1) by simp
  qed
  ultimately have IH: "\<forall>d \<in> set ds. served us (table T s') d" "\<forall>n. n \<notin> d_name ` set ds \<longrightarrow> table T s' n = table T s1 n"
    using Cons.IH [OF _ _ _ 2] Cons.prems(2) by auto
  have "served us (table T s') d" using IH(2) q Cons.prems(2) by (auto simp: served_def)
  then show ?case using IH q(1) by auto
qed simp

lemma delete_loop_result:
  assumes laws: "users_laws env net us T" and "delete_loop us wanted l ch s = (Inr ch', s')"
  shows "table T s' = (\<lambda>n. if n \<in> Us_Username ` set l \<and> n \<notin> set wanted then None else table T s n)"
  using assms(2)
proof (induction l arbitrary: s ch)
  case (Cons u l)
  show ?case
  proof (cases "Us_Username u \<in> set wanted")
    case True
    then show ?thesis using Cons by auto
  next
    case False
    then obtain w g where w: "api_DeleteUser us (Us_Username u) (world (ag s)) = (Inr (), w)"
      "delete_loop us wanted l True (to_world s w\<lparr>rb := g\<rparr>) = (Inr ch', s')"
      using Cons.prems by (auto simp: call_cases elim!: bindE_Inr)
    then show ?thesis using Cons.IH [OF w(2)] law_delete [OF laws w(1)] False by (auto simp: fun_eq_iff)
  qed
qed simp

lemma update_profiles_table:
  assumes "users_laws env net us T" "update_profiles net vhosts idx ds s = (Inr x, s')"
  shows "table T s' = table T s"
proof (cases "arr (field (obj (vhosts ! idx)) ''profiles'') = map profile_entry ds")
  case True
  then show ?thesis using assms(2) by (simp add: update_profiles_def)
next
  case False
  then obtain patch out w where "api_PatchConfig net patch False (world (ag s)) = (Inr out, w)" "world (ag s') = w"
    using assms(2) by (auto simp: update_profiles_def call_cases split: sum.splits elim!: bindE_Inr)
  then show ?thesis using law_patch_config [OF assms(1)] by simp
qed

lemma existing_users_result:
  assumes "distinct (map Us_Username l)" "\<forall>u. u \<in> set l \<longleftrightarrow> (\<exists>n s p. U n = Some (s, p) \<and> u = user_view n p)"
  shows "existing_users l n = map_option (\<lambda>(s, p). user_view n p) (U n)"
proof -
  have name: "Us_Username (user_view m p) = m" for m p by (simp add: user_view_def)
  let ?kv = "rev (map (\<lambda>u. (Us_Username u, u)) l)"
  have d: "distinct (map fst ?kv)" using assms(1) by (simp add: comp_def rev_map [symmetric])
  show ?thesis
  proof (cases "U n")
    case None
    then have "n \<notin> Us_Username ` set l" using assms(2) name by fastforce
    then have "map_of ?kv n = None" by (simp add: map_of_eq_None_iff image_image)
    then show ?thesis using None by (simp add: existing_users_def)
  next
    case (Some v)
    then have "user_view n (snd v) \<in> set l" using assms(2) by (cases v) auto
    then have "(n, user_view n (snd v)) \<in> set ?kv" using name [of n "snd v"] by (simp add: image_iff)
    then have "map_of ?kv n = Some (user_view n (snd v))" using d by simp
    then show ?thesis using Some by (simp add: existing_users_def split_beta)
  qed
qed

subsection \<open>The record of fingerprints\<close>

definition disk_works :: "'w node_env \<Rightarrow> bool" where
  "disk_works env \<longleftrightarrow> (\<forall>op w. fst (io_fault env op w) = None)"

definition state_codec :: "'w users_env \<Rightarrow> bool" where
  "state_codec us \<longleftrightarrow> (\<forall>st. dec_state us (enc_state us st) = Some st)"

lemma fault_works: "disk_works env \<Longrightarrow> fst (fault env op a) = None"
  by (simp add: disk_works_def outside_def split_beta)

lemma writeAtomic_works:
  assumes "disk_works env"
  shows "fst (writeAtomic env p b a) = None"
  using assms by (simp add: writeAtomic_def Let_def split_beta fault_works)

lemma writeTelemtState_works:
  assumes "disk_works env" "writeTelemtState env us cfg st s = (r, s')"
  shows "r = Inr ()" "disk (ag s') = (disk (ag s))(telemtStatePath cfg \<mapsto> enc_state us st)"
proof -
  obtain a1 where 1: "fault env (MkdirOp (StateDir cfg)) (ag s) = (None, a1)"
    using fault_works [OF assms(1)] by (metis prod.collapse)
  have d: "disk a1 = disk (ag s)" using outside_pair [OF 1] by simp
  have "saveTelemtState env us cfg st (ag s) = writeAtomic env (telemtStatePath cfg) (enc_state us st) a1"
    using 1 by (simp add: saveTelemtState_def)
  then show "r = Inr ()" "disk (ag s') = (disk (ag s))(telemtStatePath cfg \<mapsto> enc_state us st)"
    using assms(2) writeAtomic_works [OF assms(1), of "telemtStatePath cfg" "enc_state us st" a1] writeAtomic_ok [of env "telemtStatePath cfg" "enc_state us st" a1] d
    by (auto simp: writeTelemtState_def run_on_def split_beta)
qed

lemma readTelemtState_works:
  "disk_works env \<Longrightarrow> readTelemtState env us cfg s = (r, s') \<Longrightarrow> r = Inr (recorded us cfg (disk (ag s)))"
  by (auto simp: readTelemtState_def Let_def split_beta recorded_def ReadFile_def fault_works split: option.splits)

lemma recorded_written [simp]:
  "state_codec us \<Longrightarrow> recorded us cfg (d(telemtStatePath cfg \<mapsto> enc_state us st)) = st"
  by (simp add: recorded_def state_codec_def)

lemma recorded_cong: "d (telemtStatePath cfg) = d' (telemtStatePath cfg) \<Longrightarrow> recorded us cfg d = recorded us cfg d'"
  by (simp add: recorded_def)

text \<open>A step that reports no change has made no call.\<close>

lemma patch_user_unchanged: "patch_user env us d u st s = (Inr False, s') \<Longrightarrow> s' = s"
  by (auto simp: patch_user_def Let_def split: if_splits elim!: bindE_Inr)

lemma user_step_unchanged: "user_step env us cfg ex d (st, ch) s = (Inr (st', False), s') \<Longrightarrow> s' = s \<and> \<not> ch \<and> st' = st"
  by (auto simp: user_step_def split: option.splits if_splits dest!: patch_user_unchanged elim!: bindE_Inr)

lemma users_loop_unchanged: "users_loop env us cfg ex ds (st, ch) s = (Inr (st', False), s') \<Longrightarrow> s' = s \<and> \<not> ch \<and> st' = st"
proof (induction ds arbitrary: st ch s)
  case (Cons d ds)
  then show ?case using user_step_unchanged by (fastforce elim!: bindE_Inr)
qed simp

lemma delete_loop_unchanged: "delete_loop us wanted l ch s = (Inr False, s') \<Longrightarrow> s' = s \<and> \<not> ch"
  by (induction l arbitrary: ch s) (auto split: if_splits elim!: bindE_Inr)

lemma update_profiles_unchanged: "update_profiles net vhosts idx ds s = (Inr (False, b), s') \<Longrightarrow> s' = s"
  by (auto simp: update_profiles_def split: if_splits sum.splits elim!: bindE_Inr)

lemma record_state_result:
  assumes laws: "users_laws env net us T" and r: "record_state env us cfg due st s = (Inr u, s')"
  shows "table T s' = table T s" "\<not> due \<Longrightarrow> s' = s"
    "due \<Longrightarrow> disk_works env \<Longrightarrow> disk (ag s') = (disk (ag s))(telemtStatePath cfg \<mapsto> enc_state us st)"
proof -
  obtain q t where w: "writeTelemtState env us cfg st s = (q, t)" by fastforce
  show "table T s' = table T s" using r writeTelemtState_table [OF laws w] w by (auto simp: record_state_def split: if_splits)
  show "\<not> due \<Longrightarrow> s' = s" using r by (simp add: record_state_def)
  show "due \<Longrightarrow> disk_works env \<Longrightarrow> disk (ag s') = (disk (ag s))(telemtStatePath cfg \<mapsto> enc_state us st)"
    using r writeTelemtState_works(2) [OF _ w] w by (simp add: record_state_def)
qed

lemma truthful_next:
  assumes "distinct (map d_name ds)" "\<forall>d \<in> set ds. served us U d" "\<forall>n. n \<notin> d_name ` set ds \<longrightarrow> U n = None"
  shows "truthful env us U (next_state env us ds)"
proof -
  have look: "\<exists>d \<in> set ds. d_name d = n \<and> v = f d" if "map_of (rev (map (\<lambda>d. (d_name d, f d)) ds)) n = Some v" for n v and f :: "_ \<Rightarrow> string"
    using map_of_SomeD [OF that] by auto
  have uniq: "d = e" if "d \<in> set ds" "e \<in> set ds" "d_name d = d_name e" for d e
    using assms(1) that by (auto simp: distinct_map dest: inj_onD)
  show ?thesis unfolding truthful_def
  proof (intro allI impI conjI)
    fix n s p h assume U: "U n = Some (s, p)"
    then have "n \<in> d_name ` set ds" using assms(3) by (metis option.discI)
    then obtain d where d: "d \<in> set ds" "d_name d = n" by blast
    with assms(2) U have sv: "s = d_secret d" "same_policy us p (d_policy d)" by (auto simp: served_def)
    show "h = secretFingerprint env s" if "map_of (SecretHashes (next_state env us ds)) n = Some h"
      using look [of "\<lambda>d. secretFingerprint env (d_secret d)" n h] that d uniq sv by (auto simp: next_state_def)
    show "\<exists>q. h = fingerprint env us q \<and> same_policy us p q" if "map_of (LimitHashes (next_state env us ds)) n = Some h"
      using look [of "\<lambda>d. fingerprint env us (d_policy d)" n h] that d uniq sv by (auto simp: next_state_def)
  qed
qed

subsection \<open>The whole reconciliation\<close>

lemma reconcile_parts:
  assumes laws: "users_laws env net us T" and r: "reconcileTelemtUsers env net us cfg ds host s = (Inr v, s')"
  obtains users vhosts idx s0 where "table T s0 = table T s" "disk (ag s0) = disk (ag s)" "distinct (map Us_Username users)"
    "\<forall>u. u \<in> set users \<longleftrightarrow> (\<exists>n x p. table T s n = Some (x, p) \<and> u = user_view n p)"
    "reconcile_with env net us cfg ds host users vhosts idx s0 = (Inr v, s')"
proof -
  obtain users conf vhosts idx w1 w2 where 1: "api_ListUsers us (world (ag s)) = (Inr users, w1)" "api_GetConfig net w1 = (Inr conf, w2)"
    "reconcile_with env net us cfg ds host users vhosts idx (to_world s w2) = (Inr v, s')"
    using r by (fastforce simp: reconcileTelemtUsers_def call_cases split: sum.splits elim!: bindE_Inr)
  show ?thesis
    using that [OF _ _ _ _ 1(3)] law_list [OF laws 1(1)] law_config [OF laws 1(2)] by simp
qed

lemma reconcile_converges:
  assumes laws: "users_laws env net us T" "collision_free env us"
    and truth: "truthful env us (table T s) (recorded us cfg (disk (ag s)))" and dist: "distinct (map d_name ds)"
    and r: "reconcileTelemtUsers env net us cfg ds [] s = (Inr v, s')"
  shows "(\<forall>d \<in> set ds. served us (table T s') d) \<and> (\<forall>n. n \<notin> d_name ` set ds \<longrightarrow> table T s' n = None)"
    "disk_works env \<Longrightarrow> state_codec us \<Longrightarrow> truthful env us (table T s') (recorded us cfg (disk (ag s')))"
proof -
  obtain users vhosts idx s0 where s0: "table T s0 = table T s" "disk (ag s0) = disk (ag s)" "distinct (map Us_Username users)"
    and users: "\<forall>u. u \<in> set users \<longleftrightarrow> (\<exists>n x p. table T s n = Some (x, p) \<and> u = user_view n p)"
    and w: "reconcile_with env net us cfg ds [] users vhosts idx s0 = (Inr v, s')"
    by (rule reconcile_parts [OF laws(1) r])
  obtain st s1 st' ch s2 moved rl s3 ch' s4 where
    1: "readTelemtState env us cfg s0 = (Inr st, s1)"
    and 2: "users_loop env us cfg (existing_users users) ds (st, False) s1 = (Inr (st', ch), s2)"
    and 3: "update_profiles net vhosts idx ds s2 = (Inr (moved, rl), s3)"
    and 4: "delete_loop us (map d_name ds) users (ch \<or> moved) s3 = (Inr ch', s4)"
    and 5: "record_state env us cfg (ch' \<or> state_moved st ds) (next_state env us ds) s4 = (Inr (), s')"
    using w by (auto simp: reconcile_with_def elim!: bindE_Inr)
  note r1 = readTelemtState_result [OF laws(1) 1]
  have t1: "table T s1 = table T s" "disk (ag s1) = disk (ag s)" using r1 s0 by simp_all
  have st: "truthful env us (table T s) st" using r1(5) truth s0(2) by auto
  note ex = existing_users_result [OF s0(3) users]
  note r2 = users_loop_result [OF laws st ex dist _ 2]
  have t2: "\<forall>d \<in> set ds. served us (table T s2) d" "\<forall>n. n \<notin> d_name ` set ds \<longrightarrow> table T s2 n = table T s n"
    using r2 t1 by auto
  have t4: "table T s4 = (\<lambda>n. if n \<in> Us_Username ` set users \<and> n \<notin> d_name ` set ds then None else table T s2 n)"
    using delete_loop_result [OF laws(1) 4] update_profiles_table [OF laws(1) 3] by (simp add: fun_eq_iff)
  note t5 = record_state_result [OF laws(1) 5]
  have listed: "n \<in> Us_Username ` set users" if "table T s n = Some v" for n v
  proof -
    have "user_view n (snd v) \<in> set users" using users that by (cases v) auto
    then show ?thesis by (force simp: user_view_def)
  qed
  have gone: "table T s' n = None" if "n \<notin> d_name ` set ds" for n
    using that t2(2) t4 t5(1) listed [of n] by (cases "table T s n") auto
  have kept: "served us (table T s') d" if "d \<in> set ds" for d
    using that t2(1) t4 t5(1) by (auto simp: served_def)
  show *: "(\<forall>d \<in> set ds. served us (table T s') d) \<and> (\<forall>n. n \<notin> d_name ` set ds \<longrightarrow> table T s' n = None)"
    using kept gone by blast
  show "truthful env us (table T s') (recorded us cfg (disk (ag s')))" if works: "disk_works env" "state_codec us"
  proof (cases "ch' \<or> state_moved st ds")
    case True
    then have "recorded us cfg (disk (ag s')) = next_state env us ds" using t5(3) works by simp
    then show ?thesis using truthful_next [OF dist, of us "table T s'" env] * by simp
  next
    case False
    then have "s' = s1"
      using t5(2) delete_loop_unchanged [of us "map d_name ds" users "ch \<or> moved" s3 s4] 4
        update_profiles_unchanged [of net vhosts idx ds s2 rl s3] 3
        users_loop_unchanged [of env us cfg "existing_users users" ds st False s1 st' s2] 2 by auto
    then show ?thesis using truth t1 by simp
  qed
qed

subsection \<open>Quota periods\<close>

text \<open>\<open>quiet\<close> steps touch neither the files nor the log of resets.\<close>

definition quiet :: "('a, 'w applying) step \<Rightarrow> bool" where
  "quiet m \<longleftrightarrow> (\<forall>s. disk (ag (snd (m s))) = disk (ag s) \<and> resets (snd (m s)) = resets s)"

named_theorems quiets \<open>quiet steps\<close>

lemma quietD: "quiet m \<Longrightarrow> m s = (r, s') \<Longrightarrow> disk (ag s') = disk (ag s) \<and> resets s' = resets s"
  unfolding quiet_def by (metis snd_conv)

lemma quiet_basic [quiets]: "quiet (returnE x)" "quiet (failE e)" "quiet (on_rb f)" "quiet (call g)" "quiet (guardE v)"
  by (auto simp: quiet_def returnE_def failE_def on_rb_def modifyE_def call_def outside_def guardE_def split_beta split: option.splits)

lemma quiet_bindE [quiets]: "quiet m \<Longrightarrow> (\<And>x. quiet (f x)) \<Longrightarrow> quiet (bindE m f)"
  unfolding quiet_def bindE_def by (auto split: prod.splits sum.splits) (metis snd_conv)+

lemma quiet_wrapE [quiets]: "quiet m \<Longrightarrow> quiet (wrapE p m)"
  unfolding quiet_def wrapE_def by (auto split: prod.splits sum.splits) (metis snd_conv)+

lemma quiet_read [quiets]: "quiet (readTelemtState env us cfg)"
  by (simp add: quiet_def readTelemtState_def Let_def split_beta)

lemma quiet_patch [quiets]: "quiet (patch_user env us d u st)"
  by (simp add: patch_user_def Let_def quiets)

lemma quiet_profiles [quiets]: "quiet (update_profiles net vhosts idx ds)"
  by (auto simp: update_profiles_def quiets split: sum.splits)

lemma quiet_delete [quiets]: "quiet (delete_loop us wanted l ch)"
  by (induction l arbitrary: ch) (simp_all add: quiets)

definition once :: "(string \<times> int) list \<Rightarrow> bool" where
  "once R \<longleftrightarrow> sorted_wrt (\<lambda>a b. fst a = fst b \<longrightarrow> snd a < snd b) R"

text \<open>
  \<open>quota_ok P R Q\<close>: the periods on record \<open>Q\<close> are at most those asked for so far, \<open>P\<close>, and at
  least those of the resets made, \<open>R\<close>; the resets of a user are into later and later periods.
\<close>

definition quota_ok :: "(string \<Rightarrow> int) \<Rightarrow> (string \<times> int) list \<Rightarrow> (string \<rightharpoonup> int) \<Rightarrow> bool" where
  "quota_ok P R Q \<longleftrightarrow> (\<forall>n q. Q n = Some q \<longrightarrow> 0 \<le> q \<and> q \<le> P n \<and> (\<forall>x. (n, x) \<in> set R \<longrightarrow> x \<le> q)) \<and>
     (\<forall>n x. (n, x) \<in> set R \<longrightarrow> x \<le> P n) \<and> once R"

lemma quota_ok_reset:
  assumes "quota_ok P R Q" "Q n = Some l" "l < q" "q \<le> P n"
  shows "quota_ok P (R @ [(n, q)]) (Q(n \<mapsto> q))"
proof -
  have "x < q" if "(n, x) \<in> set R" for x using assms(1-3) that by (fastforce simp: quota_ok_def)
  moreover have "0 \<le> l" using assms(1,2) by (simp add: quota_ok_def)
  ultimately show ?thesis
    using assms(1,3,4) by (fastforce simp: quota_ok_def once_def sorted_wrt_append less_imp_le)
qed

lemma quota_ok_mono:
  assumes "quota_ok P R Q" "\<And>n. P n \<le> P' n"
  shows "quota_ok P' R Q"
  using assms unfolding quota_ok_def by (meson order_trans)

abbreviation quota_state :: "'w users_env \<Rightarrow> Config \<Rightarrow> (string \<Rightarrow> int) \<Rightarrow> 'w applying \<Rightarrow> bool" where
  "quota_state us cfg P s \<equiv> quota_ok P (resets s) (map_of (QuotaResets (recorded us cfg (disk (ag s)))))"

lemma reset_quota_state:
  assumes io: "disk_works env" "state_codec us" and ok: "quota_state us cfg P s"
    and st: "QuotaResets st = QuotaResets (recorded us cfg (disk (ag s)))"
    and d: "map_of (QuotaResets st) (d_name d) = Some l" "l < d_quotaReset d" "d_quotaReset d \<le> P (d_name d)"
    and r: "reset_quota env us cfg d st s = (r, s')"
  shows "quota_state us cfg P s'" "r = Inr st' \<Longrightarrow> QuotaResets st' = QuotaResets (recorded us cfg (disk (ag s')))"
proof -
  let ?st = "st\<lparr>QuotaResets := AList.update (d_name d) (d_quotaReset d) (QuotaResets st)\<rparr>"
  obtain c s1 where c: "wrapE (''reset quota of user '' @ d_name d @ '': '') (call (api_ResetQuota us (d_name d))) s = (c, s1)" by fastforce
  have q: "disk (ag s1) = disk (ag s)" "resets s1 = resets s"
    using quietD [OF quiet_wrapE [OF quiet_basic(4)] c] by simp_all
  show "quota_state us cfg P s'" "r = Inr st' \<Longrightarrow> QuotaResets st' = QuotaResets (recorded us cfg (disk (ag s')))"
  proof -
    let ?G = "quota_state us cfg P s' \<and> (\<forall>st'. r = Inr st' \<longrightarrow> QuotaResets st' = QuotaResets (recorded us cfg (disk (ag s'))))"
    have ?G
    proof (cases c)
      case (Inl e)
      then have "s' = s1" "\<forall>x. r \<noteq> Inr x" using r c by (auto simp: reset_quota_def Let_def elim!: bindE_cases)
      then show ?thesis using ok q by simp
    next
      case (Inr u)
      define s2 where "s2 = s1\<lparr>resets := resets s1 @ [(d_name d, d_quotaReset d)],
        rb := (rb s1)\<lparr>irreversible := irreversible (rb s1) @ [''quota reset of user '' @ d_name d]\<rparr>\<rparr>"
      obtain v s3 where w: "writeTelemtState env us cfg ?st s2 = (v, s3)" by fastforce
      note works = writeTelemtState_works [OF io(1) w]
      have res: "resets s3 = resets s2" using w by (auto simp: writeTelemtState_def run_on_def split_beta)
      have "s' = s3" "r = Inr ?st"
        using r c Inr w works(1)
        by (auto simp: reset_quota_def Let_def bindE_def wrapE_def on_rb_def modifyE_def returnE_def s2_def)
      moreover have "recorded us cfg (disk (ag s3)) = ?st" using works(2) io(2) by simp
      moreover have "quota_ok P (resets s @ [(d_name d, d_quotaReset d)]) ((map_of (QuotaResets st))(d_name d \<mapsto> d_quotaReset d))"
        using quota_ok_reset [OF ok [folded st] d] .
      ultimately show ?thesis using res q by (simp add: s2_def update_conv')
    qed
    then show "quota_state us cfg P s'" "r = Inr st' \<Longrightarrow> QuotaResets st' = QuotaResets (recorded us cfg (disk (ag s')))" by auto
  qed
qed

lemma user_step_state:
  assumes io: "disk_works env" "state_codec us" and ok: "quota_state us cfg P s"
    and st: "QuotaResets st = QuotaResets (recorded us cfg (disk (ag s)))"
    and d: "d_quotaReset d \<noteq> 0 \<Longrightarrow> d_quotaReset d \<le> P (d_name d)"
    and r: "user_step env us cfg existing d (st, ch) s = (r, s')"
  shows "quota_state us cfg P s' \<and> (\<forall>st' ch'. r = Inr (st', ch') \<longrightarrow> QuotaResets st' = QuotaResets (recorded us cfg (disk (ag s'))))"
proof (cases "existing (d_name d)")
  case None
  then have "user_step env us cfg existing d (st, ch) = bindE (call (api_CreateUser us (createRequest (d_policy d) (d_name d) (d_secret d)))) (\<lambda>_.
      bindE (on_rb (\<lambda>r. r\<lparr>created := created r @ [d_name d]\<rparr>)) (\<lambda>_. returnE (st, True)))"
    by (simp add: user_step_def)
  moreover from this have "quiet (user_step env us cfg existing d (st, ch))" by (simp add: quiets)
  moreover have "st' = st" if "r = Inr (st', ch')" for st' ch' using r that calculation(1) by (auto elim!: bindE_Inr)
  ultimately show ?thesis using quietD [where m = "user_step env us cfg existing d (st, ch)", OF _ r] ok st by auto
next
  case (Some u)
  define reset where "reset \<longleftrightarrow> (\<exists>l. map_of (QuotaResets st) (d_name d) = Some l \<and> l < d_quotaReset d)"
  define m :: "(telemtState \<times> bool, 'a applying) step"
    where "m = (if reset then bindE (reset_quota env us cfg d st) (\<lambda>st'. returnE (st', True)) else returnE (st, ch))"
  have step: "user_step env us cfg existing d (st, ch) = bindE m (\<lambda>(st', ch'). bindE (patch_user env us d u st') (\<lambda>b. returnE (st', ch' \<or> b)))"
    using Some by (auto simp: user_step_def m_def reset_def split: option.splits)
  obtain q s1 where q: "m s = (q, s1)" by fastforce
  have s1: "quota_state us cfg P s1 \<and> (\<forall>st' ch'. q = Inr (st', ch') \<longrightarrow> QuotaResets st' = QuotaResets (recorded us cfg (disk (ag s1))))"
  proof (cases reset)
    case False
    then show ?thesis using q ok st by (auto simp: m_def)
  next
    case True
    then obtain l where l: "map_of (QuotaResets st) (d_name d) = Some l" "l < d_quotaReset d" by (auto simp: reset_def)
    have "0 \<le> l" using ok l(1) st by (simp add: quota_ok_def)
    then have "d_quotaReset d \<le> P (d_name d)" using d l(2) by simp
    note * = reset_quota_state [OF io ok st l this]
    show ?thesis using q True by (auto simp: m_def elim!: bindE_cases dest: *)
  qed
  from r [unfolded step] show ?thesis
  proof (cases rule: bindE_cases)
    case (1 e)
    then show ?thesis using s1 q by simp
  next
    case (2 v t)
    obtain st1 ch1 where v: "v = (st1, ch1)" by fastforce
    let ?f = "bindE (patch_user env us d u st1) (\<lambda>b. returnE (st1, ch1 \<or> b))"
    have f: "?f s1 = (r, s')" using 2 q v by simp
    moreover have "disk (ag s') = disk (ag s1) \<and> resets s' = resets s1"
      by (rule quietD [where m = ?f, OF _ f]) (simp add: quiets)
    moreover have "\<forall>st' ch'. r = Inr (st', ch') \<longrightarrow> st' = st1" using f by (auto elim!: bindE_Inr)
    moreover have "q = Inr (st1, ch1)" using q 2(1) v by simp
    ultimately show ?thesis using s1 by (metis (no_types, lifting))
  qed
qed

lemma users_loop_state:
  assumes io: "disk_works env" "state_codec us"
  shows "quota_state us cfg P s \<Longrightarrow> QuotaResets st = QuotaResets (recorded us cfg (disk (ag s))) \<Longrightarrow>
    (\<And>d. d \<in> set ds \<Longrightarrow> d_quotaReset d \<noteq> 0 \<Longrightarrow> d_quotaReset d \<le> P (d_name d)) \<Longrightarrow>
    users_loop env us cfg existing ds (st, ch) s = (r, s') \<Longrightarrow> quota_state us cfg P s'"
proof (induction ds arbitrary: st ch s)
  case (Cons d ds)
  from Cons.prems(4) show ?case
    unfolding users_loop.simps
  proof (cases rule: bindE_cases)
    case (1 e)
    then show ?thesis using user_step_state [OF io Cons.prems(1,2) _ 1(1)] Cons.prems(3) by simp
  next
    case (2 v s1)
    obtain st1 ch1 where v: "v = (st1, ch1)" by fastforce
    have "quota_state us cfg P s1" "QuotaResets st1 = QuotaResets (recorded us cfg (disk (ag s1)))"
      using user_step_state [OF io Cons.prems(1,2) _ 2(1)] Cons.prems(3) v by auto
    from Cons.IH [OF this _ 2(2) [unfolded v]] Cons.prems(3) show ?thesis by simp
  qed
qed simp

definition periods_after :: "telemtDesired list \<Rightarrow> (string \<Rightarrow> int) \<Rightarrow> string \<Rightarrow> int" where
  "periods_after ds P n = (case find (\<lambda>d. d_name d = n \<and> d_quotaReset d \<noteq> 0) ds of Some d \<Rightarrow> d_quotaReset d | None \<Rightarrow> P n)"

lemma periods_after_wanted:
  assumes "distinct (map d_name ds)" "d \<in> set ds" "d_quotaReset d \<noteq> 0"
  shows "periods_after ds P (d_name d) = d_quotaReset d"
proof (cases "find (\<lambda>e. d_name e = d_name d \<and> d_quotaReset e \<noteq> 0) ds")
  case None
  then show ?thesis using assms(2,3) by (auto simp: find_None_iff)
next
  case (Some e)
  then have "e \<in> set ds" "d_name e = d_name d" by (auto simp: find_Some_iff)
  then have "e = d" using assms(1,2) by (auto simp: distinct_map dest: inj_onD)
  then show ?thesis using Some by (simp add: periods_after_def)
qed

lemma periods_after_mono:
  assumes "\<forall>d \<in> set ds. d_quotaReset d \<noteq> 0 \<longrightarrow> P (d_name d) \<le> d_quotaReset d"
  shows "P n \<le> periods_after ds P n"
  using assms by (auto simp: periods_after_def find_Some_iff split: option.splits)

lemma next_state_quota:
  assumes ok: "quota_ok (periods_after ds P) R Q" and dist: "distinct (map d_name ds)" and pos: "\<forall>d \<in> set ds. 0 \<le> d_quotaReset d"
  shows "quota_ok (periods_after ds P) R (map_of (QuotaResets (next_state env us ds)))"
proof -
  have "0 \<le> q \<and> q = periods_after ds P n" if "map_of (QuotaResets (next_state env us ds)) n = Some q" for n q
  proof -
    from that have "(n, q) \<in> set (map (\<lambda>d. (d_name d, d_quotaReset d)) (filter (\<lambda>d. d_quotaReset d \<noteq> 0) ds))"
      by (auto simp: next_state_def dest!: map_of_SomeD)
    then obtain d where "d \<in> set ds" "d_quotaReset d \<noteq> 0" "n = d_name d" "q = d_quotaReset d" by auto
    then show ?thesis using periods_after_wanted [OF dist] pos by simp
  qed
  then show ?thesis using ok unfolding quota_ok_def by fastforce
qed

lemma reconcile_with_state:
  assumes io: "disk_works env" "state_codec us" and ok: "quota_state us cfg P s"
    and dist: "distinct (map d_name ds)" and pos: "\<forall>d \<in> set ds. 0 \<le> d_quotaReset d"
    and fwd: "\<forall>d \<in> set ds. d_quotaReset d \<noteq> 0 \<longrightarrow> P (d_name d) \<le> d_quotaReset d"
    and r: "reconcile_with env net us cfg ds host users vhosts idx s = (r, s')"
  shows "quota_state us cfg (periods_after ds P) s'"
proof -
  let ?P = "periods_after ds P"
  obtain st s1 where 1: "readTelemtState env us cfg s = (Inr st, s1)" by (auto simp: readTelemtState_def Let_def split_beta)
  have st: "st = recorded us cfg (disk (ag s))" using readTelemtState_works [OF io(1) 1] by simp
  have s1: "disk (ag s1) = disk (ag s)" "resets s1 = resets s" using quietD [OF quiet_read 1] by simp_all
  have ok1: "quota_state us cfg ?P s1" using quota_ok_mono [OF ok] periods_after_mono [OF fwd] s1 by simp
  obtain q s2 where 2: "users_loop env us cfg (existing_users users) ds (st, False) s1 = (q, s2)" by fastforce
  have ok2: "quota_state us cfg ?P s2"
    by (rule users_loop_state [OF io ok1 _ _ 2]) (use st s1 periods_after_wanted [OF dist] in auto)
  show ?thesis
  proof (cases q)
    case (Inl e)
    then show ?thesis using r 1 2 ok2 by (auto simp: reconcile_with_def bindE_def)
  next
    case (Inr v)
    define rest where "rest = bindE (update_profiles net vhosts idx ds) (\<lambda>(moved, reload).
      bindE (delete_loop us (map d_name ds @ (if host \<noteq> [] then foreign_users vhosts idx else [])) users (snd v \<or> moved)) (\<lambda>ch'.
      returnE (ch', reload)))"
    obtain t s3 where 3: "rest s2 = (t, s3)" by fastforce
    have "quiet rest" by (auto simp: rest_def quiets split_beta)
    then have ok3: "quota_state us cfg ?P s3" using quietD [where m = rest, OF _ 3] ok2 by simp
    have end1: "case t of Inl e \<Rightarrow> s' = s3 | Inr (ch', rl) \<Rightarrow>
        s' = snd (record_state env us cfg (ch' \<or> state_moved st ds) (next_state env us ds) s3)"
      using r 1 2 3 Inr
      by (auto simp: reconcile_with_def rest_def bindE_def returnE_def record_state_def split: prod.splits sum.splits if_splits)
    have "quota_state us cfg ?P (snd (record_state env us cfg b (next_state env us ds) s3))" for b
    proof -
      obtain w s4 where w: "writeTelemtState env us cfg (next_state env us ds) s3 = (w, s4)" by fastforce
      have "resets s4 = resets s3" using w by (auto simp: writeTelemtState_def run_on_def split_beta)
      then show ?thesis
        using ok3 writeTelemtState_works(2) [OF io(1) w] io(2) next_state_quota [OF ok3 dist pos, of env us] w
        by (simp add: record_state_def)
    qed
    then show ?thesis using end1 ok3 by (auto split: sum.splits)
  qed
qed

lemma reconcile_state:
  assumes io: "disk_works env" "state_codec us" and ok: "quota_state us cfg P s"
    and ds: "distinct (map d_name ds)" "\<forall>d \<in> set ds. 0 \<le> d_quotaReset d"
      "\<forall>d \<in> set ds. d_quotaReset d \<noteq> 0 \<longrightarrow> P (d_name d) \<le> d_quotaReset d"
    and r: "reconcileTelemtUsers env net us cfg ds host s = (r, s')"
  shows "quota_state us cfg (periods_after ds P) s'"
proof -
  have same: "quota_state us cfg (periods_after ds P) t" if "disk (ag t) = disk (ag s)" "resets t = resets s" for t
    using quota_ok_mono [OF ok] periods_after_mono [OF ds(3)] that by simp
  show ?thesis
  proof (cases "disk (ag s') = disk (ag s) \<and> resets s' = resets s")
    case True
    then show ?thesis using same by blast
  next
    case False
    then obtain w users vhosts idx where "reconcile_with env net us cfg ds host users vhosts idx (to_world s w) = (r, s')"
      using r by (auto simp: reconcileTelemtUsers_def call_cases guardE_def split: sum.splits option.splits elim!: bindE_cases)
    from reconcile_with_state [OF io _ ds this] ok show ?thesis by simp
  qed
qed

end
