(* ===== verification/Agent_Users_Properties.thy ===== *)
theory Agent_Users_Properties
  imports Agent_Users_Safety Agent_Sample
begin

text \<open>
  The properties of applying users to Telemt, and a Telemt that keeps its users in a list for the
  examples.
\<close>

subsection \<open>A Telemt with a list of users\<close>

fun pair_fields :: "(string \<times> string) list \<Rightarrow> string list" where
  "pair_fields [] = []"
| "pair_fields ((a, b) # r) = a # b # pair_fields r"

fun field_pairs :: "string list \<Rightarrow> (string \<times> string) list" where
  "field_pairs (a # b # r) = (a, b) # field_pairs r"
| "field_pairs _ = []"

lemma field_pairs_fields [simp]: "field_pairs (pair_fields ps) = ps"
  by (induction ps rule: pair_fields.induct) simp_all

definition state_text :: "telemtState \<Rightarrow> string" where
  "state_text st = enc_fields [enc_fields (pair_fields (SecretHashes st)), enc_fields (pair_fields (LimitHashes st)),
     enc_fields (pair_fields (map (map_prod id enc_int) (QuotaResets st)))]"

definition read_state :: "string \<Rightarrow> telemtState option" where
  "read_state t =
     (case dec_fields t of
        Some [a, b, c] \<Rightarrow>
          (case (dec_fields a, dec_fields b, dec_fields c) of
             (Some x, Some y, Some z) \<Rightarrow>
               Some \<lparr>SecretHashes = field_pairs x, LimitHashes = field_pairs y, QuotaResets = map (map_prod id dec_int) (field_pairs z)\<rparr>
           | _ \<Rightarrow> None)
      | _ \<Rightarrow> None)"

lemma dec_enc_prod [simp]: "map_prod id dec_int \<circ> map_prod id enc_int = (id :: string \<times> int \<Rightarrow> _)"
  by (simp add: fun_eq_iff)

interpretation statecodec: codec state_text read_state
  by unfold_locales (simp add: state_text_def read_state_def fieldcodec.decodes)

definition policy_as_text :: "telemtPolicy \<Rightarrow> string" where
  "policy_as_text p = enc_fields (map (enc_int \<circ> int) [DataQuotaBytes p, RateLimitUpBps p, RateLimitDownBps p, MaxUniqueIPs p, MaxTCPConns p] @
     [Expiration p, enc_bool (PEnabled p), PAdTag p])"

lemma sample_enc_inj [simp]: "enc_fields a = enc_fields b \<longleftrightarrow> a = b" "enc_int i = enc_int k \<longleftrightarrow> i = k" "enc_bool x = enc_bool y \<longleftrightarrow> x = y"
  using fieldcodec.decodes dec_enc_int dec_enc_bool by (metis option.inject)+

lemma policy_text_inj: "inj policy_as_text"
  by (rule injI, rule telemtPolicy.equality) (simp_all add: policy_as_text_def)

lemmas policy_text_eq [simp] = inj_eq [OF policy_text_inj]

text \<open>The world: the users, and the names Telemt refuses to create.\<close>

type_synonym users_world = "(string \<times> string \<times> telemtPolicy) list \<times> string list"

definition list_users :: "(string \<times> string \<times> telemtPolicy) list \<Rightarrow> User list" where
  "list_users l = map (\<lambda>n. user_view n (snd (the (map_of l n)))) (remdups (map fst l))"

definition list_api :: "users_world users_env" where
  "list_api = \<lparr>api_ListUsers = (\<lambda>w. (Inr (list_users (fst w)), w)),
     api_CreateUser = (\<lambda>r w. if CU_Username r \<in> set (snd w) then (Inl ''refused'', w)
        else (Inr (), AList.update (CU_Username r) (CU_Secret r, create_policy r) (fst w), snd w)),
     api_PatchUser = (\<lambda>n r w. case map_of (fst w) n of
          None \<Rightarrow> (Inl ''not found'', w)
        | Some (s, p) \<Rightarrow> (Inr (), AList.update n (case PU_Secret r of None \<Rightarrow> s | Some x \<Rightarrow> x, patch_policy r p) (fst w), snd w)),
     api_DeleteUser = (\<lambda>n w. (Inr (), AList.delete n (fst w), snd w)), api_ResetQuota = (\<lambda>n w. (Inr (), w)),
     format_rfc3339 = enc_int, parse_rfc3339 = (\<lambda>t. Some (dec_int t)), policy_text = policy_as_text,
     enc_state = state_text, dec_state = read_state\<rparr>"

definition list_conf :: object where
  "list_conf = single ''web'' (JObj (single ''vhosts'' (JArr [JObj (single ''host'' (JStr ''example.org''))])))"

definition list_control :: "users_world control_env" where
  "list_control = \<lparr>sys_is_active = (\<lambda>_ w. (Inr ''active'', w)), ctx_Err = (\<lambda>w. (None, w)),
     api_UpstreamsStats = (\<lambda>w. (Inl ''no statistics'', w)), api_GetConfig = (\<lambda>w. (Inr list_conf, w)),
     api_PatchConfig = (\<lambda>_ _ w. (Inr \<lparr>PC_restart_required = False, PC_process_restart_required = False,
        PC_runtime_reload_required = False, PC_deferred = []\<rparr>, w)),
     socks5_dialer = (\<lambda>_. None), net_dial = (\<lambda>_ _ w. (None, w)), dec_policy = (\<lambda>_. Inr DefaultPolicy)\<rparr>"

definition list_node :: "users_world node_env" where
  "list_node = \<lparr>api_SystemInfo = (\<lambda>w. (Inr ''3.6.0'', w)), api_Capabilities = (\<lambda>w. (Inr sample_caps, w)),
     api_WebStatus = (\<lambda>w. (Inr None, w)), api_WebPause = (\<lambda>w. (None, w)), api_WebResume = (\<lambda>w. (None, w)),
     api_WebDrain = (\<lambda>_ w. (None, w)), api_Ready = (\<lambda>w. (Inr (True, []), w)), sys_restart = (\<lambda>_ w. (None, w)),
     check_decoy = (\<lambda>w. (None, w)), http_get = (\<lambda>_ w. (Inl ''no network'', w)), select_wait = (\<lambda>w. (None, w)),
     past_deadline = (\<lambda>w. (False, w)), io_fault = (\<lambda>_ w. (None, w)), clock = (\<lambda>_. 0), tar_read = (\<lambda>_. ([], None)),
     sha256_hex = (\<lambda>t. t), enc_journal = journal_text, dec_journal = read_journal, enc_recovery = recovery_text,
     dec_recovery = read_recovery, loopback_endpoint = (\<lambda>_. True)\<rparr>"

definition list_table :: "users_world \<Rightarrow> users_table" where
  "list_table w = map_of (fst w)"

lemma list_users_laws:
  "distinct (map Us_Username (list_users l))"
  "u \<in> set (list_users l) \<longleftrightarrow> (\<exists>n s p. map_of l n = Some (s, p) \<and> u = user_view n p)"
proof -
  have "map Us_Username (list_users l) = remdups (map fst l)" by (simp add: list_users_def user_view_def comp_def)
  then show "distinct (map Us_Username (list_users l))" by (simp only: distinct_remdups)
  have "u \<in> set (list_users l) \<longleftrightarrow> (\<exists>n \<in> fst ` set l. u = user_view n (snd (the (map_of l n))))" by (auto simp: list_users_def)
  also have "\<dots> \<longleftrightarrow> (\<exists>n s p. map_of l n = Some (s, p) \<and> u = user_view n p)"
    unfolding dom_map_of_conv_image_fst [symmetric] dom_def by fastforce
  finally show "u \<in> set (list_users l) \<longleftrightarrow> (\<exists>n s p. map_of l n = Some (s, p) \<and> u = user_view n p)" .
qed

lemma list_laws: "users_laws list_node list_control list_api list_table"
  by (auto simp: users_laws_def list_node_def list_control_def list_api_def list_table_def list_users_laws update_conv' delete_conv'
      fun_eq_iff split: if_splits option.splits)

lemma list_collision_free: "collision_free list_node list_api"
  by (simp add: collision_free_def list_node_def list_api_def policy_text_inj inj_def [of "\<lambda>t. t"])

lemma list_disk: "disk_works list_node" "state_codec list_api"
  by (simp_all add: disk_works_def state_codec_def list_node_def list_api_def statecodec.decodes)

definition list_config :: Config where
  "list_config = \<lparr>StateDir = ''/s'', Engine = ''telemt'', TelemtConfigPath = ''/t.toml'', TelemtBin = ''/t'', health_polls = 0,
     drain_polls = (\<lambda>_. 0)\<rparr>"

definition list_start :: "string list \<Rightarrow> users_world applying" where
  "list_start refused = \<lparr>ag = \<lparr>disk = Map.empty, dlog = [], world = ([], refused), maintenance = False, upd = None,
     recoveryPolicy = DefaultPolicy, activeEgress = [], recoveryEvents = [], recoveryLast = 0, recoveryFailures = 0\<rparr>,
     rb = no_rollback, resets = []\<rparr>"

definition list_policy :: "nat \<Rightarrow> telemtPolicy" where
  "list_policy conns = \<lparr>DataQuotaBytes = 9, RateLimitUpBps = 0, RateLimitDownBps = 0, MaxUniqueIPs = 0, MaxTCPConns = conns,
     Expiration = [], PEnabled = True, PAdTag = []\<rparr>"

definition wanted_user :: "string \<Rightarrow> nat \<Rightarrow> int \<Rightarrow> telemtDesired" where
  "wanted_user n conns period = \<lparr>d_name = n, d_secret = n, d_policy = list_policy conns,
     d_webLimits = \<lparr>W_MaxSessions = 0, W_MaxStreams = 0, W_MaxStreamsPerSession = 0\<rparr>, d_quotaReset = period\<rparr>"

text \<open>One apply on that Telemt; the lists of users are looked at only through their entries.\<close>

abbreviation list_apply :: "telemtDesired list \<Rightarrow> users_world applying \<Rightarrow> (string + bool \<times> bool) \<times> users_world applying" where
  "list_apply ds \<equiv> reconcileTelemtUsers list_node list_control list_api list_config ds []"

lemmas apply_eval = reconcileTelemtUsers_def reconcile_with_def bindE_def returnE_def failE_def modifyE_def on_rb_def guardE_def wrapE_def
  call_def outside_def run_on_def Let_def readTelemtState_def ReadFile_def writeTelemtState_def saveTelemtState_def writeAtomic_def set_disk_def
  user_step_def patch_user_def reset_quota_def update_profiles_def record_state_def state_moved_def existing_users_def
  web_limits_error_def WebProfileLimits_Validate_def check_ceiling_def telemtVhosts_def webVhostIndex_def copyVhosts_def
  list_node_def list_control_def list_api_def list_conf_def list_config_def telemtStatePath_def Join_def as_obj_def

lemmas user_eval = wanted_user_def list_policy_def next_state_def secretFingerprint_def fingerprint_def user_view_def list_users_def
  create_policy_def createRequest_def patchRequest_def patch_policy_def patched_def positive_def nonempty_def cleared_def given_def given_text_def

definition alice_only :: "users_world applying" where
  "alice_only = snd (list_apply [wanted_user ''alice'' 1 4] (list_start [''bob'']))"

lemma alice_state:
  "fst (list_apply [wanted_user ''alice'' 1 4] (list_start [''bob''])) = Inr (True, False)"
  "world (ag alice_only) = ([(''alice'', ''alice'', list_policy 1)], [''bob''])" "resets alice_only = []"
  "disk (ag alice_only) ''/s/telemt-users.json'' = Some (state_text
     \<lparr>SecretHashes = [(''alice'', ''alice'')], LimitHashes = [(''alice'', policy_as_text (list_policy 1))], QuotaResets = [(''alice'', 4)]\<rparr>)"
  by (simp_all add: alice_only_def apply_eval user_eval list_start_def no_state_def)

subsection \<open>Properties\<close>



text \<open>
  A history of applies with any profiles, each of them ending well or with any error, on a Telemt
  and a network that may answer anything, as long as the period asked for a user never moves back.
\<close>

inductive quota_run :: "'w node_env \<Rightarrow> 'w control_env \<Rightarrow> 'w users_env \<Rightarrow> Config \<Rightarrow> (string \<Rightarrow> int) \<Rightarrow> 'w applying \<Rightarrow> bool"
  for env net us cfg where
  start: "resets s = [] \<Longrightarrow> recorded us cfg (disk (ag s)) = no_state \<Longrightarrow> quota_run env net us cfg P s"
| apply_users: "quota_run env net us cfg P s \<Longrightarrow> distinct (map d_name ds) \<Longrightarrow>
    \<forall>d \<in> set ds. 0 \<le> d_quotaReset d \<and> (d_quotaReset d \<noteq> 0 \<longrightarrow> P (d_name d) \<le> d_quotaReset d) \<Longrightarrow>
    reconcileTelemtUsers env net us cfg ds host s = (r, s') \<Longrightarrow> quota_run env net us cfg (periods_after ds P) s'"
| elsewhere: "quota_run env net us cfg P s \<Longrightarrow> resets s' = resets s \<Longrightarrow>
    disk (ag s') (telemtStatePath cfg) = disk (ag s) (telemtStatePath cfg) \<Longrightarrow> quota_run env net us cfg P s'"


definition alice_later :: "users_world applying" where
  "alice_later = snd (list_apply [wanted_user ''alice'' 1 7] alice_only)"

lemma read_alice:
  "recorded list_api list_config (disk (ag alice_only)) =
     \<lparr>SecretHashes = [(''alice'', ''alice'')], LimitHashes = [(''alice'', policy_as_text (list_policy 1))], QuotaResets = [(''alice'', 4)]\<rparr>"
  using alice_state(4) by (simp add: recorded_def list_config_def telemtStatePath_def Join_def list_api_def statecodec.decodes)

lemma alice_later_resets: "resets alice_later = [(''alice'', 7)]"
  using alice_state(2-4)
  by (simp add: alice_later_def apply_eval user_eval statecodec.decodes)


text \<open> C34: a change that is taken back after a failed apply stays in force. The record of fingerprints
  is written at the end of a successful apply only, and a user whose wanted fingerprint is on record
  is not looked at. Telemt here holds one user with the limit of one connection, on record; an apply
  that raises the limit to two and adds a second user fails on that second user; the panel then
  wants the first user with its old limit again, the apply succeeds, and Telemt keeps the raised
  limit. \<close>

theorem reverted_limit_is_not_restored:
  "\<exists>e s1 v s2. list_apply [wanted_user ''alice'' 2 4, wanted_user ''bob'' 1 4] alice_only = (Inl e, s1) \<and>
     list_apply [wanted_user ''alice'' 1 4] s1 = (Inr v, s2) \<and>
     table list_table s2 ''alice'' = Some (''alice'', list_policy 2)"
proof -
  let ?s1 = "snd (list_apply [wanted_user ''alice'' 2 4, wanted_user ''bob'' 1 4] alice_only)"
  have 1: "fst (list_apply [wanted_user ''alice'' 2 4, wanted_user ''bob'' 1 4] alice_only) = Inl ''refused''"
    "world (ag ?s1) = ([(''alice'', ''alice'', list_policy 2)], [''bob''])"
    "disk (ag ?s1) ''/s/telemt-users.json'' = disk (ag alice_only) ''/s/telemt-users.json''"
    using alice_state(2-4) by (simp_all add: apply_eval user_eval statecodec.decodes)
  let ?r2 = "list_apply [wanted_user ''alice'' 1 4] ?s1"
  have 2: "fst ?r2 = Inr (True, False)" "world (ag (snd ?r2)) = ([(''alice'', ''alice'', list_policy 2)], [''bob''])"
    using 1(2,3) alice_state(4) by (simp_all add: apply_eval user_eval statecodec.decodes)
  then have "table list_table (snd ?r2) ''alice'' = Some (''alice'', list_policy 2)" by (simp add: list_table_def)
  then show ?thesis using 1(1) 2(1) by (metis prod.collapse)
qed

end
