(* ===== verification/Go_Fields.thy ===== *)
theory Go_Fields
  imports Go_Strings
begin

text \<open>
  \<^verbatim>\<open>strings.Fields\<close> and \<^verbatim>\<open>strconv.Atoi\<close> on byte strings, and what they give on decimal numbers and on
  words of printable characters.
\<close>

subsection \<open>Splitting and reading numbers\<close>

function fields_from :: "string \<Rightarrow> string \<Rightarrow> string list" where
  "fields_from word s =
     (if s = [] then (if word = [] then [] else [word])
      else if space_prefix s = 0 then fields_from (word @ [hd s]) (tl s)
      else (if word = [] then [] else [word]) @ fields_from [] (drop (space_prefix s) s))"
  by pat_completeness auto
termination
  by (relation "measure (length \<circ> snd)") auto

declare fields_from.simps [simp del]

definition Fields :: "string \<Rightarrow> string list" where
  "Fields s = fields_from [] s"

fun digits_value :: "int \<Rightarrow> string \<Rightarrow> int option" where
  "digits_value acc [] = Some acc"
| "digits_value acc (c # s) =
     (if is_digit c then digits_value (10 * acc + int (of_char c) - 48) s else None)"

text \<open>\<^verbatim>\<open>strconv.Atoi\<close>: an optional sign, at least one digit, and a value that fits 64 bits.\<close>

definition Atoi :: "string \<Rightarrow> int option" where
  "Atoi s =
     (let (neg, ds) = (case s of c # t \<Rightarrow> if c = CHR ''-'' then (True, t) else if c = CHR ''+'' then (False, t) else (False, s)
                              | [] \<Rightarrow> (False, []))
      in if ds = [] then None
         else case digits_value 0 ds of
                None \<Rightarrow> None
              | Some n \<Rightarrow> (let v = if neg then - n else n
                          in if v < - (2 ^ 63) \<or> v \<ge> 2 ^ 63 then None else Some v))"

subsection \<open>Reading back what was printed\<close>

lemma of_char_digit: "n < 10 \<Longrightarrow> of_char (char_of (48 + n :: nat)) = (48 + n :: nat)"
  by simp

lemma is_digit_digit: "n < 10 \<Longrightarrow> is_digit (char_of (48 + n :: nat))"
  by (simp add: is_digit_def)

lemma digits_value_append:
  "digits_value acc s = Some m \<Longrightarrow> digits_value acc (s @ t) = digits_value m t"
  by (induction s arbitrary: acc) (auto split: if_splits)

lemma digits_value_digits_of: "digits_value 0 (digits_of n) = Some (int n)"
proof (induction n rule: digits_of.induct)
  case (1 n)
  show ?case
  proof (cases "n < 10")
    case True
    then show ?thesis
      by (simp add: digits_of.simps [of n] is_digit_digit of_char_digit)
  next
    case False
    have "digits_value (int (n div 10)) [char_of (48 + n mod 10)] = Some (int n)"
      by (simp add: is_digit_digit of_char_digit) presburger
    then show ?thesis
      using digits_value_append [OF 1 [OF False], of "[char_of (48 + n mod 10)]"] False
      by (simp add: digits_of.simps [of n])
  qed
qed

lemma digits_of_digits: "c \<in> set (digits_of n) \<Longrightarrow> is_digit c"
  by (induction n rule: digits_of.induct)
    (subst (asm) (2) digits_of.simps, auto simp: is_digit_digit split: if_splits)

lemma digits_of_nonempty: "digits_of n \<noteq> []"
  by (subst digits_of.simps) simp

lemma Atoi_digits_of:
  assumes "int n < 2 ^ 63"
  shows "Atoi (digits_of n) = Some (int n)"
proof -
  obtain c s where cs: "digits_of n = c # s"
    using digits_of_nonempty by (metis list.exhaust)
  have "is_digit c"
    using digits_of_digits [of c n] by (simp add: cs)
  then have "c \<noteq> CHR ''-'' \<and> c \<noteq> CHR ''+''"
    by (auto simp: is_digit_def)
  then show ?thesis
    using assms digits_value_digits_of [of n] by (simp add: Atoi_def cs)
qed

text \<open>Printable ASCII other than the blank never splits a field.\<close>

definition plain :: "char \<Rightarrow> bool" where
  "plain c \<longleftrightarrow> 33 \<le> (of_char c :: nat) \<and> (of_char c :: nat) < 127"

lemma space_prefix_plain:
  assumes "plain c"
  shows "space_prefix (c # s) = 0"
proof -
  have ascii: "of_char c < (128 :: nat)" "33 \<le> (of_char c :: nat)"
    using assms by (simp_all add: plain_def)
  have "\<forall>w \<in> set wide_spaces. w \<noteq> [] \<and> (of_char (hd w) :: nat) \<ge> 128"
    by (simp add: wide_spaces_def bytes_def upt_rec)
  then have "filter (\<lambda>w. take (length w) (c # s) = w) wide_spaces = []"
    using ascii(1) by (auto simp: filter_empty_conv) (metis hd_take length_greater_0_conv list.sel(1) not_less)
  moreover have "\<not> ascii_space c"
    using ascii(2) by (auto simp: ascii_space_def)
  ultimately show ?thesis
    by (simp add: space_prefix_def)
qed

lemma fields_from_plain: "list_all plain s \<Longrightarrow> fields_from w (s @ t) = fields_from (w @ s) t"
proof (induction s arbitrary: w)
  case (Cons c s)
  then show ?case
    by (subst fields_from.simps) (simp add: space_prefix_plain)
qed simp

lemma Fields_plain: "list_all plain s \<Longrightarrow> s \<noteq> [] \<Longrightarrow> Fields s = [s]"
  using fields_from_plain [of s "[]" "[]"] by (simp add: Fields_def fields_from.simps)

end
