(* ===== verification/Node_Versions.thy ===== *)
theory Node_Versions
  imports Go_Fields Web_Policy Web_Capacity
begin

text \<open>
  Version numbers as nodes report them (\<^verbatim>\<open>ParseVersion\<close>, \<^verbatim>\<open>compareVersion\<close>, \<^verbatim>\<open>VersionAtLeast\<close> of
  \<^verbatim>\<open>internal/telemt/capabilities.go\<close>) and what they let the panel send to a node
  (\<^verbatim>\<open>internal/nodesvc/webcapacity.go\<close>, \<^verbatim>\<open>WebAdvancedSupported\<close> of \<^verbatim>\<open>webpolicy.go\<close>). Strings are
  byte lists.
\<close>

subsection \<open>Versions\<close>

type_synonym version = "int \<times> int \<times> int"

definition ParseVersion :: "string \<Rightarrow> version option" where
  "ParseVersion s =
     (let fields = Fields s
      in if fields = [] then None
         else let raw = takeWhile (\<lambda>c. c \<noteq> CHR ''-'' \<and> c \<noteq> CHR ''+'') (TrimPrefix (last fields) ''v'')
              in case split_on (CHR ''.'') raw of
                   [a, b, c] \<Rightarrow>
                     (case (Atoi a, Atoi b, Atoi c) of (Some x, Some y, Some z) \<Rightarrow> Some (x, y, z) | _ \<Rightarrow> None)
                 | _ \<Rightarrow> None)"

definition compareVersion :: "version \<Rightarrow> version \<Rightarrow> int" where
  "compareVersion a b =
     (case (a, b) of ((a0, a1, a2), (b0, b1, b2)) \<Rightarrow>
        if a0 < b0 then - 1 else if a0 > b0 then 1
        else if a1 < b1 then - 1 else if a1 > b1 then 1
        else if a2 < b2 then - 1 else if a2 > b2 then 1
        else 0)"

definition VersionAtLeast :: "string \<Rightarrow> version \<Rightarrow> bool" where
  "VersionAtLeast raw minimum = (case ParseVersion raw of None \<Rightarrow> False | Some v \<Rightarrow> compareVersion v minimum \<ge> 0)"

subsection \<open>What a node can take\<close>

text \<open>
  The columns of a row of \<^verbatim>\<open>nodes\<close> that are not in \<open>node_row\<close> of the key tables and that the
  apply worker reads or writes.
\<close>

record node_cols =
  NC_engine :: string
  NC_public_ip :: string
  NC_tls_domain :: string
  NC_tls_domains :: "string list"
  NC_classic_port :: int
  NC_ad_tag :: string
  NC_web_policy :: string
  NC_web_capacity :: "int option"
  NC_agent_version :: string
  NC_telemt_version :: string
  NC_applied_base_path :: string
  NC_last_apply_at :: "gotime option"

definition MinAgentForWebCapacity :: string where
  "MinAgentForWebCapacity = ''2.17.4''"

definition MinAgentForLargeWebCapacity :: string where
  "MinAgentForLargeWebCapacity = ''2.17.5''"

definition WebCapacityUnsupported :: "node_cols \<Rightarrow> string" where
  "WebCapacityUnsupported n =
     (if NC_engine n \<noteq> ''telemt'' then ''WEB capacity applies to telemt nodes only''
      else if \<not> VersionAtLeast (NC_agent_version n) (2, 17, 4)
      then ''WEB capacity needs agent '' @ MinAgentForWebCapacity @ '' or newer; run tgwp-agent upgrade on the node first''
      else if \<not> VersionAtLeast (NC_telemt_version n) (3, 5, 14)
      then ''WEB capacity needs Telemt 3.5.14 or newer; update Telemt on the node first''
      else [])"

definition WebCapacitySupported :: "node_cols \<Rightarrow> bool" where
  "WebCapacitySupported n \<longleftrightarrow> WebCapacityUnsupported n = []"

definition WebCapacityPresetUnsupported :: "node_cols \<Rightarrow> int \<Rightarrow> string" where
  "WebCapacityPresetUnsupported n capacity =
     (let msg = WebCapacityUnsupported n
      in if msg \<noteq> [] then msg
         else if capacity > 1024 \<and> \<not> VersionAtLeast (NC_agent_version n) (2, 17, 5)
         then ''WEB capacity above 1024 needs agent '' @ MinAgentForLargeWebCapacity @
                '' or newer; run tgwp-agent upgrade on the node first''
         else [])"

definition WebCapacityOf :: "node_cols \<Rightarrow> int" where
  "WebCapacityOf n = (case NC_web_capacity n of None \<Rightarrow> 0 | Some c \<Rightarrow> c)"

definition WebAdvancedSupported :: "node_cols \<Rightarrow> bool" where
  "WebAdvancedSupported n \<longleftrightarrow>
     NC_engine n = ''telemt'' \<and> VersionAtLeast (NC_telemt_version n) (3, 5, 14) \<and>
     VersionAtLeast (NC_agent_version n) (2, 17, 0)"

text \<open>
  The stored policy is read onto the default (\<open>unmarshal_onto\<close>, \<^verbatim>\<open>json.Unmarshal\<close> into a value
  that already holds one); an empty or unreadable column is the default.
\<close>

definition WebPolicyOf :: "(WebPolicy \<Rightarrow> string \<Rightarrow> WebPolicy option) \<Rightarrow> string \<Rightarrow> WebPolicy" where
  "WebPolicyOf unmarshal_onto raw =
     (if raw = [] then DefaultWebPolicy
      else case unmarshal_onto DefaultWebPolicy raw of None \<Rightarrow> DefaultWebPolicy | Some p \<Rightarrow> p)"

subsection \<open>Reading back a printed version\<close>

lemma Fields_name_plain: "list_all plain s \<Longrightarrow> s \<noteq> [] \<Longrightarrow> Fields (''telemt '' @ s) = [''telemt'', s]"
proof -
  assume s: "list_all plain s" "s \<noteq> []"
  have "fields_from [] (''telemt'' @ '' '' @ s) = fields_from ''telemt'' ('' '' @ s)"
    by (subst fields_from_plain) (simp_all add: plain_def)
  moreover have "space_prefix ('' '' @ s) = 1"
    by (simp add: space_prefix_def ascii_space_def)
  ultimately show ?thesis
    using Fields_plain [OF s] by (simp add: Fields_def fields_from.simps [of "''telemt''"])
qed

definition version_text :: "nat \<Rightarrow> nat \<Rightarrow> nat \<Rightarrow> string" where
  "version_text a b c = digits_of a @ ''.'' @ digits_of b @ ''.'' @ digits_of c"

lemma digit_plain: "is_digit c \<Longrightarrow> plain c"
  by (simp add: is_digit_def plain_def Let_def)

lemma version_text_plain: "list_all plain (version_text a b c)"
  using digit_plain [OF digits_of_digits] by (auto simp: version_text_def list_all_iff) (simp_all add: plain_def)

lemma takeWhile_version_text:
  assumes "suf = [] \<or> hd suf = CHR ''-'' \<or> hd suf = CHR ''+''"
  shows "takeWhile (\<lambda>c. c \<noteq> CHR ''-'' \<and> c \<noteq> CHR ''+'') (version_text a b c @ suf) = version_text a b c"
proof -
  have "c' \<noteq> CHR ''-'' \<and> c' \<noteq> CHR ''+''" if "c' \<in> set (version_text a b c)" for c'
  proof -
    have "is_digit c' \<or> c' = CHR ''.''"
      using that digits_of_digits by (auto simp: version_text_def)
    then show ?thesis by (auto simp: is_digit_def)
  qed
  then show ?thesis
    using assms by (cases suf) (auto simp: takeWhile_append2)
qed

lemma no_dot: "CHR ''.'' \<notin> set (digits_of n)"
  using digits_of_digits [of "CHR ''.''" n] by (auto simp: is_digit_def)

lemma ParseVersion_text:
  assumes fields: "Fields s \<noteq> []" "TrimPrefix (last (Fields s)) ''v'' = version_text a b c @ suf"
    and suf: "suf = [] \<or> hd suf = CHR ''-'' \<or> hd suf = CHR ''+''"
    and bounds: "int a < 2 ^ 63" "int b < 2 ^ 63" "int c < 2 ^ 63"
  shows "ParseVersion s = Some (int a, int b, int c)"
proof -
  have "split_on (CHR ''.'') (version_text a b c) = [digits_of a, digits_of b, digits_of c]"
    using no_dot by (simp add: version_text_def split_on_append split_on_single)
  then show ?thesis
    using fields(1) bounds Atoi_digits_of unfolding ParseVersion_def Let_def fields(2) takeWhile_version_text [OF suf]
    by simp
qed

lemma TrimPrefix_version_text: "TrimPrefix (version_text a b c @ suf) ''v'' = version_text a b c @ suf"
proof -
  obtain d s where ds: "digits_of a = d # s"
    using digits_of_nonempty by (metis list.exhaust)
  then have "d \<noteq> CHR ''v''"
    using digits_of_digits [of d a] by (auto simp: is_digit_def)
  then show ?thesis
    by (simp add: TrimPrefix_def HasPrefix_def version_text_def ds)
qed

text \<open>
  C28: A version gate decides by the numbers a node reports, however it prints them: for the
  printed form of any three numbers of 63 bits, alone, with a leading \<^verbatim>\<open>v\<close> or after the program's
  name, and with any pre-release or build suffix that has no blank in it, \<^verbatim>\<open>VersionAtLeast\<close>
  holds exactly when the numbers are lexicographically at least the minimum.
\<close>

theorem version_gate_by_numbers:
  assumes "pre \<in> {'''', ''v'', ''telemt '', ''telemt v''}" "list_all plain suf" "suf = [] \<or> hd suf = CHR ''-'' \<or> hd suf = CHR ''+''"
    and "int a < 2 ^ 63" "int b < 2 ^ 63" "int c < 2 ^ 63"
  shows "VersionAtLeast (pre @ version_text a b c @ suf) (x, y, z) \<longleftrightarrow>
    x < int a \<or> x = int a \<and> (y < int b \<or> y = int b \<and> z \<le> int c)"
proof -
  let ?s = "pre @ version_text a b c @ suf" and ?v = "version_text a b c @ suf"
  have plain: "list_all plain ?v" "list_all plain (''v'' @ ?v)"
    using version_text_plain assms(2) by (auto simp: plain_def)
  have "Fields ?s \<noteq> [] \<and> TrimPrefix (last (Fields ?s)) ''v'' = ?v"
    using assms(1) Fields_plain [OF plain(2)] Fields_name_plain [OF plain(2)] Fields_plain [OF plain(1)]
      Fields_name_plain [OF plain(1)] digits_of_nonempty [of a] TrimPrefix_version_text [of a b c suf]
    by (auto simp: version_text_def TrimPrefix_def HasPrefix_def)
  then have "ParseVersion ?s = Some (int a, int b, int c)"
    using ParseVersion_text assms(3-6) by blast
  then show ?thesis
    by (auto simp: VersionAtLeast_def compareVersion_def)
qed

theorem version_gate_by_numbers_witness:
  "VersionAtLeast (''telemt v'' @ version_text 3 10 2 @ ''-rc1'') (3, 5, 14)"
  by (subst version_gate_by_numbers) (simp_all add: plain_def)

end
