(* ===== verification/Worker_Desired.thy ===== *)
theory Worker_Desired
  imports Node_Versions Key_Dirty Encodings
begin

text \<open>
  What the panel wants a node to run: \<^verbatim>\<open>internal/worker/desired.go\<close>, with the statement it reads
  profiles by (\<^verbatim>\<open>ListNodeProfilesWithKey\<close>) and the request it builds
  (\<^verbatim>\<open>internal/nodedriver/driver.go\<close>). Decryption comes from the \<open>key_env\<close> of the key service;
  SHA-256 and the JSON decoders are fields of \<open>desired_env\<close>.
\<close>

subsection \<open>Rows\<close>

record ListNodeProfilesWithKeyRow =
  LP_ID :: uuid
  LP_Name :: string
  LP_SecretEnc :: string
  LP_Backend :: string
  LP_CarrierMode :: string
  LP_Limits :: string
  LP_KeyTelemtLimits :: string
  LP_KeyExpiresAt :: "gotime option"
  LP_KeyStatus :: "KeyStatus option"
  LP_KeyDisabledAt :: "gotime option"

text \<open>
  The left join with the key. Rows are appended to a table as they are created, so the order of
  the list is an order by \<^verbatim>\<open>created_at\<close>. A missing \<^verbatim>\<open>bytea\<close> or \<^verbatim>\<open>jsonb\<close> value is an empty slice.
\<close>

definition profile_row :: "keydb \<Rightarrow> Profile \<Rightarrow> ListNodeProfilesWithKeyRow" where
  "profile_row db p =
     (let key = Option.bind (P_key p) (\<lambda>k. GetKey k db)
      in \<lparr>LP_ID = P_id p, LP_Name = P_name p, LP_SecretEnc = P_secret_enc p, LP_Backend = P_backend p,
          LP_CarrierMode = P_carrier p, LP_Limits = P_limits p,
          LP_KeyTelemtLimits = (case key of None \<Rightarrow> [] | Some k \<Rightarrow> K_telemt_limits k),
          LP_KeyExpiresAt = Option.bind key K_expires_at,
          LP_KeyStatus = map_option K_status key,
          LP_KeyDisabledAt = Option.bind key K_disabled_at\<rparr>)"

definition ListNodeProfilesWithKey :: "uuid \<Rightarrow> keydb \<Rightarrow> ListNodeProfilesWithKeyRow list" where
  "ListNodeProfilesWithKey n db = map (profile_row db) (filter (\<lambda>p. P_node p = n) (profiles db))"

record NodeSite =
  NS_node :: uuid
  NS_bundle :: string
  NS_bundle_hash :: string
  NS_deployed_hash :: "string option"

subsection \<open>Parameters\<close>

record desired_env =
  DE_keys :: key_env
  sha256 :: "string \<Rightarrow> string"
  UnmarshalTelemt :: "string \<Rightarrow> TelemtLimits option"
  UnmarshalLimits :: "string \<Rightarrow> ProfileLimits option"
  UnmarshalPolicyOnto :: "WebPolicy \<Rightarrow> string \<Rightarrow> WebPolicy option"
  UnmarshalBundle :: "string \<Rightarrow> (string \<times> string) list option"

subsection \<open>Fingerprints\<close>

definition status_text :: "KeyStatus \<Rightarrow> string" where
  "status_text st = (case st of KeyStatusPending \<Rightarrow> ''pending'' | KeyStatusActive \<Rightarrow> ''active'' | KeyStatusRevoked \<Rightarrow> ''revoked'')"

definition written :: "string list \<Rightarrow> string" where
  "written parts = concat (map (\<lambda>v. v @ [CHR 0x00]) parts)"

text \<open>\<^verbatim>\<open>UnixNano\<close> is a signed 64-bit number of nanoseconds.\<close>

definition UnixNano :: "gotime \<Rightarrow> int" where
  "UnixNano t = (t + 2 ^ 63) mod 2 ^ 64 - 2 ^ 63"

definition revision_text :: "ListNodeProfilesWithKeyRow \<Rightarrow> string" where
  "revision_text p =
     written [LP_Name p, LP_Backend p, LP_CarrierMode p] @
     LP_SecretEnc p @ LP_Limits p @ LP_KeyTelemtLimits p @
     (case LP_KeyExpiresAt p of None \<Rightarrow> written [''no-expiry''] | Some t \<Rightarrow> written [Itoa (UnixNano t)]) @
     (case LP_KeyStatus p of
        None \<Rightarrow> written [''no-key'']
      | Some st \<Rightarrow> written [status_text st, if LP_KeyDisabledAt p \<noteq> None then ''true'' else ''false''])"

definition profileRevision :: "desired_env \<Rightarrow> ListNodeProfilesWithKeyRow \<Rightarrow> string" where
  "profileRevision env p = hex_EncodeToString (sha256 env (revision_text p))"

definition ProfilesStillAtRevision :: "desired_env \<Rightarrow> uuid \<Rightarrow> (uuid \<rightharpoonup> string) \<Rightarrow> keydb \<Rightarrow> uuid list" where
  "ProfilesStillAtRevision env nodeID sent db =
     map LP_ID (filter (\<lambda>p. sent (LP_ID p) = Some (profileRevision env p)) (ListNodeProfilesWithKey nodeID db))"

definition profileEnabled :: "ListNodeProfilesWithKeyRow \<Rightarrow> gotime \<Rightarrow> bool" where
  "profileEnabled p now =
     (case LP_KeyStatus p of
        None \<Rightarrow> True
      | Some st \<Rightarrow>
          if st = KeyStatusRevoked \<or> LP_KeyDisabledAt p \<noteq> None then False
          else (case LP_KeyExpiresAt p of None \<Rightarrow> True | Some e \<Rightarrow> e > now))"

subsection \<open>The request\<close>

record ReqProfile =
  RP_Name :: string
  RP_Secret :: string
  RP_Backend :: string
  RP_CarrierMode :: string
  RP_Limits :: "ProfileLimits option"
  RP_Telemt :: "TelemtLimits option"
  RP_ExpiresAt :: "gotime option"
  RP_Enabled :: bool
  RP_QuotaResetAt :: "gotime option"

record ApplyRequest =
  Req_ApplyProfiles :: bool
  Req_Profiles :: "ReqProfile list"
  Req_MTProxySecrets :: "string list"
  Req_Site :: "(string \<times> string) list option"
  Req_TLSDomain :: string
  Req_TLSDomains :: "string list"
  Req_ClassicPort :: int
  Req_PublicIP :: string
  Req_AdTag :: string
  Req_WebPolicy :: "WebPolicy option"
  Req_ManagedWebHost :: string
  Req_WebCapacity :: int
  Req_MaxProfiles :: int

record Desired =
  Des_Req :: ApplyRequest
  Des_ProfileIDs :: "uuid list"
  Des_Revisions :: "uuid \<rightharpoonup> string"
  Des_DirtySeq :: int
  Des_SiteHash :: string

definition uint32 :: "int \<Rightarrow> int" where
  "uint32 i = i mod 2 ^ 32"

definition empty_request :: ApplyRequest where
  "empty_request =
     \<lparr>Req_ApplyProfiles = True, Req_Profiles = [], Req_MTProxySecrets = [], Req_Site = None, Req_TLSDomain = [],
      Req_TLSDomains = [], Req_ClassicPort = 0, Req_PublicIP = [], Req_AdTag = [], Req_WebPolicy = None,
      Req_ManagedWebHost = [], Req_WebCapacity = 0, Req_MaxProfiles = 0\<rparr>"

text \<open>
  The stable sort puts the profiles named \<^verbatim>\<open>default\<close> before all others and keeps the order
  within both groups.
\<close>

definition default_first :: "ListNodeProfilesWithKeyRow list \<Rightarrow> ListNodeProfilesWithKeyRow list" where
  "default_first rows = filter (\<lambda>p. LP_Name p = ''default'') rows @ filter (\<lambda>p. LP_Name p \<noteq> ''default'') rows"

definition node_request :: "desired_env \<Rightarrow> node_row \<Rightarrow> node_cols \<Rightarrow> string + ApplyRequest" where
  "node_request env node cols =
     (if NC_engine cols \<noteq> ''telemt'' then Inr empty_request
      else let policy = WebPolicyOf (UnmarshalPolicyOnto env) (NC_web_policy cols)
           in if HasAdvancedOptions policy \<and> \<not> WebAdvancedSupported cols
              then Inl ''advanced WEB options require Telemt 3.5.14 and agent 2.17.0 or newer''
              else let req = empty_request\<lparr>Req_TLSDomain := NC_tls_domain cols,
                           Req_ClassicPort := uint32 (NC_classic_port cols), Req_PublicIP := NC_public_ip cols,
                           Req_TLSDomains := NC_tls_domains cols, Req_AdTag := NC_ad_tag cols,
                           Req_WebPolicy := Some policy, Req_ManagedWebHost := N_hostname node,
                           Req_MaxProfiles := uint32 (N_max_profiles node)\<rparr>;
                       capacity = WebCapacityOf cols;
                       msg = WebCapacityPresetUnsupported cols capacity
                   in if capacity = 0 then Inr req
                      else if msg = [] then Inr (req\<lparr>Req_WebCapacity := uint32 capacity\<rparr>)
                      else if capacity \<noteq> WebCapacityStandard then Inl msg
                      else Inr req)"

definition zero_telemt :: TelemtLimits where
  "zero_telemt = \<lparr>DataQuotaBytes = 0, RateLimitUpBps = 0, RateLimitDownBps = 0, MaxUniqueIPs = 0, MaxTCPConns = 0,
     DataQuotaPeriod = QuotaPeriodNone\<rparr>"

definition zero_limits :: ProfileLimits where
  "zero_limits = \<lparr>MaxSessions = 0, MaxStreams = 0, MaxBackendDialsInFlight = 0, NewSessionsPerMinute = 0,
     NewSessionsBurst = 0, NewStreamsPerMinute = 0, NewStreamsBurst = 0, MaxStreamsPerSession = 0, MaxPendingPerSession = 0\<rparr>"

definition read_telemt :: "desired_env \<Rightarrow> string \<Rightarrow> TelemtLimits option" where
  "read_telemt env raw =
     (if raw = [] then None
      else case UnmarshalTelemt env raw of None \<Rightarrow> None | Some t \<Rightarrow> if t = zero_telemt then None else Some t)"

definition read_limits :: "desired_env \<Rightarrow> string \<Rightarrow> ProfileLimits option" where
  "read_limits env raw =
     (if raw = [] \<or> raw = ''{}'' then None
      else case UnmarshalLimits env raw of None \<Rightarrow> None | Some l \<Rightarrow> if l = zero_limits then None else Some l)"

definition quota_reset :: "gotime \<Rightarrow> TelemtLimits option \<Rightarrow> gotime option" where
  "quota_reset now telemt =
     (case telemt of
        None \<Rightarrow> None
      | Some t \<Rightarrow>
          if DataQuotaBytes t > 0 \<and> \<not> time_IsZero (QuotaPeriod_Start (DataQuotaPeriod t) now)
          then Some (QuotaPeriod_Start (DataQuotaPeriod t) now) else None)"

definition request_profile :: "desired_env \<Rightarrow> gotime \<Rightarrow> ListNodeProfilesWithKeyRow \<Rightarrow> string \<Rightarrow> ReqProfile" where
  "request_profile env now p secret =
     (let telemt = read_telemt env (LP_KeyTelemtLimits p)
      in \<lparr>RP_Name = LP_Name p, RP_Secret = secret, RP_Backend = LP_Backend p, RP_CarrierMode = LP_CarrierMode p,
          RP_Limits = read_limits env (LP_Limits p), RP_Telemt = telemt, RP_ExpiresAt = LP_KeyExpiresAt p,
          RP_Enabled = profileEnabled p now, RP_QuotaResetAt = quota_reset now telemt\<rparr>)"

text \<open>
  The loop over the rows: the profiles, and the secrets of the enabled ones, each once
  (\<open>seen\<close> are those already listed). \<open>Inl\<close> is a row whose secret does not decrypt.
\<close>

fun add_profiles ::
  "desired_env \<Rightarrow> gotime \<Rightarrow> string list \<Rightarrow> ListNodeProfilesWithKeyRow list \<Rightarrow> string + ReqProfile list \<times> string list" where
  "add_profiles env now seen [] = Inr ([], [])"
| "add_profiles env now seen (p # ps) =
     (case Decrypt (DE_keys env) (LP_SecretEnc p) of
        None \<Rightarrow> Inl (''decrypt profile '' @ LP_Name p)
      | Some secret \<Rightarrow>
          let fresh = profileEnabled p now \<and> secret \<notin> set seen
          in case add_profiles env now (if fresh then secret # seen else seen) ps of
               Inl e \<Rightarrow> Inl e
             | Inr (profs, secrets) \<Rightarrow>
                 Inr (request_profile env now p secret # profs, if fresh then secret # secrets else secrets))"

definition revisions :: "desired_env \<Rightarrow> ListNodeProfilesWithKeyRow list \<Rightarrow> uuid \<rightharpoonup> string" where
  "revisions env rows = fold (\<lambda>p m. m(LP_ID p \<mapsto> profileRevision env p)) rows Map.empty"

subsection \<open>The site\<close>

text \<open>\<^verbatim>\<open>base64.StdEncoding.DecodeString\<close>: line breaks are skipped, padding is required.\<close>

definition std_value :: "char \<Rightarrow> nat option" where
  "std_value c = index_of c ''ABCDEFGHIJKLMNOPQRSTUVWXYZabcdefghijklmnopqrstuvwxyz0123456789+/''"

fun std_quads :: "string \<Rightarrow> string option" where
  "std_quads [] = Some []"
| "std_quads (a # b # c # d # s) =
     (case (std_value a, std_value b) of
        (Some x, Some y) \<Rightarrow>
          if d = CHR ''='' \<and> s = [] \<and> c = CHR ''='' then Some [char_of (x * 4 + y div 16)]
          else (case std_value c of
                  None \<Rightarrow> None
                | Some z \<Rightarrow>
                    if d = CHR ''='' \<and> s = [] then Some [char_of (x * 4 + y div 16), char_of (y mod 16 * 16 + z div 4)]
                    else (case (std_value d, std_quads s) of
                            (Some w, Some t) \<Rightarrow>
                              Some (char_of (x * 4 + y div 16) # char_of (y mod 16 * 16 + z div 4) #
                                    char_of (z mod 4 * 64 + w) # t)
                          | _ \<Rightarrow> None))
      | _ \<Rightarrow> None)"
| "std_quads _ = None"

definition decodeB64 :: "string \<Rightarrow> string option" where
  "decodeB64 s = std_quads (filter (\<lambda>c. c \<noteq> CHR 0x0A \<and> c \<noteq> CHR 0x0D) s)"

fun decode_files :: "(string \<times> string) list \<Rightarrow> string + (string \<times> string) list" where
  "decode_files [] = Inr []"
| "decode_files ((path, b64) # fs) =
     (case decodeB64 b64 of
        None \<Rightarrow> Inl (''site file '' @ path)
      | Some raw \<Rightarrow> (case decode_files fs of Inl e \<Rightarrow> Inl e | Inr rest \<Rightarrow> Inr ((path, raw) # rest)))"

definition add_site :: "desired_env \<Rightarrow> NodeSite option \<Rightarrow> Desired \<Rightarrow> string + Desired" where
  "add_site env site out =
     (case site of
        None \<Rightarrow> Inr out
      | Some s \<Rightarrow>
          if NS_deployed_hash s = Some (NS_bundle_hash s) then Inr out
          else case UnmarshalBundle env (NS_bundle s) of
                 None \<Rightarrow> Inl ''site bundle''
               | Some files \<Rightarrow>
                   (case decode_files files of
                      Inl e \<Rightarrow> Inl e
                    | Inr fs \<Rightarrow> Inr (out\<lparr>Des_Req := (Des_Req out)\<lparr>Req_Site := Some fs\<rparr>, Des_SiteHash := NS_bundle_hash s\<rparr>)))"

text \<open>
  \<^verbatim>\<open>desiredState\<close> from the rows its three reads return; its callers use the result only when
  there is no error.
\<close>

definition desiredState ::
  "desired_env \<Rightarrow> gotime \<Rightarrow> node_row \<times> node_cols \<Rightarrow> ListNodeProfilesWithKeyRow list \<Rightarrow> NodeSite option \<Rightarrow> string + Desired" where
  "desiredState env now node rows site =
     (case node_request env (fst node) (snd node) of
        Inl e \<Rightarrow> Inl e
      | Inr req \<Rightarrow>
          (let rows = default_first rows
           in case add_profiles env now [] rows of
                Inl e \<Rightarrow> Inl e
              | Inr (profs, secrets) \<Rightarrow>
                  add_site env site
                    \<lparr>Des_Req = req\<lparr>Req_Profiles := profs, Req_MTProxySecrets := secrets\<rparr>,
                     Des_ProfileIDs = map LP_ID rows, Des_Revisions = revisions env rows,
                     Des_DirtySeq = N_dirty_seq (fst node), Des_SiteHash = []\<rparr>))"

end
