(* ===== verification/Worker_Apply.thy ===== *)
theory Worker_Apply
  imports Worker_Desired Apply_Schedule
begin

text \<open>
  The apply worker, \<^verbatim>\<open>internal/worker/apply.go\<close>: it builds a node's desired state, sends it through
  the node driver and records the outcome. The database it works on is \<open>panel\<close>: the key tables,
  the remaining columns of \<^verbatim>\<open>nodes\<close>, and the tables of sites, apply jobs and alerts.

  The worker reads and writes at several points, and other transactions commit between them, so
  \<^verbatim>\<open>ApplyNode\<close> is given in the pieces that run without interruption: reading the node, reading its
  profiles and site and building the request, judging the driver's answer, re-reading the
  revisions and writing the outcome. PostgreSQL runs the last two in one transaction at its
  default isolation level (read committed), where the re-read takes no lock: another transaction
  can commit between them. The writes together act at one moment: whoever writes the same rows
  waits for them.
\<close>

subsection \<open>Tables\<close>

datatype ApplyStatus = ApplyStatusQueued | ApplyStatusRunning | ApplyStatusOk | ApplyStatusFailed | ApplyStatusRolledBack

datatype ApplyKind = ApplyKindProfiles | ApplyKindSite | ApplyKindBoth

record ApplyJob =
  J_id :: uuid
  J_node :: uuid
  J_kind :: ApplyKind
  J_status :: ApplyStatus
  J_started :: "gotime option"
  J_finished :: "gotime option"
  J_error :: string
  J_log :: string

record Alert =
  A_node :: "uuid option"
  A_kind :: string
  A_message :: string
  A_created :: gotime
  A_resolved :: "gotime option"

record panel =
  kdb :: keydb
  cols :: "uuid \<Rightarrow> node_cols"
  sites :: "NodeSite list"
  jobs :: "ApplyJob list"
  alerts :: "Alert list"

subsection \<open>Statements\<close>

definition CreateApplyJob :: "gotime \<Rightarrow> uuid \<Rightarrow> uuid \<Rightarrow> ApplyKind \<Rightarrow> panel \<Rightarrow> panel option" where
  "CreateApplyJob now i n kind db =
     (if GetNode n (kdb db) = None \<or> (\<exists>j \<in> set (jobs db). J_id j = i) then None
      else Some (db\<lparr>jobs := jobs db @ [\<lparr>J_id = i, J_node = n, J_kind = kind, J_status = ApplyStatusRunning,
        J_started = Some now, J_finished = None, J_error = [], J_log = []\<rparr>]\<rparr>))"

definition FinishApplyJob :: "gotime \<Rightarrow> uuid \<Rightarrow> ApplyStatus \<Rightarrow> string \<Rightarrow> string \<Rightarrow> panel \<Rightarrow> panel" where
  "FinishApplyJob now i st err log db =
     db\<lparr>jobs := update_where (\<lambda>j. J_id j = i)
        (\<lambda>j. j\<lparr>J_status := st, J_finished := Some now, J_error := err, J_log := log\<rparr>) (jobs db)\<rparr>"

definition SetProfilesSyncByIDs :: "uuid list \<Rightarrow> SyncState \<Rightarrow> keydb \<Rightarrow> keydb" where
  "SetProfilesSyncByIDs ids st db =
     db\<lparr>profiles := update_where (\<lambda>p. P_id p \<in> set ids) (\<lambda>p. p\<lparr>P_sync := st\<rparr>) (profiles db)\<rparr>"

definition SetNodeApplied :: "uuid \<Rightarrow> int \<Rightarrow> keydb \<Rightarrow> keydb" where
  "SetNodeApplied i seq db =
     db\<lparr>nodes := update_where (\<lambda>n. N_id n = i \<and> N_dirty_seq n = seq)
        (\<lambda>n. n\<lparr>N_dirty := False, N_dirty_since := None\<rparr>) (nodes db)\<rparr>"

definition ActivatePendingKeysForNode :: "keydb \<Rightarrow> keydb" where
  "ActivatePendingKeysForNode db =
     db\<lparr>keys := update_where (\<lambda>k. K_status k = KeyStatusPending \<and>
          (\<exists>p \<in> set (profiles db). P_key p = Some (K_id k)) \<and>
          \<not> (\<exists>p \<in> set (profiles db). P_key p = Some (K_id k) \<and> P_sync p \<noteq> SyncStateSynced))
        (\<lambda>k. k\<lparr>K_status := KeyStatusActive\<rparr>) (keys db)\<rparr>"

definition GetNodeSite :: "uuid \<Rightarrow> panel \<Rightarrow> NodeSite option" where
  "GetNodeSite n db = find (\<lambda>s. NS_node s = n) (sites db)"

definition SetNodeSiteDeployed :: "uuid \<Rightarrow> string \<Rightarrow> panel \<Rightarrow> panel" where
  "SetNodeSiteDeployed n hash db =
     db\<lparr>sites := update_where (\<lambda>s. NS_node s = n \<and> NS_bundle_hash s = hash)
        (\<lambda>s. s\<lparr>NS_deployed_hash := Some hash\<rparr>) (sites db)\<rparr>"

definition SetNodeWebAppliedBasePath :: "uuid \<Rightarrow> string \<Rightarrow> panel \<Rightarrow> panel" where
  "SetNodeWebAppliedBasePath n path db =
     db\<lparr>cols := (cols db)(n := (cols db n)\<lparr>NC_applied_base_path := path\<rparr>)\<rparr>"

definition open_alert :: "uuid \<Rightarrow> string \<Rightarrow> Alert \<Rightarrow> bool" where
  "open_alert n kind a \<longleftrightarrow> A_node a = Some n \<and> A_kind a = kind \<and> A_resolved a = None"

definition InsertAlert :: "gotime \<Rightarrow> uuid \<Rightarrow> string \<Rightarrow> string \<Rightarrow> panel \<Rightarrow> panel option" where
  "InsertAlert now n kind msg db =
     (if GetNode n (kdb db) = None then None
      else Some (db\<lparr>alerts := alerts db @ [\<lparr>A_node = Some n, A_kind = kind, A_message = msg, A_created = now,
        A_resolved = None\<rparr>]\<rparr>))"

definition InsertAlertOnce :: "gotime \<Rightarrow> uuid \<Rightarrow> string \<Rightarrow> string \<Rightarrow> panel \<Rightarrow> panel option" where
  "InsertAlertOnce now n kind msg db =
     (if \<exists>a \<in> set (alerts db). open_alert n kind a then Some db else InsertAlert now n kind msg db)"

definition ResolveNodeAlerts :: "gotime \<Rightarrow> uuid \<Rightarrow> string \<Rightarrow> panel \<Rightarrow> panel" where
  "ResolveNodeAlerts now n kind db =
     db\<lparr>alerts := update_where (open_alert n kind) (\<lambda>a. a\<lparr>A_resolved := Some now\<rparr>) (alerts db)\<rparr>"

subsection \<open>The driver's answer\<close>

record ApplyResult =
  Res_OK :: bool
  Res_RestartedRelay :: bool
  Res_RestartedMTProxy :: bool
  Res_RolledBack :: bool
  Res_Log :: string
  Res_DeferredFields :: "string list"
  Res_RestartRequired :: bool
  Res_AppliedWebBasePath :: "string option"

definition base_path_error :: string where
  "base_path_error = ''base_path: must be empty or at most 128 ASCII bytes in slash-separated alphanumeric, underscore or hyphen segments without surrounding slashes''"

text \<open>
  The error \<^verbatim>\<open>ApplyNode\<close> ends with after the driver returned \<open>(res, driver_err)\<close>: a request with a
  WEB policy must come back with an acceptable base path.
\<close>

definition apply_error :: "ApplyRequest \<Rightarrow> ApplyResult \<Rightarrow> string option \<Rightarrow> string option" where
  "apply_error req res driver_err =
     (case (driver_err, Req_WebPolicy req) of
        (Some e, _) \<Rightarrow> Some e
      | (None, None) \<Rightarrow> None
      | (None, Some p) \<Rightarrow>
          (case Res_AppliedWebBasePath res of
             None \<Rightarrow> if HasAdvancedOptions p then Some ''agent did not acknowledge effective WEB base_path'' else None
           | Some path \<Rightarrow>
               if BasePath p \<noteq> None \<and> BasePath p \<noteq> Some path
               then Some ''agent acknowledged a different WEB base_path''
               else if ValidateWebBasePath path \<noteq> None
               then Some base_path_error else None))"

definition first_line :: "string \<Rightarrow> string" where
  "first_line s = takeWhile (\<lambda>c. c \<noteq> CHR 0x0A) s"

fun join_comma :: "string list \<Rightarrow> string" where
  "join_comma [] = []"
| "join_comma [w] = w"
| "join_comma (w # v # ws) = w @ '', '' @ join_comma (v # ws)"

definition recordDeferred :: "gotime \<Rightarrow> uuid \<Rightarrow> ApplyResult \<Rightarrow> panel \<Rightarrow> panel option" where
  "recordDeferred now n res db =
     (if Res_DeferredFields res = [] then Some (ResolveNodeAlerts now n ''config_deferred'' db)
      else InsertAlert now n ''config_deferred''
             (''telemt persisted but did not activate '' @ join_comma (Res_DeferredFields res) @ ''; a restart is required'') db)"

subsection \<open>The pieces of \<open>ApplyNode\<close>\<close>

text \<open>Reading the node: its columns at one moment, or an error when it is gone.\<close>

definition read_node :: "uuid \<Rightarrow> panel \<Rightarrow> (node_row \<times> node_cols) option" where
  "read_node n db = map_option (\<lambda>r. (r, cols db n)) (GetNode n (kdb db))"

text \<open>
  Recording a failure, with the profiles found unchanged by the re-read. \<open>None\<close> is the foreign
  key of the alert: the node is gone, and the transaction rolls back.
\<close>

definition record_failure ::
  "gotime \<Rightarrow> uuid \<Rightarrow> uuid \<Rightarrow> ApplyResult \<Rightarrow> string \<Rightarrow> uuid list \<Rightarrow> panel \<Rightarrow> panel option" where
  "record_failure now job n res err unchanged db =
     (let db1 = FinishApplyJob now job (if Res_RolledBack res then ApplyStatusRolledBack else ApplyStatusFailed) err (Res_Log res) db;
          db2 = db1\<lparr>kdb := SetProfilesSyncByIDs unchanged SyncStateFailed (kdb db1)\<rparr>
      in InsertAlertOnce now n ''apply_failed'' (first_line err) db2)"

text \<open>Recording a success.\<close>

definition record_success ::
  "gotime \<Rightarrow> uuid \<Rightarrow> uuid \<Rightarrow> ApplyResult \<Rightarrow> Desired \<Rightarrow> uuid list \<Rightarrow> panel \<Rightarrow> panel option" where
  "record_success now job n res des unchanged db =
     (let db1 = FinishApplyJob now job ApplyStatusOk [] (Res_Log res) db;
          db2 = db1\<lparr>kdb := SetProfilesSyncByIDs unchanged SyncStateSynced (kdb db1)\<rparr>;
          db3 = (if Req_Site (Des_Req des) \<noteq> None then SetNodeSiteDeployed n (Des_SiteHash des) db2 else db2);
          db4 = (case Res_AppliedWebBasePath res of None \<Rightarrow> db3 | Some path \<Rightarrow> SetNodeWebAppliedBasePath n path db3);
          applied = (\<exists>r \<in> set (nodes (kdb db4)). N_id r = n \<and> N_dirty_seq r = Des_DirtySeq des);
          db5 = db4\<lparr>kdb := SetNodeApplied n (Des_DirtySeq des) (kdb db4),
                    cols := (if applied then (cols db4)(n := (cols db4 n)\<lparr>NC_last_apply_at := Some now\<rparr>) else cols db4)\<rparr>;
          db6 = ResolveNodeAlerts now n ''apply_failed'' db5
      in map_option (\<lambda>db7. db7\<lparr>kdb := ActivatePendingKeysForNode (kdb db7)\<rparr>) (recordDeferred now n res db6))"

definition apply_kind :: "Desired \<Rightarrow> ApplyKind" where
  "apply_kind des = (if Req_Site (Des_Req des) \<noteq> None then ApplyKindBoth else ApplyKindProfiles)"

text \<open>
  The whole of \<^verbatim>\<open>ApplyNode\<close>. \<open>AI_others i\<close> is what other transactions commit at the i-th point
  between the pieces (after the node is read, after its profiles are read, after its site is read,
  while the driver works, between the re-read of the revisions and the writes); the faults say
  whether the reads, creating the job or the recording transaction meet a database error;
  \<open>AI_in_flight\<close> is the entry of \<^verbatim>\<open>inFlight\<close>. The outcome says whether the error wraps \<^verbatim>\<open>ErrOffline\<close>
  and whether a notification is sent.
\<close>

datatype driver_error = DriverOffline | DriverError string

fun driver_text :: "driver_error \<Rightarrow> string" where
  "driver_text DriverOffline = ''node offline''"
| "driver_text (DriverError e) = e"

record apply_input =
  AI_in_flight :: bool
  AI_online :: bool
  AI_now :: gotime
  AI_job :: uuid
  AI_driver :: "ApplyRequest \<Rightarrow> ApplyResult \<times> driver_error option"
  AI_others :: "nat \<Rightarrow> panel \<Rightarrow> panel"
  AI_read_fault :: bool
  AI_job_fault :: bool
  AI_record_fault :: bool

datatype apply_outcome =
    ApplyDone
  | ApplyInProgress
  | ApplyOffline
  | ApplyNotBuilt string
  | ApplyErr string (wraps_offline: bool) (notified: bool)
  | RecordFault

definition ApplyNode :: "desired_env \<Rightarrow> apply_input \<Rightarrow> uuid \<Rightarrow> panel \<Rightarrow> apply_outcome \<times> panel" where
  "ApplyNode env inp n db0 =
     (if AI_in_flight inp then (ApplyInProgress, db0)
      else if \<not> AI_online inp then (ApplyOffline, db0)
      else if AI_read_fault inp then (ApplyNotBuilt ''database error'', db0)
      else case read_node n db0 of
        None \<Rightarrow> (ApplyNotBuilt ''no rows in result set'', db0)
      | Some node \<Rightarrow>
        (let db1 = AI_others inp 0 db0; rows = ListNodeProfilesWithKey n (kdb db1);
             db2 = AI_others inp 1 db1; site = GetNodeSite n db2; db3 = AI_others inp 2 db2
         in case desiredState env (AI_now inp) node rows site of
              Inl e \<Rightarrow> (ApplyNotBuilt e, db3)
            | Inr des \<Rightarrow>
                (case (if AI_job_fault inp then None else CreateApplyJob (AI_now inp) (AI_job inp) n (apply_kind des) db3) of
                   None \<Rightarrow> (RecordFault, db3)
                 | Some db4 \<Rightarrow>
                     (let (res, driver_err) = AI_driver inp (Des_Req des); db5 = AI_others inp 3 db4;
                          unchanged = ProfilesStillAtRevision env n (Des_Revisions des) (kdb db5);
                          db6 = AI_others inp 4 db5; offline = (driver_err = Some DriverOffline)
                      in case apply_error (Des_Req des) res (map_option driver_text driver_err) of
                           Some e \<Rightarrow>
                             (case (if AI_record_fault inp then None
                                    else record_failure (AI_now inp) (AI_job inp) n res e unchanged db6) of
                                None \<Rightarrow> (ApplyErr e offline False, db6)
                              | Some db7 \<Rightarrow> (ApplyErr e offline (GetNode n (kdb db7) \<noteq> None), db7))
                         | None \<Rightarrow>
                             (case (if AI_record_fault inp then None
                                    else record_success (AI_now inp) (AI_job inp) n res des unchanged db6) of
                                None \<Rightarrow> (RecordFault, db6)
                              | Some db7 \<Rightarrow> (ApplyDone, db7))))))"

text \<open>
  \<^verbatim>\<open>spawn\<close> with the schedule it reserves from: \<open>online\<close> is what the driver says before the
  reservation, \<open>t0\<close> and \<open>t1\<close> are the clock at the reservation and at the end, and a success makes
  \<^verbatim>\<open>ApplyNode\<close> drop the node's retry entry. \<open>Run\<close> calls it for a triggered node and, on every tick,
  for all nodes of \<^verbatim>\<open>ListDirtyNodesAny\<close>.
\<close>

definition apply_failed :: "apply_outcome \<Rightarrow> bool" where
  "apply_failed out = (case out of ApplyDone \<Rightarrow> False | ApplyOffline \<Rightarrow> False | ApplyErr _ offline _ \<Rightarrow> \<not> offline | _ \<Rightarrow> True)"

definition spawn ::
  "desired_env \<Rightarrow> apply_input \<Rightarrow> bool \<Rightarrow> gotime \<Rightarrow> gotime \<Rightarrow> duration \<Rightarrow> node_row \<Rightarrow> applySchedule \<times> panel \<Rightarrow>
     apply_outcome option \<times> applySchedule \<times> panel" where
  "spawn env inp online t0 t1 rnd node w =
     (case w of (s, db) \<Rightarrow>
        if \<not> online then (None, s, db)
        else case claim s (N_id node) (N_dirty_seq node) t0 of
               (ok, s1) \<Rightarrow>
                 if \<not> ok then (None, s1, db)
                 else (case ApplyNode env inp (N_id node) db of
                         (out, db') \<Rightarrow>
                           let s2 = (if out = ApplyDone then forget s1 (N_id node) else s1)
                           in (Some out, finish s2 (N_id node) (N_dirty_seq node) t1 (apply_failed out) rnd, db')))"

definition ListDirtyNodesAny :: "keydb \<Rightarrow> node_row list" where
  "ListDirtyNodesAny db = filter N_dirty (nodes db)"

end
