(* ===== verification/Worker_Apply_Safety.thy ===== *)
theory Worker_Apply_Safety
  imports Worker_Apply
begin

text \<open>
  The apply worker together with everyone else who writes the tables, as a step relation: applies
  of different nodes and the calls of a service that edits keys and profiles interleave at every
  point where the worker is between two of its reads and writes. Two invariants are proved by rule
  induction. Which node rows the rest of the panel may touch, and how, is the interface
  \<open>profile_writer\<close>; the key service implements it.
\<close>

subsection \<open>Rows and requests\<close>

definition row_view :: "ListNodeProfilesWithKeyRow \<Rightarrow> _" where
  "row_view r = (LP_Name r, LP_SecretEnc r, LP_Backend r, LP_CarrierMode r, LP_Limits r,
     map_option (\<lambda>st. (LP_KeyTelemtLimits r, LP_KeyExpiresAt r, st = KeyStatusRevoked, LP_KeyDisabledAt r \<noteq> None)) (LP_KeyStatus r))"

lemma row_view_profile_row:
  "row_view (profile_row db p) = (P_name p, P_secret_enc p, P_backend p, P_carrier p, P_limits p, key_view db p)"
  by (auto simp: row_view_def profile_row_def key_view_def Let_def split: Option.bind_splits)

lemma rows_served: "row_view ` set (ListNodeProfilesWithKey n db) = served db n"
  by (auto simp: ListNodeProfilesWithKey_def served_def image_image row_view_profile_row)

text \<open>A row without a key has none of the key's columns.\<close>

definition joined :: "ListNodeProfilesWithKeyRow \<Rightarrow> bool" where
  "joined r \<longleftrightarrow> LP_KeyStatus r = None \<longrightarrow> LP_KeyTelemtLimits r = [] \<and> LP_KeyExpiresAt r = None"

lemma joined_rows: "r \<in> set (ListNodeProfilesWithKey n db) \<Longrightarrow> joined r"
  by (auto simp: ListNodeProfilesWithKey_def profile_row_def joined_def Let_def split: option.splits Option.bind_splits)

definition sent_profile :: "desired_env \<Rightarrow> gotime \<Rightarrow> ListNodeProfilesWithKeyRow \<Rightarrow> ReqProfile" where
  "sent_profile env now r = request_profile env now r (the (Decrypt (DE_keys env) (LP_SecretEnc r)))"

lemma sent_profile_view:
  assumes "row_view r = row_view r'" "joined r" "joined r'"
  shows "sent_profile env now r = sent_profile env now r'"
proof -
  have "profileEnabled r now = profileEnabled r' now"
    using assms by (auto simp: row_view_def profileEnabled_def split: option.splits)
  moreover have "LP_KeyTelemtLimits r = LP_KeyTelemtLimits r'" "LP_KeyExpiresAt r = LP_KeyExpiresAt r'"
    using assms by (auto simp: row_view_def joined_def map_option_case split: option.splits)
  ultimately show ?thesis
    using assms(1) by (simp add: sent_profile_def request_profile_def row_view_def Let_def)
qed

lemma add_profiles_sent:
  "add_profiles env now seen rows = Inr (ps, ss) \<Longrightarrow>
     ps = map (sent_profile env now) rows \<and> (\<forall>r \<in> set rows. Decrypt (DE_keys env) (LP_SecretEnc r) \<noteq> None)"
  by (induction rows arbitrary: seen ps ss)
    (auto simp: sent_profile_def Let_def split: option.splits sum.splits prod.splits if_splits)

lemma set_default_first [simp]: "set (default_first rows) = set rows"
  by (auto simp: default_first_def)

lemma desiredState_sent:
  assumes "desiredState env now node rows site = Inr des"
  shows "set (Req_Profiles (Des_Req des)) = sent_profile env now ` set rows"
    "\<forall>r \<in> set rows. Decrypt (DE_keys env) (LP_SecretEnc r) \<noteq> None"
    "Des_DirtySeq des = N_dirty_seq (fst node)" "Des_Revisions des = revisions env (default_first rows)"
proof -
  obtain req ps ss where req: "node_request env (fst node) (snd node) = Inr req"
    and ps: "add_profiles env now [] (default_first rows) = Inr (ps, ss)"
    and des: "add_site env site \<lparr>Des_Req = req\<lparr>Req_Profiles := ps, Req_MTProxySecrets := ss\<rparr>,
        Des_ProfileIDs = map LP_ID (default_first rows), Des_Revisions = revisions env (default_first rows),
        Des_DirtySeq = N_dirty_seq (fst node), Des_SiteHash = []\<rparr> = Inr des"
    using assms by (auto simp: desiredState_def Let_def split: sum.splits)
  have "Req_Profiles (Des_Req des) = ps \<and> Des_DirtySeq des = N_dirty_seq (fst node) \<and>
      Des_Revisions des = revisions env (default_first rows)"
    using des by (auto simp: add_site_def split: option.splits if_splits sum.splits)
  then show "set (Req_Profiles (Des_Req des)) = sent_profile env now ` set rows"
    "\<forall>r \<in> set rows. Decrypt (DE_keys env) (LP_SecretEnc r) \<noteq> None"
    "Des_DirtySeq des = N_dirty_seq (fst node)" "Des_Revisions des = revisions env (default_first rows)"
    using add_profiles_sent [OF ps] by auto
qed

lemma revisions_sent:
  "revisions env rows i = Some v \<Longrightarrow> \<exists>r \<in> set rows. LP_ID r = i \<and> profileRevision env r = v"
proof (induction rows rule: rev_induct)
  case (snoc r rows)
  then show ?case by (auto simp: revisions_def split: if_splits)
qed (simp add: revisions_def)

subsection \<open>The fleet\<close>

record taken =
  T_at :: gotime
  T_rows :: "ListNodeProfilesWithKeyRow list"
  T_des :: Desired
  T_job :: uuid

datatype phase =
    Idle
  | HasNode "node_row \<times> node_cols"
  | HasRows "node_row \<times> node_cols" "ListNodeProfilesWithKeyRow list"
  | Waiting taken
  | Answered taken ApplyResult "string option"
  | Rechecked taken ApplyResult "string option" "uuid list"

text \<open>
  \<open>accepted n\<close> is the last request the driver delivered to node \<open>n\<close> without an error, with the
  moment and the rows it was built from.
\<close>

record fleet =
  pdb :: panel
  phase_of :: "uuid \<Rightarrow> phase"
  accepted :: "uuid \<rightharpoonup> taken"

definition fingerprints_differ :: "desired_env \<Rightarrow> ListNodeProfilesWithKeyRow list \<Rightarrow> ListNodeProfilesWithKeyRow list \<Rightarrow> bool" where
  "fingerprints_differ env rows rows' \<longleftrightarrow>
     (\<forall>r \<in> set rows. \<forall>r' \<in> set rows'. LP_ID r = LP_ID r' \<longrightarrow> profileRevision env r = profileRevision env r' \<longrightarrow> r = r')"

definition rechecked :: "phase \<Rightarrow> bool" where
  "rechecked ph = (case ph of Rechecked _ _ _ _ \<Rightarrow> True | _ \<Rightarrow> False)"

text \<open>
  The steps. \<open>write\<close> is the rest of the panel's key operations. In \<open>strict\<close> runs no such operation
  commits between the re-read of the revisions and the writes that rest on it, and a fingerprint
  identifies the row it was taken of.
\<close>

inductive fleet_step :: "(keydb \<Rightarrow> 'c \<Rightarrow> 'r \<times> keydb) \<Rightarrow> bool \<Rightarrow> desired_env \<Rightarrow> fleet \<Rightarrow> fleet \<Rightarrow> bool"
  for "write" strict env where
  key_call: "strict \<longrightarrow> (\<forall>n. \<not> rechecked (phase_of w n)) \<Longrightarrow>
    fleet_step write strict env w (w\<lparr>pdb := (pdb w)\<lparr>kdb := snd (write (kdb (pdb w)) c)\<rparr>\<rparr>)"
| node_settings: "fleet_step write strict env w
    (w\<lparr>pdb := (pdb w)\<lparr>kdb := mark_nodes_dirty now ns (kdb (pdb w)), cols := cs, sites := ss, alerts := als\<rparr>\<rparr>)"
| reads_node: "phase_of w n = Idle \<Longrightarrow> read_node n (pdb w) = Some node \<Longrightarrow>
    fleet_step write strict env w (w\<lparr>phase_of := (phase_of w)(n := HasNode node)\<rparr>)"
| reads_rows: "phase_of w n = HasNode node \<Longrightarrow>
    fleet_step write strict env w
      (w\<lparr>phase_of := (phase_of w)(n := HasRows node (ListNodeProfilesWithKey n (kdb (pdb w))))\<rparr>)"
| builds: "phase_of w n = HasRows node rows \<Longrightarrow>
    desiredState env now node rows (GetNodeSite n (pdb w)) = Inr des \<Longrightarrow>
    CreateApplyJob started job n (apply_kind des) (pdb w) = Some db \<Longrightarrow>
    fleet_step write strict env w
      (w\<lparr>pdb := db, phase_of := (phase_of w)(n := Waiting \<lparr>T_at = now, T_rows = rows, T_des = des, T_job = job\<rparr>)\<rparr>)"
| answers: "phase_of w n = Waiting t \<Longrightarrow>
    fleet_step write strict env w
      (w\<lparr>phase_of := (phase_of w)(n := Answered t res (apply_error (Des_Req (T_des t)) res None)),
         accepted := (accepted w)(n \<mapsto> t)\<rparr>)"
| fails: "phase_of w n = Waiting t \<Longrightarrow>
    fleet_step write strict env w
      (w\<lparr>phase_of := (phase_of w)(n := Answered t res (apply_error (Des_Req (T_des t)) res (Some e)))\<rparr>)"
| rereads: "phase_of w n = Answered t res err \<Longrightarrow>
    strict \<longrightarrow> fingerprints_differ env (T_rows t) (ListNodeProfilesWithKey n (kdb (pdb w))) \<Longrightarrow>
    fleet_step write strict env w
      (w\<lparr>phase_of := (phase_of w)
           (n := Rechecked t res err (ProfilesStillAtRevision env n (Des_Revisions (T_des t)) (kdb (pdb w))))\<rparr>)"
| records_success: "phase_of w n = Rechecked t res None ids \<Longrightarrow>
    record_success now (T_job t) n res (T_des t) ids (pdb w) = Some db \<Longrightarrow>
    fleet_step write strict env w (w\<lparr>pdb := db, phase_of := (phase_of w)(n := Idle)\<rparr>)"
| records_failure: "phase_of w n = Rechecked t res (Some e) ids \<Longrightarrow>
    record_failure now (T_job t) n res e ids (pdb w) = Some db \<Longrightarrow>
    fleet_step write strict env w (w\<lparr>pdb := db, phase_of := (phase_of w)(n := Idle)\<rparr>)"
| gives_up: "fleet_step write strict env w (w\<lparr>phase_of := (phase_of w)(n := Idle)\<rparr>)"

subsection \<open>What the recording transactions touch\<close>

lemma GetNode_SetNodeApplied:
  "GetNode m (SetNodeApplied n seq db) =
     map_option (\<lambda>r. if m = n \<and> N_dirty_seq r = seq then r\<lparr>N_dirty := False, N_dirty_since := None\<rparr> else r) (GetNode m db)"
proof -
  have "find (\<lambda>r. N_id r = m) (update_where (\<lambda>r. N_id r = n \<and> N_dirty_seq r = seq) (\<lambda>r. r\<lparr>N_dirty := False, N_dirty_since := None\<rparr>) xs) =
      map_option (\<lambda>r. if m = n \<and> N_dirty_seq r = seq then r\<lparr>N_dirty := False, N_dirty_since := None\<rparr> else r)
        (find (\<lambda>r. N_id r = m) xs)" for xs
    by (induction xs) (auto simp: update_where_def)
  then show ?thesis
    by (simp add: GetNode_def SetNodeApplied_def)
qed

lemma GetKey_Activate:
  "GetKey k (ActivatePendingKeysForNode db) = None \<longleftrightarrow> GetKey k db = None"
  "GetKey k (ActivatePendingKeysForNode db) = Some x \<Longrightarrow> \<exists>y. GetKey k db = Some y \<and> (x = y \<or>
     K_status y = KeyStatusPending \<and> x = y\<lparr>K_status := KeyStatusActive\<rparr>)"
proof -
  have f: "find (\<lambda>k. K_id k = i) (update_where P (\<lambda>k. k\<lparr>K_status := KeyStatusActive\<rparr>) xs) =
      map_option (\<lambda>k. if P k then k\<lparr>K_status := KeyStatusActive\<rparr> else k) (find (\<lambda>k. K_id k = i) xs)" for P i xs
    by (induction xs) (auto simp: update_where_def)
  show "GetKey k (ActivatePendingKeysForNode db) = None \<longleftrightarrow> GetKey k db = None"
    by (simp add: GetKey_def ActivatePendingKeysForNode_def f)
  show "GetKey k (ActivatePendingKeysForNode db) = Some x \<Longrightarrow> \<exists>y. GetKey k db = Some y \<and> (x = y \<or>
     K_status y = KeyStatusPending \<and> x = y\<lparr>K_status := KeyStatusActive\<rparr>)"
    by (auto simp: GetKey_def ActivatePendingKeysForNode_def f split: if_splits)
qed

lemma key_view_Activate: "key_view (ActivatePendingKeysForNode db) p = key_view db p"
proof (cases "P_key p")
  case (Some k)
  then show ?thesis
    using GetKey_Activate [of k db] by (cases "GetKey k (ActivatePendingKeysForNode db)") (auto simp: key_view_def)
qed (simp add: key_view_def)

lemma served_cong:
  assumes "\<And>p. key_view db' p = key_view db p"
    and "\<exists>g. (\<forall>p. P_node (g p) = P_node p \<and> P_name (g p) = P_name p \<and> P_secret_enc (g p) = P_secret_enc p \<and>
      P_backend (g p) = P_backend p \<and> P_carrier (g p) = P_carrier p \<and> P_limits (g p) = P_limits p \<and> P_key (g p) = P_key p) \<and>
      profiles db' = map g (profiles db)"
  shows "served db' n = served db n"
proof -
  obtain g where g: "\<And>p. P_node (g p) = P_node p \<and> P_name (g p) = P_name p \<and> P_secret_enc (g p) = P_secret_enc p \<and>
      P_backend (g p) = P_backend p \<and> P_carrier (g p) = P_carrier p \<and> P_limits (g p) = P_limits p \<and> P_key (g p) = P_key p"
    "profiles db' = map g (profiles db)"
    using assms(2) by blast
  then have "key_view db (g p) = key_view db p" for p
    by (simp add: key_view_def)
  then show ?thesis
    using g assms(1) by (force simp: served_def image_iff)
qed

lemma served_statements [simp]:
  "served (SetProfilesSyncByIDs ids st db) n = served db n"
  "served (SetNodeApplied i seq db) n = served db n"
  "served (ActivatePendingKeysForNode db) n = served db n"
proof -
  show "served (SetProfilesSyncByIDs ids st db) n = served db n"
    by (rule served_cong, simp add: key_view_def GetKey_def SetProfilesSyncByIDs_def)
      (rule exI [of _ "\<lambda>p. if P_id p \<in> set ids then p\<lparr>P_sync := st\<rparr> else p"],
        simp add: SetProfilesSyncByIDs_def update_where_def)
  show "served (SetNodeApplied i seq db) n = served db n"
    by (rule served_frame) (simp_all add: key_view_def GetKey_def SetNodeApplied_def)
  show "served (ActivatePendingKeysForNode db) n = served db n"
    by (rule served_frame) (simp_all add: key_view_Activate, simp add: ActivatePendingKeysForNode_def)
qed

lemma GetNode_statements [simp]:
  "GetNode m (SetProfilesSyncByIDs ids st db) = GetNode m db" "GetNode m (ActivatePendingKeysForNode db) = GetNode m db"
  by (simp_all add: GetNode_def SetProfilesSyncByIDs_def ActivatePendingKeysForNode_def)

lemma kdb_alerts:
  "InsertAlert now n kind msg db = Some db' \<Longrightarrow> kdb db' = kdb db"
  "InsertAlertOnce now n kind msg db = Some db' \<Longrightarrow> kdb db' = kdb db"
  "recordDeferred now n res db = Some db' \<Longrightarrow> kdb db' = kdb db"
  by (auto simp: InsertAlert_def InsertAlertOnce_def recordDeferred_def ResolveNodeAlerts_def split: if_splits)

lemma kdb_record_success:
  assumes "record_success now job n res des ids db = Some db'"
  shows "kdb db' = ActivatePendingKeysForNode (SetNodeApplied n (Des_DirtySeq des) (SetProfilesSyncByIDs ids SyncStateSynced (kdb db)))"
  using assms
  by (auto simp: record_success_def Let_def SetNodeSiteDeployed_def SetNodeWebAppliedBasePath_def FinishApplyJob_def
      ResolveNodeAlerts_def dest!: kdb_alerts split: if_splits option.splits)

lemma kdb_record_failure:
  assumes "record_failure now job n res e ids db = Some db'"
  shows "kdb db' = SetProfilesSyncByIDs ids SyncStateFailed (kdb db)"
  using assms by (auto simp: record_failure_def Let_def FinishApplyJob_def dest!: kdb_alerts)

subsection \<open>A clean node has what the tables say\<close>

fun taken_of :: "phase \<Rightarrow> taken option" where
  "taken_of (Waiting t) = Some t"
| "taken_of (Answered t _ _) = Some t"
| "taken_of (Rechecked t _ _ _) = Some t"
| "taken_of _ = None"

fun seq_of :: "phase \<Rightarrow> int option" where
  "seq_of (HasNode node) = Some (N_dirty_seq (fst node))"
| "seq_of (HasRows node _) = Some (N_dirty_seq (fst node))"
| "seq_of ph = map_option (\<lambda>t. Des_DirtySeq (T_des t)) (taken_of ph)"

fun rows_of :: "phase \<Rightarrow> ListNodeProfilesWithKeyRow list option" where
  "rows_of (HasRows _ rows) = Some rows"
| "rows_of ph = map_option T_rows (taken_of ph)"

fun delivered_by :: "phase \<Rightarrow> taken option" where
  "delivered_by (Answered t _ None) = Some t"
| "delivered_by (Rechecked t _ None _) = Some t"
| "delivered_by _ = None"

definition in_step :: "uuid \<Rightarrow> keydb \<Rightarrow> phase \<Rightarrow> bool" where
  "in_step n db ph \<longleftrightarrow>
     (\<forall>s. seq_of ph = Some s \<longrightarrow>
        (\<exists>nd. GetNode n db = Some nd \<and> s \<le> N_dirty_seq nd \<and> (s < N_dirty_seq nd \<longrightarrow> N_dirty nd) \<and>
           (\<forall>rows. rows_of ph = Some rows \<and> N_dirty_seq nd = s \<longrightarrow> row_view ` set rows = served db n)))"

definition up_to_date :: "uuid \<Rightarrow> keydb \<Rightarrow> taken option \<Rightarrow> bool" where
  "up_to_date n db acc \<longleftrightarrow>
     (\<forall>nd. GetNode n db = Some nd \<and> \<not> N_dirty nd \<longrightarrow>
        row_view ` (case acc of None \<Rightarrow> {} | Some t \<Rightarrow> set (T_rows t)) = served db n)"

definition built :: "desired_env \<Rightarrow> taken \<Rightarrow> bool" where
  "built env t \<longleftrightarrow> (\<exists>node site. desiredState env (T_at t) node (T_rows t) site = Inr (T_des t))"

definition node_inv :: "desired_env \<Rightarrow> uuid \<Rightarrow> keydb \<Rightarrow> phase \<Rightarrow> taken option \<Rightarrow> bool" where
  "node_inv env n db ph acc \<longleftrightarrow>
     in_step n db ph \<and> up_to_date n db acc \<and>
     (\<forall>rows. rows_of ph = Some rows \<longrightarrow> list_all joined rows) \<and> (\<forall>t. taken_of ph = Some t \<longrightarrow> built env t) \<and>
     (\<forall>t. acc = Some t \<longrightarrow> built env t \<and> list_all joined (T_rows t)) \<and>
     (\<forall>t. delivered_by ph = Some t \<longrightarrow> acc = Some t)"

lemma in_step_marks:
  assumes "in_step n db ph" "marks_all db db'"
  shows "in_step n db' ph"
  unfolding in_step_def
proof (intro allI impI)
  fix s assume "seq_of ph = Some s"
  then obtain nd where nd: "GetNode n db = Some nd" "s \<le> N_dirty_seq nd" "s < N_dirty_seq nd \<longrightarrow> N_dirty nd"
    "\<forall>rows. rows_of ph = Some rows \<and> N_dirty_seq nd = s \<longrightarrow> row_view ` set rows = served db n"
    using assms(1) by (auto simp: in_step_def)
  moreover obtain nd' where nd': "GetNode n db' = Some nd'" "N_dirty_seq nd \<le> N_dirty_seq nd'" "N_dirty nd \<longrightarrow> N_dirty nd'"
    "N_dirty_seq nd < N_dirty_seq nd' \<longrightarrow> N_dirty nd'" "served db' n \<noteq> served db n \<longrightarrow> N_dirty_seq nd < N_dirty_seq nd'"
    using assms(2) nd(1) by (fastforce simp: marks_all_def marks_def nodes_grow_def dirtied_def)
  ultimately show "\<exists>nd. GetNode n db' = Some nd \<and> s \<le> N_dirty_seq nd \<and> (s < N_dirty_seq nd \<longrightarrow> N_dirty nd) \<and>
      (\<forall>rows. rows_of ph = Some rows \<and> N_dirty_seq nd = s \<longrightarrow> row_view ` set rows = served db' n)"
    by force
qed

lemma up_to_date_marks:
  assumes "up_to_date n db acc" "marks_all db db'"
  shows "up_to_date n db' acc"
  unfolding up_to_date_def
proof (intro allI impI)
  fix nd' assume nd': "GetNode n db' = Some nd' \<and> \<not> N_dirty nd'"
  then obtain nd where nd: "GetNode n db = Some nd"
    using assms(2) by (fastforce simp: marks_all_def same_nodes_def)
  then have "\<not> N_dirty nd" "served db' n = served db n"
    using assms(2) nd' by (fastforce simp: marks_all_def marks_def nodes_grow_def dirtied_def)+
  then show "row_view ` (case acc of None \<Rightarrow> {} | Some t \<Rightarrow> set (T_rows t)) = served db' n"
    using assms(1) nd by (simp add: up_to_date_def)
qed

lemma node_inv_marks: "node_inv env n db ph acc \<Longrightarrow> marks_all db db' \<Longrightarrow> node_inv env n db' ph acc"
  using in_step_marks up_to_date_marks unfolding node_inv_def by blast

text \<open>A database that looks the same to a node.\<close>

lemma node_inv_same:
  assumes "node_inv env n db ph acc" "GetNode n db' = GetNode n db" "served db' n = served db n"
  shows "node_inv env n db' ph acc"
  using assms by (simp add: node_inv_def in_step_def up_to_date_def)

lemma node_inv_Idle: "node_inv env n db ph acc \<Longrightarrow> node_inv env n db Idle acc"
  by (simp add: node_inv_def in_step_def)

text \<open>The steps of one apply.\<close>

lemma node_inv_reads_node:
  assumes "node_inv env n db Idle acc" "GetNode n db = Some (fst node)"
  shows "node_inv env n db (HasNode node) acc"
  using assms by (simp add: node_inv_def in_step_def)

lemma node_inv_reads_rows:
  assumes "node_inv env n db (HasNode node) acc"
  shows "node_inv env n db (HasRows node (ListNodeProfilesWithKey n db)) acc"
  using assms joined_rows by (auto simp: node_inv_def in_step_def rows_served list_all_iff)

lemma node_inv_builds:
  assumes "node_inv env n db (HasRows node rows) acc" "desiredState env now node rows site = Inr des"
  shows "node_inv env n db (Waiting \<lparr>T_at = now, T_rows = rows, T_des = des, T_job = job\<rparr>) acc"
proof -
  have "built env \<lparr>T_at = now, T_rows = rows, T_des = des, T_job = job\<rparr>"
    using assms(2) by (auto simp: built_def simp del: split_paired_Ex)
  then show ?thesis
    using assms(1) desiredState_sent(3) [OF assms(2)] by (auto simp: node_inv_def in_step_def)
qed

lemma node_inv_answers:
  assumes "node_inv env n db (Waiting t) acc"
  shows "node_inv env n db (Answered t res err) (Some t)"
proof -
  have "up_to_date n db (Some t)"
    unfolding up_to_date_def
  proof (intro allI impI)
    fix nd assume nd: "GetNode n db = Some nd \<and> \<not> N_dirty nd"
    then have "Des_DirtySeq (T_des t) = N_dirty_seq nd"
      using assms by (auto simp: node_inv_def in_step_def)
    then show "row_view ` (case Some t of None \<Rightarrow> {} | Some t \<Rightarrow> set (T_rows t)) = served db n"
      using assms nd by (auto simp: node_inv_def in_step_def)
  qed
  then show ?thesis
    using assms by (cases err) (auto simp: node_inv_def in_step_def)
qed

lemma node_inv_fails:
  assumes "node_inv env n db (Waiting t) acc"
  shows "node_inv env n db (Answered t res (Some e)) acc"
  using assms by (auto simp: node_inv_def in_step_def)

lemma node_inv_rereads:
  assumes "node_inv env n db (Answered t res err) acc"
  shows "node_inv env n db (Rechecked t res err ids) acc"
  using assms by (cases err) (auto simp: node_inv_def in_step_def)

lemma node_inv_records:
  assumes "node_inv env n db (Rechecked t res None ids) acc"
    and db': "db' = ActivatePendingKeysForNode (SetNodeApplied n (Des_DirtySeq (T_des t)) (SetProfilesSyncByIDs ids st db))"
  shows "node_inv env n db' Idle acc"
proof -
  have "up_to_date n db' acc"
    unfolding up_to_date_def
  proof (intro allI impI)
    fix nd' assume nd': "GetNode n db' = Some nd' \<and> \<not> N_dirty nd'"
    then obtain nd where nd: "GetNode n db = Some nd" "N_dirty_seq nd = Des_DirtySeq (T_des t) \<or> \<not> N_dirty nd"
      by (auto simp: db' GetNode_SetNodeApplied split: if_splits)
    show "row_view ` (case acc of None \<Rightarrow> {} | Some t \<Rightarrow> set (T_rows t)) = served db' n"
      using assms(1) nd by (auto simp: db' node_inv_def in_step_def up_to_date_def)
  qed
  then show ?thesis
    using assms(1) by (simp add: node_inv_def in_step_def)
qed

text \<open>What the worker requires of everyone else who writes the key tables.\<close>

definition pends :: "keydb \<Rightarrow> keydb \<Rightarrow> bool" where
  "pends db db' \<longleftrightarrow> (\<forall>p \<in> set (profiles db'). p \<in> set (profiles db) \<or> P_sync p = SyncStatePending)"

locale profile_writer =
  fixes good :: "keydb \<Rightarrow> bool"
    and "write" :: "keydb \<Rightarrow> 'c \<Rightarrow> 'r \<times> keydb"
  assumes write_good: "good db \<Longrightarrow> good (snd (write db c))"
    and write_marks: "good db \<Longrightarrow> marks_all db (snd (write db c))"
    and write_pends: "good db \<Longrightarrow> pends db (snd (write db c))"
    and good_marked: "good db \<Longrightarrow> good (mark_nodes_dirty now ns db)"
    and good_synced: "good db \<Longrightarrow> good (SetProfilesSyncByIDs ids st db)"
    and good_applied: "good db \<Longrightarrow> good (SetNodeApplied n seq db)"
    and good_activated: "good db \<Longrightarrow> good (ActivatePendingKeysForNode db)"
begin

definition fleet_inv :: "desired_env \<Rightarrow> fleet \<Rightarrow> bool" where
  "fleet_inv env w \<longleftrightarrow> good (kdb (pdb w)) \<and> (\<forall>n. node_inv env n (kdb (pdb w)) (phase_of w n) (accepted w n))"

lemma fleet_invI:
  assumes "good (kdb (pdb w'))" "fleet_inv env w" "\<And>m. m \<noteq> n \<Longrightarrow> phase_of w' m = phase_of w m \<and> accepted w' m = accepted w m"
    and "\<And>m. m \<noteq> n \<Longrightarrow> GetNode m (kdb (pdb w')) = GetNode m (kdb (pdb w)) \<and> served (kdb (pdb w')) m = served (kdb (pdb w)) m"
    and "node_inv env n (kdb (pdb w')) (phase_of w' n) (accepted w' n)"
  shows "fleet_inv env w'"
  unfolding fleet_inv_def
proof (intro conjI allI)
  fix m
  show "node_inv env m (kdb (pdb w')) (phase_of w' m) (accepted w' m)"
  proof (cases "m = n")
    case False
    then have "node_inv env m (kdb (pdb w)) (phase_of w' m) (accepted w' m)"
      using assms(2,3) by (simp add: fleet_inv_def)
    then show ?thesis
      using assms(4) False node_inv_same by blast
  qed (use assms(5) in simp)
qed (rule assms(1))

lemma fleet_inv_marks:
  assumes "fleet_inv env w" "good (kdb (pdb w'))" "marks_all (kdb (pdb w)) (kdb (pdb w'))"
    and "phase_of w' = phase_of w" "accepted w' = accepted w"
  shows "fleet_inv env w'"
  using assms node_inv_marks [OF _ assms(3)] by (simp add: fleet_inv_def)

lemma fleet_step_inv:
  assumes "fleet_step write strict env w w'" "fleet_inv env w"
  shows "fleet_inv env w'"
  using assms
proof (induction rule: fleet_step.induct)
  case (key_call w c)
  then show ?case
    by - (rule fleet_inv_marks [of env w], simp_all add: fleet_inv_def write_good write_marks)
next
  case node_settings
  have "marks_all db (mark_nodes_dirty now ns db)" for db now ns
    by (rule marks_all_key [where ns = ns and now = now]) simp_all
  then show ?case
    using good_marked node_settings by - (rule fleet_inv_marks [OF node_settings], simp_all add: fleet_inv_def)
next
  case (reads_node w n node)
  then show ?case
    by - (rule fleet_invI [where w = w and n = n], auto simp: fleet_inv_def read_node_def intro!: node_inv_reads_node node_inv_Idle)
next
  case (reads_rows w n node)
  then have "node_inv env n (kdb (pdb w)) (HasNode node) (accepted w n)"
    by (metis fleet_inv_def)
  then show ?case
    using reads_rows by - (rule fleet_invI [where w = w and n = n], auto simp: fleet_inv_def node_inv_reads_rows)
next
  case (builds w n node rows now des started job db)
  have "kdb db = kdb (pdb w)"
    using builds(3) by (auto simp: CreateApplyJob_def split: if_splits)
  moreover have "node_inv env n (kdb (pdb w)) (HasRows node rows) (accepted w n)"
    using builds by (metis fleet_inv_def)
  ultimately show ?case
    using builds by - (rule fleet_invI [where w = w and n = n], auto simp: fleet_inv_def node_inv_builds)
next
  case (answers w n t res)
  then have "node_inv env n (kdb (pdb w)) (Waiting t) (accepted w n)"
    by (metis fleet_inv_def)
  then show ?case
    using answers by - (rule fleet_invI [where w = w and n = n], auto simp: fleet_inv_def intro: node_inv_answers)
next
  case (fails w n t res e)
  then have "node_inv env n (kdb (pdb w)) (Waiting t) (accepted w n)"
    by (metis fleet_inv_def)
  then show ?case
    using fails by - (rule fleet_invI [where w = w and n = n], auto simp: fleet_inv_def apply_error_def intro: node_inv_fails)
next
  case (rereads w n t res err)
  then have "node_inv env n (kdb (pdb w)) (Answered t res err) (accepted w n)"
    by (metis fleet_inv_def)
  then show ?case
    using rereads by - (rule fleet_invI [where w = w and n = n], auto simp: fleet_inv_def intro: node_inv_rereads)
next
  case (records_success w n t res ids now db)
  have "node_inv env n (kdb (pdb w)) (Rechecked t res None ids) (accepted w n)"
    using records_success by (metis fleet_inv_def)
  then have "node_inv env n (kdb db) Idle (accepted w n)"
    using kdb_record_success [OF records_success(2)] by (rule node_inv_records)
  then show ?case
    using records_success good_synced good_applied good_activated
    by - (rule fleet_invI [where w = w and n = n], auto simp: fleet_inv_def kdb_record_success GetNode_SetNodeApplied option.map_ident)
next
  case (records_failure w n t res e ids now db)
  have "node_inv env n (kdb (pdb w)) Idle (accepted w n)"
    using records_failure node_inv_Idle by (metis fleet_inv_def)
  then have "node_inv env n (kdb db) Idle (accepted w n)"
    by (rule node_inv_same) (simp_all add: kdb_record_failure [OF records_failure(2)])
  then show ?case
    using records_failure good_synced
    by - (rule fleet_invI [where w = w and n = n], auto simp: fleet_inv_def kdb_record_failure)
next
  case (gives_up w n)
  then show ?case
    by (auto simp: fleet_inv_def intro: node_inv_Idle)
qed

lemma fleet_run_inv:
  assumes "(fleet_step write strict env)\<^sup>*\<^sup>* w w'" "fleet_inv env w"
  shows "fleet_inv env w'"
  using assms by (induction) (auto intro: fleet_step_inv)

end

subsection \<open>A synced profile was delivered\<close>

definition own :: "Profile \<Rightarrow> _" where
  "own p = (P_id p, P_name p, P_secret_enc p, P_backend p, P_carrier p, P_limits p)"

definition own_row :: "ListNodeProfilesWithKeyRow \<Rightarrow> _" where
  "own_row r = (LP_ID r, LP_Name r, LP_SecretEnc r, LP_Backend r, LP_CarrierMode r, LP_Limits r)"

lemma own_profile_row [simp]: "own_row (profile_row db p) = own p"
  by (simp add: own_row_def own_def profile_row_def Let_def)

lemma LP_ID_profile_row [simp]: "LP_ID (profile_row db p) = P_id p"
  by (simp add: profile_row_def Let_def)

lemma own_listed: "p \<in> set (profiles db) \<Longrightarrow> own p \<in> own_row ` set (ListNodeProfilesWithKey (P_node p) db)"
  by (auto simp: ListNodeProfilesWithKey_def image_image)

definition carries :: "keydb \<Rightarrow> uuid \<Rightarrow> ListNodeProfilesWithKeyRow list \<Rightarrow> bool" where
  "carries db n rows \<longleftrightarrow>
     (\<forall>p \<in> set (profiles db). P_node p = n \<and> P_sync p = SyncStateSynced \<longrightarrow> own p \<in> own_row ` set rows)"

definition confirmed :: "keydb \<Rightarrow> uuid \<Rightarrow> phase \<Rightarrow> bool" where
  "confirmed db n ph = (case ph of
     Rechecked t _ _ ids \<Rightarrow> \<forall>p \<in> set (profiles db). P_id p \<in> set ids \<longrightarrow> P_node p = n \<and> own p \<in> own_row ` set (T_rows t)
   | _ \<Rightarrow> True)"

definition sync_inv :: "uuid \<Rightarrow> keydb \<Rightarrow> phase \<Rightarrow> taken option \<Rightarrow> bool" where
  "sync_inv n db ph acc \<longleftrightarrow>
     carries db n (case acc of None \<Rightarrow> [] | Some t \<Rightarrow> T_rows t) \<and>
     (\<forall>rows. rows_of ph = Some rows \<longrightarrow> carries db n rows) \<and> confirmed db n ph"

lemma carries_pends: "carries db n rows \<Longrightarrow> pends db db' \<Longrightarrow> carries db' n rows"
  by (fastforce simp: carries_def pends_def)

lemma sync_inv_pends:
  assumes "sync_inv n db ph acc" "pends db db'" "rechecked ph \<longrightarrow> profiles db' = profiles db"
  shows "sync_inv n db' ph acc"
  using assms carries_pends [OF _ assms(2)] by (cases ph) (auto simp: sync_inv_def confirmed_def rechecked_def)

text \<open>Setting the state of profiles that belong to node \<open>n\<close> only.\<close>

lemma sync_inv_other:
  assumes "sync_inv m db ph acc" "m \<noteq> n" "\<forall>p \<in> set (profiles db). P_id p \<in> set ids \<longrightarrow> P_node p = n"
    and "profiles db' = profiles (SetProfilesSyncByIDs ids st db)"
  shows "sync_inv m db' ph acc"
proof -
  have "carries db' m rows" if "carries db m rows" for rows
    using that assms(2-4) by (fastforce simp: carries_def SetProfilesSyncByIDs_def set_update_where own_def)
  moreover have "confirmed db' m ph" if "confirmed db m ph"
    using that assms(4) by (cases ph) (fastforce simp: confirmed_def SetProfilesSyncByIDs_def set_update_where own_def)+
  ultimately show ?thesis
    using assms(1) by (simp add: sync_inv_def)
qed

lemma carries_synced:
  assumes "carries db n rows" "\<forall>p \<in> set (profiles db). P_id p \<in> set ids \<longrightarrow> own p \<in> own_row ` set rows"
    and "profiles db' = profiles (SetProfilesSyncByIDs ids st db)"
  shows "carries db' n rows"
  using assms by (fastforce simp: carries_def SetProfilesSyncByIDs_def set_update_where own_def)

lemma carries_failed:
  assumes "carries db n rows" "profiles db' = profiles (SetProfilesSyncByIDs ids SyncStateFailed db)"
  shows "carries db' n rows"
  using assms by (fastforce simp: carries_def SetProfilesSyncByIDs_def set_update_where own_def)

lemma profiles_statements [simp]:
  "profiles (SetNodeApplied i seq db) = profiles db" "profiles (ActivatePendingKeysForNode db) = profiles db"
  by (simp_all add: SetNodeApplied_def ActivatePendingKeysForNode_def)

lemma confirmed_reread:
  assumes "distinct (map P_id (profiles db))" "built env t"
    and "fingerprints_differ env (T_rows t) (ListNodeProfilesWithKey n db)"
  shows "confirmed db n (Rechecked t res err (ProfilesStillAtRevision env n (Des_Revisions (T_des t)) db))"
  unfolding confirmed_def phase.case
proof (intro ballI impI)
  fix p assume p: "p \<in> set (profiles db)" "P_id p \<in> set (ProfilesStillAtRevision env n (Des_Revisions (T_des t)) db)"
  have rev: "Des_Revisions (T_des t) = revisions env (default_first (T_rows t))"
    using assms(2) desiredState_sent(4) by (auto simp: built_def simp del: split_paired_Ex)
  obtain q where q: "q \<in> set (profiles db)" "P_node q = n" "P_id q = P_id p"
    "revisions env (default_first (T_rows t)) (P_id p) = Some (profileRevision env (profile_row db q))"
    using p(2) by (auto simp: ProfilesStillAtRevision_def ListNodeProfilesWithKey_def rev)
  then have "q = p"
    using p(1) assms(1) by (metis distinct_map inj_on_contraD)
  moreover obtain r where r: "r \<in> set (T_rows t)" "LP_ID r = P_id p" "profileRevision env r = profileRevision env (profile_row db q)"
    using revisions_sent [OF q(4)] by auto
  moreover have "LP_ID (profile_row db q) = P_id q" "profile_row db q \<in> set (ListNodeProfilesWithKey n db)"
    using q by (auto simp: ListNodeProfilesWithKey_def)
  ultimately have "r = profile_row db p"
    using assms(3) q(3) by (simp add: fingerprints_differ_def)
  then show "P_node p = n \<and> own p \<in> own_row ` set (T_rows t)"
    using q(2) \<open>q = p\<close> r(1) own_profile_row by (metis image_eqI)
qed

locale strict_writer = profile_writer +
  assumes good_ids: "good db \<Longrightarrow> distinct (map P_id (profiles db))"
begin

definition strict_inv :: "desired_env \<Rightarrow> fleet \<Rightarrow> bool" where
  "strict_inv env w \<longleftrightarrow> fleet_inv env w \<and> (\<forall>n. sync_inv n (kdb (pdb w)) (phase_of w n) (accepted w n))"

lemma strict_invI:
  assumes "fleet_step write True env w w'" "strict_inv env w" "\<And>n. sync_inv n (kdb (pdb w')) (phase_of w' n) (accepted w' n)"
  shows "strict_inv env w'"
  using assms fleet_step_inv by (auto simp: strict_inv_def)

lemma strict_step_inv:
  assumes "fleet_step write True env w w'" "strict_inv env w"
  shows "strict_inv env w'"
proof (rule strict_invI [OF assms])
  fix m
  have inv: "good (kdb (pdb w))" "node_inv env m (kdb (pdb w)) (phase_of w m) (accepted w m)"
    "sync_inv m (kdb (pdb w)) (phase_of w m) (accepted w m)" for m
    using assms(2) by (auto simp: strict_inv_def fleet_inv_def)
  from assms(1) show "sync_inv m (kdb (pdb w')) (phase_of w' m) (accepted w' m)"
  proof cases
    case (key_call c)
    then show ?thesis
      using sync_inv_pends [OF inv(3) [of m] write_pends [OF inv(1)]] by auto
  next
    case node_settings
    then show ?thesis
      using sync_inv_pends [OF inv(3) [of m]] by (auto simp: pends_def)
  next
    case (reads_node n node)
    then show ?thesis
      using inv(3) [of m] by (auto simp: sync_inv_def confirmed_def)
  next
    case (reads_rows n node)
    then show ?thesis
      using inv(3) [of m] own_listed by (auto simp: sync_inv_def confirmed_def carries_def)
  next
    case (builds n node rows now des started job db)
    moreover have "kdb db = kdb (pdb w)"
      using builds(4) by (auto simp: CreateApplyJob_def split: if_splits)
    ultimately show ?thesis
      using inv(3) [of m] by (auto simp: sync_inv_def confirmed_def)
  next
    case (answers n t res)
    then show ?thesis
      using inv(3) [of m] by (auto simp: sync_inv_def confirmed_def)
  next
    case (fails n t res e)
    then show ?thesis
      using inv(3) [of m] by (auto simp: sync_inv_def confirmed_def)
  next
    case (rereads n t res err)
    have "built env t"
      using inv(2) [of n] rereads by (simp add: node_inv_def)
    then show ?thesis
      using inv(3) [of m] rereads confirmed_reread [OF good_ids [OF inv(1)]] by (auto simp: sync_inv_def)
  next
    case (records_success n t res ids now db)
    note k = kdb_record_success [OF records_success(3)]
    have ids: "\<forall>p \<in> set (profiles (kdb (pdb w))). P_id p \<in> set ids \<longrightarrow> P_node p = n \<and> own p \<in> own_row ` set (T_rows t)"
      using inv(3) [of n] records_success by (simp add: sync_inv_def confirmed_def)
    have p: "profiles (kdb db) = profiles (SetProfilesSyncByIDs ids SyncStateSynced (kdb (pdb w)))"
      by (simp add: k)
    show ?thesis
    proof (cases "m = n")
      case True
      have "accepted w n = Some t" "carries (kdb (pdb w)) n (T_rows t)"
        using inv(2,3) [of n] records_success by (auto simp: node_inv_def sync_inv_def)
      then show ?thesis
        using records_success True carries_synced [OF _ _ p] ids by (auto simp: sync_inv_def confirmed_def)
    next
      case False
      then show ?thesis
        using records_success sync_inv_other [OF inv(3) False _ p] ids by simp
    qed
  next
    case (records_failure n t res e ids now db)
    note k = kdb_record_failure [OF records_failure(3)]
    have ids: "\<forall>p \<in> set (profiles (kdb (pdb w))). P_id p \<in> set ids \<longrightarrow> P_node p = n"
      using inv(3) [of n] records_failure by (simp add: sync_inv_def confirmed_def)
    have p: "profiles (kdb db) = profiles (SetProfilesSyncByIDs ids SyncStateFailed (kdb (pdb w)))"
      by (simp add: k)
    show ?thesis
    proof (cases "m = n")
      case True
      then show ?thesis
        using records_failure inv(3) [of n] carries_failed [OF _ p] by (auto simp: sync_inv_def confirmed_def)
    next
      case False
      then show ?thesis
        using records_failure sync_inv_other [OF inv(3) False ids p] by simp
    qed
  next
    case (gives_up n)
    then show ?thesis
      using inv(3) [of m] by (auto simp: sync_inv_def confirmed_def)
  qed
qed

lemma strict_run_inv:
  assumes "(fleet_step write True env)\<^sup>*\<^sup>* w w'" "strict_inv env w"
  shows "strict_inv env w'"
  using assms by (induction) (auto intro: strict_step_inv)

end

end
