(* ===== verification/Worker_Apply_Properties.thy ===== *)
theory Worker_Apply_Properties
  imports Worker_Apply_Safety Key_Properties
begin

text \<open>
  The key service as the writer the apply worker shares its tables with, and what the two
  guarantee together: a node the panel shows as clean was last given exactly what the tables now
  say, and, but for one race, a profile shown as synced was delivered as it is.
\<close>

subsection \<open>Every change of a profile by the key service leaves it pending\<close>

lemma pends_refl [simp]: "pends db db"
  by (simp add: pends_def)

lemma pends_subset: "set (profiles db') \<subseteq> set (profiles db) \<Longrightarrow> pends db db'"
  by (auto simp: pends_def)

lemma pends_trans: "pends a b \<Longrightarrow> pends b c \<Longrightarrow> pends a c"
  by (auto simp: pends_def)

lemma pends_Tx: "(\<And>x db'. body db = Inr (x, db') \<Longrightarrow> pends db db') \<Longrightarrow> pends db (snd (Tx faulty body db))"
  by (auto simp: Tx_def split: sum.splits)

lemma pends_same: "profiles db' = profiles db \<Longrightarrow> pends db db'"
  by (simp add: pends_subset)

lemma pends_dirtyKeyNodes [simp]: "pends db (dirtyKeyNodes now k db') = pends db db'"
  by (simp add: pends_def dirtyKeyNodes_mark)

lemma pends_update_both: "(\<And>p. P_sync (g p) = SyncStatePending) \<Longrightarrow> pends db (update_both k f g db)"
  by (auto simp: pends_def update_both_def set_update_where)

lemma pends_update_key [simp]: "pends db (update_key k f db') = pends db db'" "pends db (UpdateKey env now u k db') = pends db db'"
  by (simp_all add: pends_def update_key_def UpdateKey_columns)

lemma pends_delete: "pends db db' \<Longrightarrow> pends db (delete_profiles P db')" "pends db db' \<Longrightarrow> pends db (DeleteBinding k n db')"
  by (auto simp: pends_def delete_profiles_def DeleteBinding_def)

lemma pends_DeleteKey: "pends db db' \<Longrightarrow> pends db (DeleteKey k db')"
  by (auto simp: pends_def DeleteKey_def DeleteProfilesByKey_def delete_profiles_def Let_def)

lemma pends_SetNodeDirty [simp]: "pends db (SetNodeDirty now d n db') = pends db db'"
  by (simp add: pends_def)

lemma pends_issue: "issueSubscriptionTx env now r k db = Inr (tok, db') \<Longrightarrow> pends db db'"
  by (erule issue_shape) (simp add: pends_same)

lemma pends_SetKeySlug: "SetKeySlug slug k db = Inr db' \<Longrightarrow> pends db db'"
  by (auto simp: SetKeySlug_def split: if_splits)

lemma pends_bindTx:
  assumes "bindTx env now key n pid db = Inr (u, db')"
  shows "pends db db'"
  using bindTx_shape [OF assms] by (auto simp: pends_def new_profile_def)

lemma pends_bind_nodes: "bind_nodes env now key pids ns db = Inr (u, db') \<Longrightarrow> pends db db'"
proof (induction ns arbitrary: db)
  case (Cons n ns)
  then show ?case
    using pends_bindTx pends_trans by (fastforce split: sum.splits)
qed simp

lemma pends_createTx:
  assumes "createTx env now inp r db = Inr (k, db')"
  shows "pends db db'"
proof -
  from assms obtain enc db1 u db2 tok db3 where
    db1: "CreateKey (new_key env inp (R_key r) enc) db = Inr db1"
    and db2: "bind_nodes env now (new_key env inp (R_key r) enc) (R_profile r) (NodeIDs inp) db1 = Inr (u, db2)"
    and db3: "issueSubscriptionTx env now r (R_key r) db2 = Inr (tok, db3)"
    and slug: "set_new_slug (SubSlug inp) (new_key env inp (R_key r) enc) db3 = Inr (k, db')"
    by (auto simp: createTx_def Let_def new_key_def split: option.splits sum.splits if_splits)
  have "pends db db1"
    using db1 by (auto simp: CreateKey_def pends_same split: if_splits)
  moreover have "pends db3 db'"
    using slug pends_SetKeySlug by (auto simp: set_new_slug_def split: if_splits sum.splits)
  ultimately show ?thesis
    using pends_bind_nodes [OF db2] pends_issue [OF db3] pends_trans by blast
qed

lemma pends_create_each: "create_each chk env now items db = Inr (ks, db') \<Longrightarrow> pends db db'"
proof (induction items arbitrary: db ks)
  case (Cons it items)
  then show ?case
    using pends_createTx pends_trans by (cases it) (fastforce split: option.splits sum.splits)
qed simp

lemma pends_Import: "pends db (snd (Import env now faulty inp items rs db))"
proof -
  have "pends db (snd (Tx faulty (\<lambda>db. if taken_secrets env seen db \<noteq> [] then Inl (f db)
      else case checkCapacity env ns m db of Some e \<Rightarrow> Inl e | None \<Rightarrow> create_each chk env now xs db) db))"
    for seen f ns m chk xs
    using pends_create_each by (intro pends_Tx) (auto split: option.splits if_splits)
  then show ?thesis
    unfolding Import_def by (simp split: prod.split option.split)
qed

lemma pends_Update: "wf env db \<Longrightarrow> pends db (snd (Update env now faulty u k db))"
  by (auto simp: Update_def Let_def resettle_profiles_both pends_update_both
      intro!: pends_Tx split: option.splits if_splits)

lemma pends_others:
  assumes "wf env db"
  shows "pends db (snd (Create env now faulty inp r db))" "pends db (snd (CreateBatch env now faulty inp p c rs db))"
    "pends db (snd (Bind env now faulty k n pid db))" "pends db (snd (Unbind now faulty k n db))"
    "pends db (snd (Revoke now faulty k db))" "pends db (snd (Rotate env now faulty r k db))"
    "pends db (snd (Delete now faulty k db))" "pends db (snd (Extend now faulty t k db))"
    "pends db (snd (IssueSubscription env now faulty r k db))" "pends db (snd (SetDisabled now faulty b k db))"
    "pends db (snd (Expire now faulty k db))" "pends db (snd (SetSlug faulty k slug db))"
  using assms pends_createTx pends_create_each pends_bindTx pends_issue pends_SetKeySlug
  by (auto simp: Create_def CreateBatch_def Bind_def Unbind_def Revoke_def Rotate_def Delete_def Extend_def
      IssueSubscription_def SetDisabled_def Expire_def SetSlug_def Let_def rotate_profiles_both pends_update_both
      DeleteProfile_def DeleteProfilesByKey_def pends_delete pends_DeleteKey SetKeyStatus_def SetKeyExpiry_def
      SetKeyDisabled_def SetKeyExpired_def intro!: pends_Tx
      split: option.splits if_splits sum.splits)

lemma key_step_pends: "wf env db \<Longrightarrow> pends db (snd (key_step env db c))"
  by (cases "C_op c") (simp_all add: key_step_def pends_others pends_Import pends_Update)

subsection \<open>The statements of the worker keep the key tables well formed\<close>

lemma wf_SetNodeApplied: "wf env db \<Longrightarrow> wf env (SetNodeApplied n seq db)"
proof -
  assume wf: "wf env db"
  let ?db = "SetNodeApplied n seq db"
  have ids: "map N_id (nodes ?db) = map N_id (nodes db)"
    by (simp add: SetNodeApplied_def)
  then have "N_id ` set (nodes ?db) = N_id ` set (nodes db)"
    by (metis list.set_map)
  moreover have keep: "keys ?db = keys db" "bindings ?db = bindings db" "tokens ?db = tokens db"
    by (simp_all add: SetNodeApplied_def)
  ultimately have "wf_ids ?db" "wf_profiles ?db" "wf_bindings ?db"
    using wf ids by (simp_all only: wf_def wf_ids_def wf_profiles_def wf_bindings_def profile_bindings_def profiles_statements)
      blast+
  moreover have "wf_capacity ?db"
    using wf by (auto simp: wf_def wf_capacity_def CountNodeProfiles_def SetNodeApplied_def ball_update_where)
  moreover have "wf_slugs ?db" "wf_tokens ?db" "wf_json env ?db"
    using wf by (simp_all only: wf_def wf_slugs_def wf_tokens_def wf_json_def live_tokens_def keep) blast+
  ultimately show ?thesis
    by (simp add: wf_def)
qed

lemma wf_SetProfilesSyncByIDs: "wf env db \<Longrightarrow> wf env (SetProfilesSyncByIDs ids st db)"
proof -
  assume wf: "wf env db"
  let ?db = "SetProfilesSyncByIDs ids st db"
  have keep: "nodes ?db = nodes db" "keys ?db = keys db" "bindings ?db = bindings db" "tokens ?db = tokens db"
    "map P_id (profiles ?db) = map P_id (profiles db)"
    by (simp_all add: SetProfilesSyncByIDs_def)
  have "profile_bindings ?db = profile_bindings db"
    using profile_bindings_update [where db = db and ks = "keys db" and P = "\<lambda>p. P_id p \<in> set ids" and g = "\<lambda>p. p\<lparr>P_sync := st\<rparr>"]
    by (simp add: keeps_place_def SetProfilesSyncByIDs_def)
  moreover have "CountNodeProfiles n ?db = CountNodeProfiles n db" for n
    by (simp add: CountNodeProfiles_def SetProfilesSyncByIDs_def filter_update_where)
  ultimately have "wf_ids ?db" "wf_bindings ?db" "wf_capacity ?db" "wf_slugs ?db" "wf_tokens ?db" "wf_json env ?db"
    using wf by (simp_all only: wf_def wf_ids_def wf_bindings_def wf_capacity_def wf_slugs_def wf_tokens_def wf_json_def
        live_tokens_def keep) blast+
  moreover have "wf_profiles ?db"
    unfolding wf_profiles_def
  proof
    fix p assume "p \<in> set (profiles ?db)"
    then obtain q where "q \<in> set (profiles db)" "P_node p = P_node q" "P_key p = P_key q" "\<And>k. mirrors p k = mirrors q k"
      by (auto simp: SetProfilesSyncByIDs_def set_update_where mirrors_def)
    then show "P_node p \<in> N_id ` set (nodes ?db) \<and> (\<forall>k. P_key p = Some k \<longrightarrow>
        (\<exists>key \<in> set (keys ?db). K_id key = k \<and> K_status key \<noteq> KeyStatusRevoked \<and> mirrors p key))"
      using wf by (simp add: wf_def wf_profiles_def keep)
  qed
  ultimately show ?thesis
    by (simp add: wf_def)
qed

lemma wf_Activate: "wf env db \<Longrightarrow> wf env (ActivatePendingKeysForNode db)"
proof -
  assume wf: "wf env db"
  let ?db = "ActivatePendingKeysForNode db"
  have keep: "nodes ?db = nodes db" "bindings ?db = bindings db" "tokens ?db = tokens db" "profiles ?db = profiles db"
    "map K_id (keys ?db) = map K_id (keys db)"
    by (simp_all add: ActivatePendingKeysForNode_def)
  then have "wf_ids ?db" "wf_bindings ?db" "wf_capacity ?db" "wf_tokens ?db"
    using wf by (simp_all only: wf_def wf_ids_def wf_bindings_def wf_capacity_def wf_tokens_def
        live_tokens_def profile_bindings_def CountNodeProfiles_def) blast+
  moreover have key: "\<exists>y \<in> set (keys ?db). K_id y = K_id x \<and> (K_status x \<noteq> KeyStatusRevoked \<longrightarrow> K_status y \<noteq> KeyStatusRevoked) \<and>
      (\<forall>p. mirrors p y = mirrors p x)" if "x \<in> set (keys db)" for x
    using that unfolding ActivatePendingKeysForNode_def
    by (intro bexI [of _ "if _ x then x\<lparr>K_status := KeyStatusActive\<rparr> else x"]) (auto simp: set_update_where mirrors_def)
  have old: "\<exists>x \<in> set (keys db). K_id y = K_id x \<and> K_slug y = K_slug x \<and> K_limits y = K_limits x \<and>
      K_telemt_limits y = K_telemt_limits x" if "y \<in> set (keys ?db)" for y
    using that by (auto simp: ActivatePendingKeysForNode_def set_update_where)
  have "wf_profiles ?db"
    unfolding wf_profiles_def keep
  proof (intro ballI conjI allI impI)
    fix p k assume p: "p \<in> set (profiles db)"
    then show "P_node p \<in> N_id ` set (nodes db)"
      using wf by (simp add: wf_def wf_profiles_def)
    assume "P_key p = Some k"
    then obtain x where "x \<in> set (keys db)" "K_id x = k" "K_status x \<noteq> KeyStatusRevoked" "mirrors p x"
      using wf p by (auto simp: wf_def wf_profiles_def)
    then show "\<exists>key \<in> set (keys ?db). K_id key = k \<and> K_status key \<noteq> KeyStatusRevoked \<and> mirrors p key"
      using key by metis
  qed
  moreover have "wf_slugs ?db"
    using wf old unfolding wf_def wf_slugs_def by metis
  moreover have "wf_json env ?db"
    using wf old unfolding wf_def wf_json_def by metis
  ultimately show ?thesis
    by (simp add: wf_def)
qed

interpretation keywriter: strict_writer "\<lambda>db. jsonb_normal env \<and> wf env db" "key_step env" for env
  by unfold_locales
    (simp_all add: key_step_wf key_step_marks key_step_pends wf_SetNodeApplied wf_SetProfilesSyncByIDs wf_Activate,
      simp add: wf_def wf_ids_def)

subsection \<open>A panel from its first node on\<close>

definition fresh_fleet :: "node_row list \<Rightarrow> (uuid \<Rightarrow> node_cols) \<Rightarrow> NodeSite list \<Rightarrow> fleet" where
  "fresh_fleet ns cs ss =
     \<lparr>pdb = \<lparr>kdb = fresh_panel ns, cols = cs, sites = ss, jobs = [], alerts = []\<rparr>, phase_of = (\<lambda>_. Idle), accepted = Map.empty\<rparr>"

lemma fresh_fleet_inv:
  assumes "jsonb_normal (DE_keys env)" "good_nodes ns"
  shows "keywriter.strict_inv (DE_keys env) env (fresh_fleet ns cs ss)"
  unfolding keywriter.strict_inv_def keywriter.fleet_inv_def
  using assms wf_fresh_panel [of ns "DE_keys env"]
  by (simp add: fresh_fleet_def node_inv_def in_step_def up_to_date_def served_def sync_inv_def carries_def confirmed_def)
    (simp add: fresh_panel_def)

lemma sent_profiles_eq:
  assumes "row_view ` A = row_view ` B" "\<And>r. r \<in> A \<union> B \<Longrightarrow> joined r"
  shows "sent_profile env now ` A = sent_profile env now ` B"
proof -
  have half: "sent_profile env now ` A \<subseteq> sent_profile env now ` B"
    if sub: "row_view ` A \<subseteq> row_view ` B" and j: "\<And>r. r \<in> A \<union> B \<Longrightarrow> joined r" for A B
  proof
    fix x assume "x \<in> sent_profile env now ` A"
    then obtain r where r: "r \<in> A" "x = sent_profile env now r" by blast
    then obtain r' where "r' \<in> B" "row_view r = row_view r'"
      using sub by blast
    then show "x \<in> sent_profile env now ` B"
      using r j sent_profile_view [of r r' env now] by auto
  qed
  show ?thesis
    using half [of A B] half [of B A] assms by blast
qed

definition given_profiles :: "taken option \<Rightarrow> ReqProfile set" where
  "given_profiles acc = (case acc of None \<Rightarrow> {} | Some t \<Rightarrow> set (Req_Profiles (Des_Req (T_des t))))"

definition given_at :: "taken option \<Rightarrow> gotime" where
  "given_at acc = (case acc of None \<Rightarrow> 0 | Some t \<Rightarrow> T_at t)"

subsection \<open>Applies that run through\<close>

text \<open>An apply no other transaction interferes with, up to the driver's answer and to the end.\<close>

lemma runs_to_answer:
  assumes "phase_of w n = Idle" "read_node n (pdb w) = Some node"
    and "desiredState env now node (ListNodeProfilesWithKey n (kdb (pdb w))) (GetNodeSite n (pdb w)) = Inr des"
    and "CreateApplyJob now job n (apply_kind des) (pdb w) = Some db"
    and t: "t = \<lparr>T_at = now, T_rows = ListNodeProfilesWithKey n (kdb (pdb w)), T_des = des, T_job = job\<rparr>"
  shows "(fleet_step write strict env)\<^sup>*\<^sup>* w
    (w\<lparr>pdb := db, phase_of := (phase_of w)(n := Answered t res (apply_error (Des_Req des) res None)), accepted := (accepted w)(n \<mapsto> t)\<rparr>)"
proof -
  let ?rows = "ListNodeProfilesWithKey n (kdb (pdb w))"
  let ?a = "w\<lparr>phase_of := (phase_of w)(n := HasNode node)\<rparr>"
  let ?b = "w\<lparr>phase_of := (phase_of w)(n := HasRows node ?rows)\<rparr>"
  let ?c = "w\<lparr>pdb := db, phase_of := (phase_of w)(n := Waiting t)\<rparr>"
  let ?d = "w\<lparr>pdb := db, phase_of := (phase_of w)(n := Answered t res (apply_error (Des_Req des) res None)), accepted := (accepted w)(n \<mapsto> t)\<rparr>"
  have "fleet_step write strict env w ?a"
    using assms(1,2) by (rule fleet_step.reads_node)
  moreover have "fleet_step write strict env ?a ?b"
    using fleet_step.reads_rows [of ?a n node "write" strict env] by simp
  moreover have "fleet_step write strict env ?b ?c"
    using fleet_step.builds [of ?b n node ?rows env now des now job db "write" strict] assms(3,4) by (simp add: t)
  moreover have "fleet_step write strict env ?c ?d"
    using fleet_step.answers [of ?c n t "write" strict env res] by (simp add: t)
  ultimately show ?thesis
    by (meson converse_rtranclp_into_rtranclp rtranclp.rtrancl_refl)
qed

lemma runs_to_end:
  assumes "phase_of w n = Answered t res None" "strict \<longrightarrow> fingerprints_differ env (T_rows t) (ListNodeProfilesWithKey n (kdb (pdb w)))"
    and "record_success now (T_job t) n res (T_des t) (ProfilesStillAtRevision env n (Des_Revisions (T_des t)) (kdb (pdb w))) (pdb w) = Some db"
  shows "(fleet_step write strict env)\<^sup>*\<^sup>* w (w\<lparr>pdb := db, phase_of := (phase_of w)(n := Idle)\<rparr>)"
proof -
  let ?ids = "ProfilesStillAtRevision env n (Des_Revisions (T_des t)) (kdb (pdb w))"
  let ?a = "w\<lparr>phase_of := (phase_of w)(n := Rechecked t res None ?ids)\<rparr>"
  have "fleet_step write strict env w ?a"
    using assms(1,2) by (rule fleet_step.rereads)
  moreover have "fleet_step write strict env ?a (w\<lparr>pdb := db, phase_of := (phase_of w)(n := Idle)\<rparr>)"
    using fleet_step.records_success [of ?a n t res ?ids now db "write" strict env] assms(3) by simp
  ultimately show ?thesis
    by (meson converse_rtranclp_into_rtranclp rtranclp.rtrancl_refl)
qed

definition test_desired :: desired_env where
  "test_desired = \<lparr>DE_keys = test_env, sha256 = id, UnmarshalTelemt = (\<lambda>_. None), UnmarshalLimits = (\<lambda>_. None),
     UnmarshalPolicyOnto = (\<lambda>_ _. None), UnmarshalBundle = (\<lambda>_. None)\<rparr>"

definition test_cols :: node_cols where
  "test_cols = \<lparr>NC_engine = ''tproxy'', NC_public_ip = [], NC_tls_domain = [], NC_tls_domains = [], NC_classic_port = 0,
     NC_ad_tag = [], NC_web_policy = [], NC_web_capacity = None, NC_agent_version = [], NC_telemt_version = [],
     NC_applied_base_path = [], NC_last_apply_at = None\<rparr>"

definition test_result :: ApplyResult where
  "test_result = \<lparr>Res_OK = True, Res_RestartedRelay = False, Res_RestartedMTProxy = False, Res_RolledBack = False, Res_Log = [],
     Res_DeferredFields = [], Res_RestartRequired = False, Res_AppliedWebBasePath = None\<rparr>"

text \<open>
  One key is created on a node, then the node's apply is built, sent and answered; \<open>applied\<close> also
  has it recorded.
\<close>

definition test_fleet :: fleet where
  "test_fleet = fresh_fleet [test_node 7] (\<lambda>_. test_cols) []"

definition created_db :: keydb where
  "created_db = \<lparr>nodes = [(test_node 7)\<lparr>N_dirty := True, N_dirty_seq := 1, N_dirty_since := Some 0\<rparr>], keys = [test_key],
     profiles = [new_profile test_env test_key 7 8], bindings = [\<lparr>B_key = 1, B_node = 7, B_profile = 8\<rparr>],
     tokens = [\<lparr>T_hash = ''ht'', T_key = 1, T_revoked_at = None, T_enc = ''#t''\<rparr>]\<rparr>"

definition created :: fleet where
  "created = test_fleet\<lparr>pdb := (pdb test_fleet)\<lparr>kdb := created_db\<rparr>\<rparr>"

definition test_row :: ListNodeProfilesWithKeyRow where
  "test_row = \<lparr>LP_ID = 8, LP_Name = ''k123456789012'', LP_SecretEnc = ''#s'', LP_Backend = ''127.0.0.1:2398'',
     LP_CarrierMode = ''https'', LP_Limits = ''{}'', LP_KeyTelemtLimits = ''{}'', LP_KeyExpiresAt = None,
     LP_KeyStatus = Some KeyStatusPending, LP_KeyDisabledAt = None\<rparr>"

definition test_desire :: Desired where
  "test_desire = \<lparr>Des_Req = empty_request\<lparr>Req_Profiles := [request_profile test_desired 1 test_row ''s''], Req_MTProxySecrets := [''s'']\<rparr>,
     Des_ProfileIDs = [8], Des_Revisions = [8 \<mapsto> profileRevision test_desired test_row], Des_DirtySeq = 1, Des_SiteHash = []\<rparr>"

definition test_taken :: taken where
  "test_taken = \<lparr>T_at = 1, T_rows = [test_row], T_des = test_desire, T_job = 5\<rparr>"

definition test_job :: ApplyJob where
  "test_job = \<lparr>J_id = 5, J_node = 7, J_kind = ApplyKindProfiles, J_status = ApplyStatusRunning, J_started = Some 1,
     J_finished = None, J_error = [], J_log = []\<rparr>"

definition answered :: fleet where
  "answered = created\<lparr>pdb := (pdb created)\<lparr>jobs := [test_job]\<rparr>,
     phase_of := (phase_of created)(7 := Answered test_taken test_result None), accepted := (accepted created)(7 \<mapsto> test_taken)\<rparr>"

definition applied :: fleet where
  "applied = answered\<lparr>pdb := the (record_success 2 5 7 test_result test_desire [8] (pdb answered)),
     phase_of := (phase_of answered)(7 := Idle)\<rparr>"

lemma created_by_call:
  "snd (key_step test_env (fresh_panel [test_node 7]) \<lparr>C_now = 0, C_faulty = False, C_op = Op_Create test_input (test_rand 1)\<rparr>) = created_db"
  by code_simp

lemma created_kdb [simp]: "kdb (pdb created) = created_db" "sites (pdb created) = []" "jobs (pdb created) = []"
  "phase_of created = (\<lambda>_. Idle)" "accepted created = Map.empty" "cols (pdb created) = (\<lambda>_. test_cols)"
  by (simp_all add: created_def test_fleet_def fresh_fleet_def)

lemma created_rows: "ListNodeProfilesWithKey 7 created_db = [test_row]"
  by code_simp

lemma test_row_fields [simp]:
  "LP_ID test_row = 8" "LP_Name test_row = ''k123456789012''" "LP_SecretEnc test_row = ''#s''" "profileEnabled test_row 1"
  "Decrypt (DE_keys test_desired) (CHR ''#'' # s) = Some s"
  by (simp_all add: test_row_def profileEnabled_def test_desired_def test_env_def)

lemma created_node: "GetNode 7 created_db = Some ((test_node 7)\<lparr>N_dirty := True, N_dirty_seq := 1, N_dirty_since := Some 0\<rparr>)"
  by (simp add: created_db_def GetNode_def test_node_def)

lemma created_desire: "desiredState test_desired 1 (the (GetNode 7 created_db), test_cols) [test_row] None = Inr test_desire"
  by (simp add: desiredState_def node_request_def test_cols_def default_first_def add_site_def test_desire_def revisions_def
      created_node test_node_def Let_def)

lemma answered_reachable: "(fleet_step (key_step test_env) strict test_desired)\<^sup>*\<^sup>* test_fleet answered"
proof -
  have "fleet_step (key_step test_env) strict test_desired test_fleet created"
    using fleet_step.key_call [of strict test_fleet "key_step test_env" test_desired
        "\<lparr>C_now = 0, C_faulty = False, C_op = Op_Create test_input (test_rand 1)\<rparr>"] created_by_call
    by (simp add: created_def test_fleet_def fresh_fleet_def rechecked_def)
  moreover have "(fleet_step (key_step test_env) strict test_desired)\<^sup>*\<^sup>* created answered"
    using runs_to_answer [of created 7 "(the (GetNode 7 created_db), test_cols)" test_desired 1 test_desire 5
        "(pdb created)\<lparr>jobs := [test_job]\<rparr>" test_taken "key_step test_env" strict test_result] created_desire
    by (simp add: answered_def read_node_def created_rows test_taken_def GetNodeSite_def CreateApplyJob_def test_job_def
        apply_kind_def apply_error_def)
      (simp add: test_desire_def empty_request_def created_db_def GetNode_def test_node_def)
  ultimately show ?thesis
    by (rule converse_rtranclp_into_rtranclp)
qed

lemma answered_ids: "ProfilesStillAtRevision test_desired 7 (Des_Revisions (T_des test_taken)) created_db = [8]"
  by (simp add: ProfilesStillAtRevision_def created_rows test_taken_def test_desire_def)

lemma applied_reachable: "(fleet_step (key_step test_env) strict test_desired)\<^sup>*\<^sup>* test_fleet applied"
proof -
  have kdb: "kdb (pdb answered) = created_db" and ph: "phase_of answered 7 = Answered test_taken test_result None"
    by (simp_all add: answered_def)
  have "\<exists>db. record_success 2 5 7 test_result test_desire [8] (pdb answered) = Some db"
    by (simp add: record_success_def recordDeferred_def test_result_def Let_def)
  then have "(fleet_step (key_step test_env) strict test_desired)\<^sup>*\<^sup>* answered applied"
    unfolding applied_def using answered_ids
    by (intro runs_to_end [OF ph, where now = 2])
      (auto simp: kdb created_rows fingerprints_differ_def test_taken_def)
  with answered_reachable show ?thesis
    by (rule rtranclp_trans)
qed

lemma applied_kdb:
  "kdb (pdb applied) = \<lparr>nodes = [(test_node 7)\<lparr>N_dirty := False, N_dirty_seq := 1, N_dirty_since := None\<rparr>],
     keys = [test_key\<lparr>K_status := KeyStatusActive\<rparr>], profiles = [(new_profile test_env test_key 7 8)\<lparr>P_sync := SyncStateSynced\<rparr>],
     bindings = bindings created_db, tokens = tokens created_db\<rparr>"
proof -
  have "\<exists>db. record_success 2 5 7 test_result test_desire [8] (pdb answered) = Some db"
    by (simp add: record_success_def recordDeferred_def test_result_def Let_def)
  then obtain db where db: "record_success 2 5 7 test_result test_desire [8] (pdb answered) = Some db" by blast
  have "kdb (pdb applied) = kdb db"
    by (simp add: applied_def db)
  also have "\<dots> = ActivatePendingKeysForNode (SetNodeApplied 7 1 (SetProfilesSyncByIDs [8] SyncStateSynced created_db))"
    using kdb_record_success [OF db] by (simp add: answered_def test_desire_def)
  finally show ?thesis
    by (simp add: ActivatePendingKeysForNode_def SetNodeApplied_def SetProfilesSyncByIDs_def update_where_def created_db_def
        test_node_def test_key_def new_key_def new_profile_def)
qed

text \<open>The rotation of the key.\<close>

definition rotation :: key_call where
  "rotation = \<lparr>C_now = 2, C_faulty = False, C_op = Op_Rotate ((test_rand 1)\<lparr>R_secret := Some ''n''\<rparr>) 1\<rparr>"

definition rotated_db :: keydb where
  "rotated_db = created_db\<lparr>nodes := [(test_node 7)\<lparr>N_dirty := True, N_dirty_seq := 2, N_dirty_since := Some 0\<rparr>],
     keys := [test_key\<lparr>K_secret_enc := ''#n''\<rparr>], profiles := [(new_profile test_env test_key 7 8)\<lparr>P_secret_enc := ''#n''\<rparr>]\<rparr>"

lemma rotated_by_call: "snd (key_step test_env created_db rotation) = rotated_db"
  by code_simp

subsection \<open>The secrets of a request\<close>

lemma add_profiles_secrets:
  "add_profiles env now seen rows = Inr (ps, ss) \<Longrightarrow>
     distinct ss \<and> set ss \<inter> set seen = {} \<and>
     set ss \<union> set seen = set seen \<union> {s. \<exists>r \<in> set rows. Decrypt (DE_keys env) (LP_SecretEnc r) = Some s \<and> profileEnabled r now}"
proof (induction rows arbitrary: seen ps ss)
  case (Cons r rows)
  obtain s where s: "Decrypt (DE_keys env) (LP_SecretEnc r) = Some s"
    using Cons.prems by (auto split: option.splits)
  let ?fresh = "profileEnabled r now \<and> s \<notin> set seen"
  obtain ps' ss' where rest: "add_profiles env now (if ?fresh then s # seen else seen) rows = Inr (ps', ss')"
    and ss: "ss = (if ?fresh then s # ss' else ss')"
    using Cons.prems s by (auto simp: Let_def split: sum.splits)
  show ?case
    using Cons.IH [OF rest] s by (auto simp: ss split: if_splits)
qed simp

lemma profileEnabled_iff:
  "profileEnabled r now \<longleftrightarrow> LP_KeyStatus r = None \<or>
     LP_KeyStatus r \<noteq> Some KeyStatusRevoked \<and> LP_KeyDisabledAt r = None \<and> (\<forall>e. LP_KeyExpiresAt r = Some e \<longrightarrow> now < e)"
  by (auto simp: profileEnabled_def split: option.splits)

text \<open>
  C26: A request lists exactly the secrets that are in force. When the desired state of a node can be
  built, its list of MTProxy secrets has no repetition and holds exactly the decrypted secrets of
  the node's profiles that have no key or whose key is neither revoked nor disabled nor past its
  expiry; so a secret stays out of the list as soon as every key that uses it is off.
\<close>

theorem request_secrets_in_force:
  assumes "desiredState env now node rows site = Inr des"
  shows "distinct (Req_MTProxySecrets (Des_Req des)) \<and>
    (\<forall>s. s \<in> set (Req_MTProxySecrets (Des_Req des)) \<longleftrightarrow>
       (\<exists>r \<in> set rows. Decrypt (DE_keys env) (LP_SecretEnc r) = Some s \<and>
          (LP_KeyStatus r = None \<or> LP_KeyStatus r \<noteq> Some KeyStatusRevoked \<and> LP_KeyDisabledAt r = None \<and>
             (\<forall>e. LP_KeyExpiresAt r = Some e \<longrightarrow> now < e))))"
proof -
  obtain req ps ss where "add_profiles env now [] (default_first rows) = Inr (ps, ss)" "Req_MTProxySecrets (Des_Req des) = ss"
    using assms by (auto simp: desiredState_def add_site_def Let_def split: sum.splits option.splits if_splits)
  then show ?thesis
    using add_profiles_secrets [of env now "[]" "default_first rows" ps ss] by (simp add: set_eq_iff profileEnabled_iff)
qed

definition expired_row :: ListNodeProfilesWithKeyRow where
  "expired_row = test_row\<lparr>LP_ID := 9, LP_SecretEnc := ''#x'', LP_KeyExpiresAt := Some 1\<rparr>"

theorem request_secrets_in_force_witness:
  "distinct [''s''] \<and>
    (\<forall>s. s \<in> set [''s''] \<longleftrightarrow>
       (\<exists>r \<in> set [expired_row, test_row]. Decrypt (DE_keys test_desired) (LP_SecretEnc r) = Some s \<and>
          (LP_KeyStatus r = None \<or> LP_KeyStatus r \<noteq> Some KeyStatusRevoked \<and> LP_KeyDisabledAt r = None \<and>
             (\<forall>e. LP_KeyExpiresAt r = Some e \<longrightarrow> 1 < e))))"
proof -
  have "\<exists>des. desiredState test_desired 1 (test_node 7, test_cols) [expired_row, test_row] None = Inr des \<and>
      Req_MTProxySecrets (Des_Req des) = [''s'']"
    by (simp add: desiredState_def node_request_def test_cols_def default_first_def add_site_def Let_def expired_row_def)
      (simp add: profileEnabled_def test_row_def)
  then obtain des where des: "desiredState test_desired 1 (test_node 7, test_cols) [expired_row, test_row] None = Inr des"
    and ss: "Req_MTProxySecrets (Des_Req des) = [''s'']" by blast
  show ?thesis
    using request_secrets_in_force [OF des] unfolding ss .
qed

subsection \<open>What the panel shows and what the nodes have\<close>



text \<open>
  C4: A profile shown as synced was delivered as it is now. In runs where no key operation commits
  between an apply's re-read of the revisions and the writes that rest on it, and a fingerprint
  identifies the row it was taken of: whenever a profile's state is synced, the last request
  delivered to its node contains a profile with its name, its secret, its backend, its carrier
  mode and its limits. Pending keys go active on the strength of exactly these states.
\<close>

theorem synced_profile_was_delivered:
  assumes "jsonb_normal (DE_keys env)" "good_nodes ns"
    and "(fleet_step (key_step (DE_keys env)) True env)\<^sup>*\<^sup>* (fresh_fleet ns cs ss) w"
    and "p \<in> set (profiles (kdb (pdb w)))" "P_sync p = SyncStateSynced"
  shows "\<exists>rp \<in> given_profiles (accepted w (P_node p)). RP_Name rp = P_name p \<and>
    Decrypt (DE_keys env) (P_secret_enc p) = Some (RP_Secret rp) \<and> RP_Backend rp = P_backend p \<and>
    RP_CarrierMode rp = P_carrier p \<and> RP_Limits rp = read_limits env (P_limits p)"
proof -
  let ?n = "P_node p"
  have inv: "keywriter.strict_inv (DE_keys env) env w"
    using keywriter.strict_run_inv [OF assms(3)] fresh_fleet_inv [OF assms(1,2)] by blast
  then have "node_inv env ?n (kdb (pdb w)) (phase_of w ?n) (accepted w ?n)"
    "carries (kdb (pdb w)) ?n (case accepted w ?n of None \<Rightarrow> [] | Some t \<Rightarrow> T_rows t)"
    by (simp_all add: keywriter.strict_inv_def keywriter.fleet_inv_def sync_inv_def)
  then obtain t r where t: "accepted w ?n = Some t" "built env t" and r: "r \<in> set (T_rows t)" "own p = own_row r"
    using assms(4,5) by (cases "accepted w ?n") (auto simp: carries_def node_inv_def)
  obtain node site where des: "desiredState env (T_at t) node (T_rows t) site = Inr (T_des t)"
    using t(2) unfolding built_def by blast
  have "sent_profile env (T_at t) r \<in> given_profiles (accepted w ?n)"
    using desiredState_sent(1) [OF des] r(1) t(1) by (simp add: given_profiles_def)
  moreover have "Decrypt (DE_keys env) (LP_SecretEnc r) \<noteq> None"
    using desiredState_sent(2) [OF des] r(1) by blast
  ultimately show ?thesis
    using r(2) by (intro bexI [of _ "sent_profile env (T_at t) r"])
      (auto simp: sent_profile_def request_profile_def Let_def own_def own_row_def)
qed

theorem synced_profile_was_delivered_witness:
  "\<exists>rp \<in> given_profiles (accepted applied 7). RP_Name rp = ''k123456789012'' \<and>
    Decrypt test_env ''#s'' = Some (RP_Secret rp) \<and> RP_Backend rp = ''127.0.0.1:2398'' \<and>
    RP_CarrierMode rp = ''https'' \<and> RP_Limits rp = read_limits test_desired ''{}''"
proof -
  let ?p = "(new_profile test_env test_key 7 8)\<lparr>P_sync := SyncStateSynced\<rparr>"
  have env: "jsonb_normal (DE_keys test_desired)" "DE_keys test_desired = test_env"
    using test_env_normal by (simp_all add: test_desired_def)
  have p: "P_node ?p = 7" "P_name ?p = ''k123456789012''" "P_secret_enc ?p = ''#s''" "P_backend ?p = ''127.0.0.1:2398''"
    "P_carrier ?p = ''https''" "P_limits ?p = ''{}''"
    by code_simp+
  show ?thesis
    using synced_profile_was_delivered [OF env(1) test_nodes_good, of "\<lambda>_. test_cols" "[]" applied ?p]
      applied_reachable [of True] p by (simp add: applied_kdb env(2) test_fleet_def)
qed

text \<open>
  C27: Without that restriction a key can go active with a secret its node was never given. The
  recording transaction re-reads the revisions and then sets the profiles it found unchanged to
  synced; at PostgreSQL's default isolation level a rotation can commit in between. Such a run: a
  key is created and its apply delivered and re-read, the key is rotated, the apply is recorded.
  The profile now carries the new secret and is synced, the key is active, and the only request
  the node ever got has the old secret.
\<close>

theorem rotation_during_recording_is_shown_synced:
  "\<exists>w. (fleet_step (key_step test_env) False test_desired)\<^sup>*\<^sup>* test_fleet w \<and>
    (\<exists>k \<in> set (keys (kdb (pdb w))). K_status k = KeyStatusActive \<and> K_secret_enc k = ''#n'') \<and>
    (\<exists>p \<in> set (profiles (kdb (pdb w))). P_sync p = SyncStateSynced \<and> P_secret_enc p = ''#n'') \<and>
    RP_Secret ` given_profiles (accepted w 7) = {''s''}"
proof -
  let ?reread = "answered\<lparr>phase_of := (phase_of answered)(7 := Rechecked test_taken test_result None [8])\<rparr>"
  let ?rotated = "?reread\<lparr>pdb := (pdb answered)\<lparr>kdb := rotated_db\<rparr>\<rparr>"
  have "fleet_step (key_step test_env) False test_desired answered ?reread"
    using fleet_step.rereads [of answered 7 test_taken test_result None False test_desired "key_step test_env"] answered_ids
    by (simp add: answered_def)
  moreover have "fleet_step (key_step test_env) False test_desired ?reread ?rotated"
    using fleet_step.key_call [of False ?reread "key_step test_env" test_desired rotation] rotated_by_call
    by (simp add: answered_def)
  moreover obtain db where db: "record_success 2 5 7 test_result test_desire [8] (pdb ?rotated) = Some db"
    by (simp add: record_success_def recordDeferred_def test_result_def Let_def)
  then have "fleet_step (key_step test_env) False test_desired ?rotated (?rotated\<lparr>pdb := db, phase_of := (phase_of ?rotated)(7 := Idle)\<rparr>)"
    by (intro fleet_step.records_success [where t = test_taken and res = test_result and ids = "[8]" and now = 2])
      (simp_all add: test_taken_def)
  ultimately have "(fleet_step (key_step test_env) False test_desired)\<^sup>*\<^sup>* answered (?rotated\<lparr>pdb := db, phase_of := (phase_of ?rotated)(7 := Idle)\<rparr>)"
    by (meson converse_rtranclp_into_rtranclp rtranclp.rtrancl_refl)
  then have run: "(fleet_step (key_step test_env) False test_desired)\<^sup>*\<^sup>* test_fleet (?rotated\<lparr>pdb := db, phase_of := (phase_of ?rotated)(7 := Idle)\<rparr>)"
    using answered_reachable [of False] by (rule rtranclp_trans [rotated])
  have "kdb db = ActivatePendingKeysForNode (SetNodeApplied 7 1 (SetProfilesSyncByIDs [8] SyncStateSynced rotated_db))"
    using kdb_record_success [OF db] by (simp add: test_desire_def)
  then have "(\<exists>k \<in> set (keys (kdb db)). K_status k = KeyStatusActive \<and> K_secret_enc k = ''#n'') \<and>
      (\<exists>p \<in> set (profiles (kdb db)). P_sync p = SyncStateSynced \<and> P_secret_enc p = ''#n'')"
    by (simp add: ActivatePendingKeysForNode_def SetNodeApplied_def SetProfilesSyncByIDs_def update_where_def rotated_db_def
        created_db_def test_key_def new_key_def new_profile_def)
  moreover have "RP_Secret ` given_profiles (accepted answered 7) = {''s''}"
    by (simp add: answered_def given_profiles_def test_taken_def test_desire_def request_profile_def Let_def)
  ultimately show ?thesis
    using run by (intro exI [of _ "?rotated\<lparr>pdb := db, phase_of := (phase_of ?rotated)(7 := Idle)\<rparr>"]) simp
qed

subsection \<open>An undisturbed apply settles its node\<close>

lemma revisions_complete:
  assumes "distinct (map LP_ID rows)" "r \<in> set rows"
  shows "revisions env rows (LP_ID r) = Some (profileRevision env r)"
  using assms
proof (induction rows rule: rev_induct)
  case (snoc q rows)
  then have "r \<in> set rows \<Longrightarrow> LP_ID r \<noteq> LP_ID q"
    by (force simp: image_iff)
  with snoc show ?case by (auto simp: revisions_def)
qed simp

lemma all_unchanged:
  assumes "distinct (map P_id (profiles db))"
    and "desiredState env now node (ListNodeProfilesWithKey n db) site = Inr des"
  shows "set (ProfilesStillAtRevision env n (Des_Revisions des) db) = P_id ` {p \<in> set (profiles db). P_node p = n}"
proof -
  let ?rows = "ListNodeProfilesWithKey n db"
  have "map LP_ID ?rows = map P_id (filter (\<lambda>p. P_node p = n) (profiles db))"
    by (simp add: ListNodeProfilesWithKey_def comp_def)
  then have "distinct (map LP_ID ?rows)"
    using assms(1) by (simp add: distinct_map_filter)
  then have "distinct (map LP_ID (default_first ?rows))"
    unfolding default_first_def by (auto simp: distinct_map distinct_map_filter inj_on_def)
  then have "Des_Revisions des (LP_ID r) = Some (profileRevision env r)" if "r \<in> set ?rows" for r
    using revisions_complete that desiredState_sent(4) [OF assms(2)] by simp
  then have "set (ProfilesStillAtRevision env n (Des_Revisions des) db) = LP_ID ` set ?rows"
    by (auto simp: ProfilesStillAtRevision_def)
  then show ?thesis
    by (simp add: ListNodeProfilesWithKey_def image_image)
qed

lemma record_success_ok:
  assumes "GetNode n (kdb db) \<noteq> None"
  shows "\<exists>db'. record_success now job n res des ids db = Some db' \<and> \<not> (\<exists>a \<in> set (alerts db'). open_alert n ''apply_failed'' a)"
  using assms
  by (auto simp: record_success_def recordDeferred_def InsertAlert_def ResolveNodeAlerts_def Let_def SetNodeSiteDeployed_def
      SetNodeWebAppliedBasePath_def FinishApplyJob_def set_update_where open_alert_def GetNode_SetNodeApplied
      split: option.splits if_splits)

text \<open>
  C25: An apply that nothing disturbs settles its node: when the node exists and is online, its
  desired state can be built, the driver accepts it and acknowledges the WEB base path, and no
  other transaction interferes, \<^verbatim>\<open>ApplyNode\<close> succeeds. After it the node is clean, every profile of
  it is synced, no alert about a failed apply is open for it, and a key is still pending only if
  it has no profile or one on another node that is not synced.
\<close>

theorem undisturbed_apply_settles:
  assumes "wf (DE_keys env) (kdb db)" "\<not> AI_in_flight inp" "AI_online inp" "\<not> AI_read_fault inp" "\<not> AI_job_fault inp"
    and "\<not> AI_record_fault inp" "AI_others inp = (\<lambda>_ d. d)" "read_node n db = Some node"
    and "desiredState env (AI_now inp) node (ListNodeProfilesWithKey n (kdb db)) (GetNodeSite n db) = Inr des"
    and "AI_driver inp (Des_Req des) = (res, None)" "apply_error (Des_Req des) res None = None"
    and "AI_job inp \<notin> J_id ` set (jobs db)"
  shows "\<exists>db'. ApplyNode env inp n db = (ApplyDone, db') \<and>
    (\<exists>nd. GetNode n (kdb db') = Some nd \<and> \<not> N_dirty nd) \<and>
    (\<forall>p \<in> set (profiles (kdb db')). P_node p = n \<longrightarrow> P_sync p = SyncStateSynced) \<and>
    \<not> (\<exists>a \<in> set (alerts db'). open_alert n ''apply_failed'' a) \<and>
    (\<forall>k \<in> set (keys (kdb db')). K_status k = KeyStatusPending \<longrightarrow>
       (\<forall>p \<in> set (profiles (kdb db')). P_key p \<noteq> Some (K_id k)) \<or>
       (\<exists>p \<in> set (profiles (kdb db')). P_key p = Some (K_id k) \<and> P_node p \<noteq> n \<and> P_sync p \<noteq> SyncStateSynced))"
proof -
  obtain nd where nd: "GetNode n (kdb db) = Some nd" "fst node = nd"
    using assms(8) by (auto simp: read_node_def)
  have "\<exists>db4. CreateApplyJob (AI_now inp) (AI_job inp) n (apply_kind des) db = Some db4 \<and> kdb db4 = kdb db"
    using assms(12) nd(1) by (simp add: CreateApplyJob_def image_iff Bex_def) metis
  then obtain db4 where db4: "CreateApplyJob (AI_now inp) (AI_job inp) n (apply_kind des) db = Some db4" "kdb db4 = kdb db"
    by blast
  let ?ids = "ProfilesStillAtRevision env n (Des_Revisions des) (kdb db)"
  obtain db' where db': "record_success (AI_now inp) (AI_job inp) n res des ?ids db4 = Some db'"
    and alerts: "\<not> (\<exists>a \<in> set (alerts db'). open_alert n ''apply_failed'' a)"
    using record_success_ok [where db = db4 and n = n and now = "AI_now inp" and job = "AI_job inp" and res = res and des = des and ids = ?ids]
      nd(1) db4(2) by auto
  have ok: "ApplyNode env inp n db = (ApplyDone, db')"
    using assms(2-11) db4 db' by (simp add: ApplyNode_def Let_def)
  have kdb: "kdb db' = ActivatePendingKeysForNode (SetNodeApplied n (N_dirty_seq nd) (SetProfilesSyncByIDs ?ids SyncStateSynced (kdb db)))"
    using kdb_record_success [OF db'] db4(2) desiredState_sent(3) [OF assms(9)] nd(2) by simp
  have "\<exists>nd'. GetNode n (kdb db') = Some nd' \<and> \<not> N_dirty nd'"
    using nd(1) by (simp add: kdb GetNode_SetNodeApplied)
  moreover have ids: "set ?ids = P_id ` {p \<in> set (profiles (kdb db)). P_node p = n}"
    using all_unchanged [OF _ assms(9)] assms(1) by (simp add: wf_def wf_ids_def)
  have synced: "P_sync p = SyncStateSynced" if "p \<in> set (profiles (kdb db'))" "P_node p = n" for p
    using that ids by (auto simp: kdb SetProfilesSyncByIDs_def set_update_where split: if_splits)
  moreover have "(\<forall>p \<in> set (profiles (kdb db')). P_key p \<noteq> Some (K_id k)) \<or>
       (\<exists>p \<in> set (profiles (kdb db')). P_key p = Some (K_id k) \<and> P_sync p \<noteq> SyncStateSynced)"
    if "k \<in> set (keys (kdb db'))" "K_status k = KeyStatusPending" for k
    using that by (auto simp: kdb ActivatePendingKeysForNode_def set_update_where split: if_splits)
  ultimately show ?thesis
    using ok alerts by blast
qed

definition test_apply :: apply_input where
  "test_apply = \<lparr>AI_in_flight = False, AI_online = True, AI_now = 1, AI_job = 5, AI_driver = (\<lambda>_. (test_result, None)),
     AI_others = (\<lambda>_ d. d), AI_read_fault = False, AI_job_fault = False, AI_record_fault = False\<rparr>"

theorem undisturbed_apply_settles_witness:
  "\<exists>db'. ApplyNode test_desired test_apply 7 (pdb created) = (ApplyDone, db') \<and>
    (\<exists>nd. GetNode 7 (kdb db') = Some nd \<and> \<not> N_dirty nd) \<and>
    (\<forall>p \<in> set (profiles (kdb db')). P_node p = 7 \<longrightarrow> P_sync p = SyncStateSynced)"
proof -
  have "DE_keys test_desired = test_env"
    by (simp add: test_desired_def)
  moreover have "wf test_env created_db"
    using key_step_wf [OF test_env_normal wf_fresh_panel [OF test_nodes_good]] created_by_call by metis
  moreover have "apply_error (Des_Req test_desire) test_result None = None"
    by (simp add: apply_error_def test_desire_def empty_request_def)
  ultimately show ?thesis
    using undisturbed_apply_settles [of test_desired "pdb created" test_apply 7 "(the (GetNode 7 created_db), test_cols)" test_desire test_result]
      created_desire
    by (simp add: test_apply_def read_node_def created_node created_rows GetNodeSite_def) blast
qed

end
