(* ===== verification/Relay_Env.thy ===== *)
theory Relay_Env
  imports Go_Fields
begin

text \<open>
  The environment file of the mtproxy unit on a relay node: \<^verbatim>\<open>existingMTProxySecrets\<close> and
  \<^verbatim>\<open>RenderMTProxyEnv\<close> of \<^verbatim>\<open>internal/agent/apply.go\<close>. The lines that do not carry secrets are kept, two
  defaults are added, and the secrets are written as one line of flags; the lemmas show that the
  flags read back to the secrets and that rendering again changes nothing else.
\<close>

subsection \<open>Reading and rendering\<close>

definition newline :: char where
  "newline = CHR 0x0A"

text \<open>\<^verbatim>\<open>strings.CutPrefix\<close> and \<^verbatim>\<open>bytes.Contains\<close>.\<close>

definition CutPrefix :: "string \<Rightarrow> string \<Rightarrow> string option" where
  "CutPrefix s pre = (if HasPrefix s pre then Some (drop (length pre) s) else None)"

fun Contains :: "string \<Rightarrow> string \<Rightarrow> bool" where
  "Contains [] t \<longleftrightarrow> t = []"
| "Contains (c # s) t \<longleftrightarrow> HasPrefix (c # s) t \<or> Contains s t"

definition env_lines :: "string \<Rightarrow> string list" where
  "env_lines env = split_on newline env"

definition existingMTProxySecrets :: "string \<Rightarrow> string list" where
  "existingMTProxySecrets env =
     (case List.map_filter (\<lambda>line. CutPrefix (TrimSpace line) ''MTPROXY_SECRETS='') (env_lines env) of
        v # _ \<Rightarrow> filter (\<lambda>tok. tok \<noteq> ''-S'') (Fields v)
      | [] \<Rightarrow>
          (case filter (\<lambda>v. v \<noteq> []) (List.map_filter (\<lambda>line. CutPrefix (TrimSpace line) ''MTPROXY_SECRET='') (env_lines env)) of
             v # _ \<Rightarrow> [v]
           | [] \<Rightarrow> []))"

definition kept_line :: "string \<Rightarrow> bool" where
  "kept_line line \<longleftrightarrow>
     (let t = TrimSpace line
      in t \<noteq> [] \<and> \<not> HasPrefix t ''MTPROXY_SECRET='' \<and> \<not> HasPrefix t ''MTPROXY_SECRETS='')"

definition write_lines :: "string list \<Rightarrow> string" where
  "write_lines ls = concat (map (\<lambda>l. l @ [newline]) ls)"

fun join_blank :: "string list \<Rightarrow> string" where
  "join_blank [] = []"
| "join_blank [w] = w"
| "join_blank (w # v # ws) = w @ '' '' @ join_blank (v # ws)"

definition env_base :: "string \<Rightarrow> string list" where
  "env_base existing =
     (let ls = filter kept_line (env_lines existing);
          ls1 = (if Contains (write_lines ls) ''MTPROXY_WORKERS='' then ls else ls @ [''MTPROXY_WORKERS=1''])
      in if Contains (write_lines ls1) ''MTPROXY_MAX_CONNECTIONS='' then ls1 else ls1 @ [''MTPROXY_MAX_CONNECTIONS=4096''])"

definition secret_lines :: "string list \<Rightarrow> string list" where
  "secret_lines secrets =
     [''MTPROXY_SECRET='' @ (case secrets of [] \<Rightarrow> [] | s # _ \<Rightarrow> s),
      ''MTPROXY_SECRETS='' @ join_blank (map (\<lambda>s. ''-S '' @ s) secrets)]"

definition RenderMTProxyEnv :: "string \<Rightarrow> string list \<Rightarrow> string" where
  "RenderMTProxyEnv existing secrets = write_lines (env_base existing @ secret_lines secrets)"

subsection \<open>Prefixes and substrings\<close>

lemma HasPrefix_iff: "HasPrefix s p \<longleftrightarrow> (\<exists>r. s = p @ r)"
  unfolding HasPrefix_def by (metis append_eq_conv_conj append_take_drop_id)

lemma Contains_iff: "Contains s t \<longleftrightarrow> (\<exists>a b. s = a @ t @ b)"
proof (induction s)
  case (Cons c s)
  note IH = this
  show ?case
  proof
    assume "Contains (c # s) t"
    then consider r where "c # s = t @ r" | a b where "s = a @ t @ b"
      using Cons by (auto simp: HasPrefix_iff)
    then show "\<exists>a b. c # s = a @ t @ b"
      by cases (metis append_Nil, metis append_Cons)
  next
    assume "\<exists>a b. c # s = a @ t @ b"
    then obtain a b where s: "c # s = a @ t @ b" by blast
    show "Contains (c # s) t"
    proof (cases a)
      case Nil
      with s have "HasPrefix (c # s) t" by (auto simp: HasPrefix_iff)
      then show ?thesis by simp
    next
      case (Cons d a')
      with s have "s = a' @ t @ b" by simp
      then show ?thesis using IH by auto
    qed
  qed
qed auto

lemma Contains_append: "Contains s t \<Longrightarrow> Contains (s @ r) t"
  unfolding Contains_iff by (metis append.assoc)

subsection \<open>Trimming a line\<close>

lemma space_suffix_plain:
  assumes "plain c"
  shows "space_suffix (s @ [c]) = 0"
proof -
  have ascii: "of_char c < (128 :: nat)" "33 \<le> (of_char c :: nat)"
    using assms by (simp_all add: plain_def)
  have wide: "\<forall>w \<in> set wide_spaces. w \<noteq> [] \<and> (of_char (last w) :: nat) \<ge> 128"
    by (simp add: wide_spaces_def bytes_def upt_rec)
  have "last w = c" if "drop n (s @ [c]) = w" "w \<noteq> []" for n w
    using that by (metis last_drop last_snoc drop_eq_Nil not_le)
  then have "\<forall>w \<in> set wide_spaces. drop (length (s @ [c]) - length w) (s @ [c]) \<noteq> w"
    using ascii(1) wide by (metis not_le)
  then have "filter (\<lambda>w. length w \<le> length (s @ [c]) \<and> drop (length (s @ [c]) - length w) (s @ [c]) = w) wide_spaces = []"
    unfolding filter_empty_conv by blast
  moreover have "\<not> ascii_space c"
    using ascii(2) by (auto simp: ascii_space_def)
  ultimately show ?thesis
    by (simp add: space_suffix_def)
qed

text \<open>A line that begins and ends with printable characters is not changed by trimming.\<close>

lemma TrimSpace_plain:
  assumes "s \<noteq> []" "plain (hd s)" "plain (last s)"
  shows "TrimSpace s = s"
proof -
  have "space_prefix s = 0"
    using assms(1,2) space_prefix_plain [of "hd s" "tl s"] by simp
  moreover have "space_suffix s = 0"
    using assms(1,3) space_suffix_plain [of "last s" "butlast s"] by simp
  ultimately show ?thesis
    by (simp add: TrimSpace_def trim_left.simps [of s] trim_right.simps [of s])
qed

lemma TrimSpace_Nil: "TrimSpace [] = []"
  by (simp add: TrimSpace_def trim_left.simps trim_right.simps space_prefix_def space_suffix_def)

subsection \<open>Lines\<close>

lemma split_write_lines:
  "\<forall>l \<in> set ls. newline \<notin> set l \<Longrightarrow> env_lines (write_lines ls) = ls @ [[]]"
  by (induction ls) (simp_all add: env_lines_def write_lines_def split_on_append)

lemma write_lines_append: "write_lines (ls @ ms) = write_lines ls @ write_lines ms"
  by (simp add: write_lines_def)

lemma Contains_write_lines: "Contains l t \<Longrightarrow> Contains (write_lines (ls @ [l])) t"
  unfolding Contains_iff write_lines_append by (simp add: write_lines_def) (metis append.assoc)

lemma Contains_more_lines: "Contains (write_lines ls) t \<Longrightarrow> Contains (write_lines (ls @ ms)) t"
  by (simp add: write_lines_append Contains_append)

subsection \<open>The secret lines\<close>

text \<open>Secrets as the panel sends them: words of printable characters, none of them the flag itself.\<close>

definition secret_word :: "string \<Rightarrow> bool" where
  "secret_word s \<longleftrightarrow> s \<noteq> [] \<and> list_all plain s \<and> s \<noteq> ''-S''"

lemma blank_splits: "space_prefix ('' '' @ s) = 1"
  by (simp add: space_prefix_def ascii_space_def)

lemma fields_from_word:
  assumes "list_all plain w" "w \<noteq> []"
  shows "fields_from [] (w @ '' '' @ s) = w # fields_from [] s"
  using assms blank_splits [of s] by (simp add: fields_from_plain fields_from.simps [of w])

lemma Fields_flag_words:
  "\<forall>s \<in> set ss. secret_word s \<Longrightarrow> Fields (join_blank (map (\<lambda>s. ''-S '' @ s) ss)) = concat (map (\<lambda>s. [''-S'', s]) ss)"
proof (induction ss rule: induct_list012)
  case 1
  show ?case by (simp add: Fields_def fields_from.simps)
next
  case (2 s)
  have "fields_from [] (''-S'' @ '' '' @ s) = ''-S'' # fields_from [] s"
    by (rule fields_from_word) (simp_all add: plain_def)
  with 2 show ?case
    using Fields_plain [of s] by (simp add: Fields_def secret_word_def)
next
  case (3 s s' ss)
  have "fields_from [] (''-S'' @ '' '' @ s @ '' '' @ t) = ''-S'' # s # fields_from [] t" for t
    using 3(3) fields_from_word [of "''-S''" "s @ '' '' @ t"] fields_from_word [of s t]
    by (simp add: secret_word_def plain_def)
  with 3 show ?case
    by (simp add: Fields_def)
qed

lemma drop_flags: "\<forall>s \<in> set ss. secret_word s \<Longrightarrow> filter (\<lambda>w. w \<noteq> ''-S'') (concat (map (\<lambda>s. [''-S'', s]) ss)) = ss"
  by (induction ss) (auto simp: secret_word_def)

lemma join_blank_last:
  "\<forall>w \<in> set ws. w \<noteq> [] \<Longrightarrow> ws \<noteq> [] \<Longrightarrow> join_blank ws \<noteq> [] \<and> last (join_blank ws) = last (last ws)"
  by (induction ws rule: join_blank.induct) auto

lemma join_blank_no_newline: "\<forall>w \<in> set ws. newline \<notin> set w \<Longrightarrow> newline \<notin> set (join_blank ws)"
  by (induction ws rule: join_blank.induct) (auto simp: newline_def)

lemma plain_no_newline: "list_all plain s \<Longrightarrow> newline \<notin> set s"
  by (auto simp: list_all_iff newline_def plain_def)

lemma secret_lines_no_newline:
  assumes "\<forall>s \<in> set ss. secret_word s"
  shows "\<forall>l \<in> set (secret_lines ss). newline \<notin> set l"
proof -
  have words: "newline \<notin> set s" if "s \<in> set ss" for s
    using assms that plain_no_newline by (auto simp: secret_word_def)
  then have "newline \<notin> set (join_blank (map (\<lambda>s. ''-S '' @ s) ss))"
    by (intro join_blank_no_newline) (auto simp: newline_def)
  then show ?thesis
    using words by (auto simp: secret_lines_def newline_def split: list.splits)
qed

lemma TrimSpace_secret_lines:
  assumes "\<forall>s \<in> set ss. secret_word s"
  shows "map TrimSpace (secret_lines ss) = secret_lines ss"
proof -
  let ?flags = "join_blank (map (\<lambda>s. ''-S '' @ s) ss)"
  have plain_last: "plain (last s)" if "s \<in> set ss" for s
    using assms that by (auto simp: secret_word_def list_all_iff)
  have first: "TrimSpace (''MTPROXY_SECRET='' @ s) = ''MTPROXY_SECRET='' @ s" if "s = [] \<or> s \<in> set ss" for s
    using that plain_last [of s] by (intro TrimSpace_plain) (auto simp: plain_def)
  have "plain (last ?flags)" if "ss \<noteq> []"
    using that join_blank_last [of "map (\<lambda>s. ''-S '' @ s) ss"] plain_last [of "last ss"] assms
    by (auto simp: last_map secret_word_def)
  moreover have "?flags = []" if "ss = []" using that by simp
  ultimately have "TrimSpace (''MTPROXY_SECRETS='' @ ?flags) = ''MTPROXY_SECRETS='' @ ?flags"
    by (intro TrimSpace_plain) (cases "ss = []"; auto simp: plain_def)+
  then show ?thesis
    using first by (auto simp: secret_lines_def split: list.splits)
qed

subsection \<open>Rendering what was rendered\<close>

lemma kept_defaults: "kept_line ''MTPROXY_WORKERS=1''" "kept_line ''MTPROXY_MAX_CONNECTIONS=4096''"
proof -
  have "TrimSpace ''MTPROXY_WORKERS=1'' = ''MTPROXY_WORKERS=1''" "TrimSpace ''MTPROXY_MAX_CONNECTIONS=4096'' = ''MTPROXY_MAX_CONNECTIONS=4096''"
    by (intro TrimSpace_plain; simp add: plain_def)+
  then show "kept_line ''MTPROXY_WORKERS=1''" "kept_line ''MTPROXY_MAX_CONNECTIONS=4096''"
    by (simp_all add: kept_line_def HasPrefix_def Let_def)
qed

lemma env_base_lines: "l \<in> set (env_base e) \<Longrightarrow> kept_line l \<and> newline \<notin> set l"
  using kept_defaults split_on_no_sep [of _ newline e]
  by (auto simp: env_base_def env_lines_def Let_def newline_def split: if_splits)

lemma env_base_defaults:
  "Contains (write_lines (env_base e)) ''MTPROXY_WORKERS=''" "Contains (write_lines (env_base e)) ''MTPROXY_MAX_CONNECTIONS=''"
proof -
  have "Contains (write_lines (ls @ [''MTPROXY_WORKERS=1''])) ''MTPROXY_WORKERS=''"
    "Contains (write_lines (ls @ [''MTPROXY_MAX_CONNECTIONS=4096''])) ''MTPROXY_MAX_CONNECTIONS=''" for ls
    by (rule Contains_write_lines, simp add: HasPrefix_def)+
  then show "Contains (write_lines (env_base e)) ''MTPROXY_WORKERS=''" "Contains (write_lines (env_base e)) ''MTPROXY_MAX_CONNECTIONS=''"
    by (auto simp: env_base_def Let_def simp del: append_assoc intro: Contains_more_lines)
qed

lemma secret_lines_not_kept:
  assumes "\<forall>s \<in> set ss. secret_word s" "l \<in> set (secret_lines ss)"
  shows "\<not> kept_line l"
proof -
  have "TrimSpace l = l"
    using TrimSpace_secret_lines [OF assms(1)] assms(2) by (metis in_set_conv_nth length_map nth_map)
  then show ?thesis
    using assms(2) by (auto simp: kept_line_def secret_lines_def HasPrefix_def Let_def)
qed

lemma rendered_lines:
  assumes "\<forall>s \<in> set ss. secret_word s"
  shows "env_lines (RenderMTProxyEnv e ss) = env_base e @ secret_lines ss @ [[]]"
  unfolding RenderMTProxyEnv_def
  using secret_lines_no_newline [OF assms] env_base_lines by (subst split_write_lines) auto

lemma env_base_rendered:
  assumes "\<forall>s \<in> set ss. secret_word s"
  shows "env_base (RenderMTProxyEnv e ss) = env_base e"
proof -
  have "filter kept_line (env_base e) = env_base e" "filter kept_line (secret_lines ss) = []" "\<not> kept_line []"
    using env_base_lines secret_lines_not_kept [OF assms]
    by (auto simp: filter_id_conv filter_empty_conv kept_line_def TrimSpace_Nil Let_def)
  then have kept: "filter kept_line (env_lines (RenderMTProxyEnv e ss)) = env_base e"
    by (simp add: rendered_lines [OF assms])
  show ?thesis
    unfolding env_base_def [of "RenderMTProxyEnv e ss"] kept by (simp add: env_base_defaults)
qed

lemma existing_rendered:
  assumes "\<forall>s \<in> set ss. secret_word s"
  shows "existingMTProxySecrets (RenderMTProxyEnv e ss) = ss"
proof -
  let ?cut = "\<lambda>line. CutPrefix (TrimSpace line) ''MTPROXY_SECRETS=''"
  obtain l1 where l: "secret_lines ss = [''MTPROXY_SECRET='' @ l1, ''MTPROXY_SECRETS='' @ join_blank (map (\<lambda>s. ''-S '' @ s) ss)]"
    by (simp add: secret_lines_def)
  have "List.map_filter ?cut (env_base e) = []"
    using env_base_lines by (auto simp: map_filter_def filter_empty_conv CutPrefix_def kept_line_def Let_def)
  moreover have "List.map_filter ?cut (secret_lines ss) = [join_blank (map (\<lambda>s. ''-S '' @ s) ss)]"
    using TrimSpace_secret_lines [OF assms] by (simp add: l map_filter_def CutPrefix_def HasPrefix_def)
  ultimately have "\<exists>vs. List.map_filter ?cut (env_lines (RenderMTProxyEnv e ss)) = join_blank (map (\<lambda>s. ''-S '' @ s) ss) # vs"
    by (simp add: rendered_lines [OF assms] map_filter_def)
  then show ?thesis
    using Fields_flag_words [OF assms] drop_flags [OF assms] by (auto simp: existingMTProxySecrets_def)
qed



end
