(* ===== verification/Agent_Relay.thy ===== *)
theory Agent_Relay
  imports Agent_Steps Relay_Env Domain_Types "HOL-Library.AList" "HOL-Library.List_Lexorder" "HOL-Library.Char_ord"
begin

text \<open>
  Applying a configuration to a relay node: \<^verbatim>\<open>internal/agent/apply.go\<close> and the site helpers of
  \<^verbatim>\<open>files.go\<close> and \<^verbatim>\<open>telemt.go\<close>. The new files are rendered and checked, the old ones are backed up,
  the new ones written, the services restarted and probed; a failure after the first write rolls
  back from the backup.

  The state extends the machine of the agent's files by the directory of the website (relative paths
  with their contents, or no directory), the backup directories and the lines of the apply
  log. \<^verbatim>\<open>systemctl\<close>, the relay's own check of a candidate file, \<^verbatim>\<open>chown\<close>, the HTTP probes and JSON
  rendering are parameters. File modes are left out.
\<close>

subsection \<open>State and parameters\<close>

type_synonym website = "(string \<times> string) list"

record backup =
  BK_files :: "(string \<times> string) list"
  BK_site :: "website option"

record 'w relay = "'w machine" +
  site_dir :: "website option"
  backup_dirs :: "(string \<times> backup) list"
  apply_log :: "string list"
  restarted_mtproxy :: bool
  restarted_relay :: bool

record RelayProfile =
  RPr_Name :: string
  RPr_Secret :: string
  RPr_Backend :: string
  RPr_CarrierMode :: string
  RPr_Limits :: "ProfileLimits option"

record profileJSON =
  PJ_Name :: string
  PJ_Secret :: string
  PJ_Backend :: string
  PJ_CarrierMode :: string
  PJ_Limits :: "string option"

record 'w relay_env = "'w agent_env" +
  relay_check :: "string \<Rightarrow> 'w \<Rightarrow> failure \<times> 'w"
  relay_restart :: "string \<Rightarrow> disk \<Rightarrow> 'w \<Rightarrow> (string \<times> string) option \<times> 'w"
  relay_chown :: "path \<Rightarrow> string \<Rightarrow> 'w \<Rightarrow> failure \<times> 'w"
  relay_probe :: "string \<Rightarrow> 'w \<Rightarrow> bool \<times> 'w"
  marshal_limits :: "(string \<times> int) list \<Rightarrow> string"
  marshal_profiles :: "profileJSON list \<Rightarrow> string"

record relay_config =
  RC_ProfilesPath :: path
  RC_MTProxyEnvPath :: path
  RC_StateDir :: path
  RC_HealthWait :: duration

record RelayRequest =
  RR_ApplyProfiles :: bool
  RR_Profiles :: "RelayProfile list"
  RR_MtproxySecrets :: "string list"
  RR_Site :: "(string \<times> string) list option"

record RelayResult =
  AR_Ok :: bool
  AR_RolledBack :: bool
  AR_RestartedRelay :: bool
  AR_RestartedMtproxy :: bool
  AR_Log :: "string list"

subsection \<open>Rendering\<close>

definition limitsJSON :: "'w relay_env \<Rightarrow> ProfileLimits option \<Rightarrow> string option" where
  "limitsJSON env lim =
     (case lim of
        None \<Rightarrow> None
      | Some l \<Rightarrow>
          let m = filter (\<lambda>(k, v). v > 0)
            [(''max_sessions'', MaxSessions l), (''max_streams'', MaxStreams l),
             (''max_backend_dials_in_flight'', MaxBackendDialsInFlight l),
             (''new_sessions_per_minute'', NewSessionsPerMinute l), (''new_sessions_burst'', NewSessionsBurst l),
             (''new_streams_per_minute'', NewStreamsPerMinute l), (''new_streams_burst'', NewStreamsBurst l),
             (''max_streams_per_session'', MaxStreamsPerSession l), (''max_pending_per_session'', MaxPendingPerSession l)]
          in if m = [] then None else Some (marshal_limits env m))"

definition render_profile :: "'w relay_env \<Rightarrow> RelayProfile \<Rightarrow> profileJSON" where
  "render_profile env p =
     \<lparr>PJ_Name = RPr_Name p, PJ_Secret = RPr_Secret p,
      PJ_Backend = (if RPr_Backend p = [] then ''127.0.0.1:2398'' else RPr_Backend p),
      PJ_CarrierMode = RPr_CarrierMode p, PJ_Limits = limitsJSON env (RPr_Limits p)\<rparr>"

definition RenderProfilesJSON :: "'w relay_env \<Rightarrow> RelayProfile list \<Rightarrow> string + string" where
  "RenderProfilesJSON env ps =
     (if ps = [] then Inl ''at least one profile is required''
      else Inr (marshal_profiles env (map (render_profile env) ps) @ [newline]))"

subsection \<open>The website\<close>

text \<open>
  \<^verbatim>\<open>filepath.Clean("/" + p)\<close> for a path without two dots in a row: empty segments and single
  dots go.
\<close>

definition clean_segments :: "string \<Rightarrow> string list" where
  "clean_segments p = filter (\<lambda>w. w \<noteq> [] \<and> w \<noteq> ''.'') (split_on (CHR ''/'') p)"

definition safeSitePath :: "string \<Rightarrow> string + string" where
  "safeSitePath p =
     (if Contains p ''..'' \<or> clean_segments p = [] then Inl (''invalid site path '' @ p)
      else Inr (join_with (CHR ''/'') (clean_segments p)))"

fun site_files :: "(string \<times> string) list \<Rightarrow> website \<Rightarrow> string + website" where
  "site_files [] m = Inr m"
| "site_files ((path, content) # fs) m =
     (case safeSitePath path of Inl e \<Rightarrow> Inl e | Inr p \<Rightarrow> site_files fs (AList.update p content m))"

text \<open>A file of the site that cannot be read is left out.\<close>

fun read_files :: "'w relay_env \<Rightarrow> website \<Rightarrow> 'w relay \<Rightarrow> website \<times> 'w relay" where
  "read_files env [] s = ([], s)"
| "read_files env ((p, c) # fs) s =
     (let (e, s1) = fault env (OpenOp p) s; (rest, s2) = read_files env fs s1
      in (case e of None \<Rightarrow> (p, c) # rest | Some _ \<Rightarrow> rest, s2))"

definition readSite :: "'w relay_env \<Rightarrow> 'w relay \<Rightarrow> website \<times> 'w relay" where
  "readSite env s = (case site_dir s of None \<Rightarrow> ([], s) | Some m \<Rightarrow> read_files env m s)"

text \<open>A key that is not in the map reads as an empty slice.\<close>

definition same_files :: "website \<Rightarrow> website \<Rightarrow> bool" where
  "same_files current files \<longleftrightarrow>
     length current = length files \<and>
     list_all (\<lambda>(p, c). (case map_of current p of None \<Rightarrow> [] | Some d \<Rightarrow> d) = c) files"

definition siteEquals :: "'w relay_env \<Rightarrow> website \<Rightarrow> 'w relay \<Rightarrow> bool \<times> 'w relay" where
  "siteEquals env files s = (let (current, s1) = readSite env s in (same_files current files, s1))"

text \<open>
  The directory is copied next to the site and put in its place in one step: renamed when there
  is no site yet, exchanged otherwise. The copy is removed in every case; copying a directory that
  is not there fails.
\<close>

definition swapSiteDir :: "'w relay_env \<Rightarrow> website option \<Rightarrow> 'w relay \<Rightarrow> failure \<times> 'w relay" where
  "swapSiteDir env src s =
     (case src of
        None \<Rightarrow> (Some ''no such file or directory'', s)
      | Some content \<Rightarrow>
          (let (e1, s1) = fault env (WriteOp ''site.swap'') s
           in case e1 of
                Some x \<Rightarrow> (Some x, s1)
              | None \<Rightarrow>
                  if site_dir s1 = None
                  then (let (e2, s2) = fault env (RenameOp ''site'') s1
                        in case e2 of Some x \<Rightarrow> (Some x, s2) | None \<Rightarrow> (None, s2\<lparr>site_dir := Some content\<rparr>))
                  else (let (e2, s2) = fault env (StatOp ''site'') s1
                        in case e2 of
                             Some x \<Rightarrow> (Some x, s2)
                           | None \<Rightarrow>
                               (let (e3, s3) = fault env (RenameOp ''site'') s2
                                in case e3 of
                                     Some x \<Rightarrow> (Some (''atomic website exchange: '' @ x), s3)
                                   | None \<Rightarrow> (None, s3\<lparr>site_dir := Some content\<rparr>)))))"

fun stage_files :: "'w relay_env \<Rightarrow> website \<Rightarrow> 'w relay \<Rightarrow> failure \<times> 'w relay" where
  "stage_files env [] s = (None, s)"
| "stage_files env ((p, _) # fs) s =
     (let (e1, s1) = fault env (MkdirOp p) s
      in case e1 of
           Some x \<Rightarrow> (Some x, s1)
         | None \<Rightarrow>
             (let (e2, s2) = fault env (WriteOp p) s1
              in case e2 of Some x \<Rightarrow> (Some x, s2) | None \<Rightarrow> stage_files env fs s2))"

definition writeSiteDir :: "'w relay_env \<Rightarrow> website \<Rightarrow> 'w relay \<Rightarrow> failure \<times> 'w relay" where
  "writeSiteDir env files s =
     (let (e, s1) = stage_files env files s
      in case e of Some x \<Rightarrow> (Some x, s1) | None \<Rightarrow> swapSiteDir env (Some files) s1)"

subsection \<open>Steps of an apply\<close>

definition log_line :: "string \<Rightarrow> 'w relay \<Rightarrow> 'w relay" where
  "log_line l s = s\<lparr>apply_log := apply_log s @ [l]\<rparr>"

definition callE :: "('s \<Rightarrow> failure \<times> 's) \<Rightarrow> (unit, 's) step" where
  "callE f s = (case f s of (None, s1) \<Rightarrow> (Inr (), s1) | (Some e, s1) \<Rightarrow> (Inl e, s1))"

definition chownLogged :: "'w relay_env \<Rightarrow> path \<Rightarrow> string \<Rightarrow> 'w relay \<Rightarrow> 'w relay" where
  "chownLogged env p owner s =
     (let (e, s1) = outside (relay_chown env p owner) s
      in case e of
           None \<Rightarrow> s1
         | Some x \<Rightarrow> log_line (''warning: '' @ x @ '' (continuing; file is root-owned with the correct mode)'') s1)"

definition read_or_empty :: "'w relay_env \<Rightarrow> path \<Rightarrow> (string, 'w relay) step" where
  "read_or_empty env p s = (case ReadFile env p s of (Contents d, s1) \<Rightarrow> (Inr d, s1) | (_, s1) \<Rightarrow> (Inr [], s1))"

definition trim_newlines :: "string \<Rightarrow> string" where
  "trim_newlines s = rev (dropWhile (\<lambda>c. c = newline) (rev s))"

record changes =
  CH_profiles :: string
  CH_profilesChanged :: bool
  CH_env :: string
  CH_envChanged :: bool
  CH_site :: website
  CH_siteChanged :: bool

definition candidate_path :: "relay_config \<Rightarrow> path" where
  "candidate_path cfg = Join (RC_StateDir cfg) ''candidate-profiles.json''"

definition check_candidate :: "'w relay_env \<Rightarrow> relay_config \<Rightarrow> string \<Rightarrow> (unit, 'w relay) step" where
  "check_candidate env cfg data =
     bindE (callE (writeAtomic env (candidate_path cfg) data)) (\<lambda>_ s.
       (let (e, s1) = outside (relay_check env data) s; (_, s2) = Remove env (candidate_path cfg) s1
        in case e of
             Some out \<Rightarrow> (Inl (''relay -check rejected profiles: '' @ out), s2)
           | None \<Rightarrow> (Inr (), log_line ''relay -check ok'' s2)))"

definition prepare_profiles :: "'w relay_env \<Rightarrow> relay_config \<Rightarrow> RelayRequest \<Rightarrow> (changes, 'w relay) step" where
  "prepare_profiles env cfg req =
     (if \<not> RR_ApplyProfiles req
      then returnE \<lparr>CH_profiles = [], CH_profilesChanged = False, CH_env = [], CH_envChanged = False, CH_site = [], CH_siteChanged = False\<rparr>
      else case RenderProfilesJSON env (RR_Profiles req) of
        Inl e \<Rightarrow> failE e
      | Inr newProfiles \<Rightarrow>
          bindE (read_or_empty env (RC_ProfilesPath cfg)) (\<lambda>oldProfiles.
          bindE (read_or_empty env (RC_MTProxyEnvPath cfg)) (\<lambda>oldEnv.
            (let profilesChanged = (trim_newlines oldProfiles \<noteq> trim_newlines newProfiles);
                 newEnv = RenderMTProxyEnv oldEnv (RR_MtproxySecrets req);
                 envChanged = (RenderMTProxyEnv oldEnv (existingMTProxySecrets oldEnv) \<noteq> newEnv)
             in bindE (whenE profilesChanged (check_candidate env cfg newProfiles)) (\<lambda>_.
                returnE \<lparr>CH_profiles = newProfiles, CH_profilesChanged = profilesChanged, CH_env = newEnv, CH_envChanged = envChanged,
                         CH_site = [], CH_siteChanged = False\<rparr>)))))"

definition prepare_site :: "'w relay_env \<Rightarrow> RelayRequest \<Rightarrow> changes \<Rightarrow> (changes, 'w relay) step" where
  "prepare_site env req ch s =
     (case RR_Site req of
        None \<Rightarrow> (Inr ch, s)
      | Some files \<Rightarrow>
          (case site_files files [] of
             Inl e \<Rightarrow> (Inl e, s)
           | Inr m \<Rightarrow>
               if map_of m ''index.html'' = None then (Inl ''site bundle must contain index.html'', s)
               else (let (same, s1) = siteEquals env m s
                     in (Inr (ch\<lparr>CH_site := m, CH_siteChanged := \<not> same\<rparr>), s1))))"

definition new_backup :: "string \<Rightarrow> 'w relay_env \<Rightarrow> 'w relay \<Rightarrow> failure \<times> 'w relay" where
  "new_backup name env s =
     (let (e, s1) = fault env (MkdirOp name) s
      in case e of
           Some x \<Rightarrow> (Some x, s1)
         | None \<Rightarrow> (None, if map_of (backup_dirs s1) name = None
                          then s1\<lparr>backup_dirs := backup_dirs s1 @ [(name, \<lparr>BK_files = [], BK_site = None\<rparr>)]\<rparr> else s1))"

definition change_backup :: "string \<Rightarrow> (backup \<Rightarrow> backup) \<Rightarrow> 'w relay \<Rightarrow> 'w relay" where
  "change_backup name f s = s\<lparr>backup_dirs := map (\<lambda>(n, b). (n, if n = name then f b else b)) (backup_dirs s)\<rparr>"

definition backup_file :: "'w relay_env \<Rightarrow> string \<Rightarrow> path \<Rightarrow> (unit, 'w relay) step" where
  "backup_file env name p s =
     (case ReadFile env p s of
        (Missing, s1) \<Rightarrow> (Inr (), s1)
      | (ReadError x, s1) \<Rightarrow> (Inl (''backup: '' @ x), s1)
      | (Contents d, s1) \<Rightarrow>
          (let (e, s2) = fault env (WriteOp (Base p)) s1
           in case e of
                Some x \<Rightarrow> (Inl (''backup: '' @ x), s2)
              | None \<Rightarrow> (Inr (), change_backup name (\<lambda>b. b\<lparr>BK_files := AList.update (Base p) d (BK_files b)\<rparr>) s2)))"

definition backup_site :: "'w relay_env \<Rightarrow> string \<Rightarrow> (unit, 'w relay) step" where
  "backup_site env name s =
     (case site_dir s of
        None \<Rightarrow> (Inl ''backup: no such file or directory'', s)
      | Some m \<Rightarrow>
          (let (e, s1) = fault env (WriteOp ''site'') s
           in case e of
                Some x \<Rightarrow> (Inl (''backup: '' @ x), s1)
              | None \<Rightarrow> (Inr (), change_backup name (\<lambda>b. b\<lparr>BK_site := Some m\<rparr>) s1)))"

definition backup_all :: "'w relay_env \<Rightarrow> relay_config \<Rightarrow> string \<Rightarrow> changes \<Rightarrow> (unit, 'w relay) step" where
  "backup_all env cfg name ch =
     bindE (backup_file env name (RC_ProfilesPath cfg)) (\<lambda>_.
     bindE (backup_file env name (RC_MTProxyEnvPath cfg)) (\<lambda>_.
     bindE (whenE (CH_siteChanged ch) (backup_site env name)) (\<lambda>_.
       modifyE (log_line (''backup written to '' @ name)))))"

definition write_all :: "'w relay_env \<Rightarrow> relay_config \<Rightarrow> RelayRequest \<Rightarrow> changes \<Rightarrow> (unit, 'w relay) step" where
  "write_all env cfg req ch =
     bindE (whenE (CH_profilesChanged ch)
       (bindE (callE (writeAtomic env (RC_ProfilesPath cfg) (CH_profiles ch))) (\<lambda>_.
        modifyE (\<lambda>s. log_line (''profiles.json written ('' @ Itoa (int (length (RR_Profiles req))) @ '' profiles)'')
          (chownLogged env (RC_ProfilesPath cfg) ''root:tproxy'' s))))) (\<lambda>_.
     bindE (whenE (CH_envChanged ch)
       (bindE (callE (writeAtomic env (RC_MTProxyEnvPath cfg) (CH_env ch))) (\<lambda>_.
        modifyE (\<lambda>s. log_line (''mtproxy.env written ('' @ Itoa (int (length (RR_MtproxySecrets req))) @ '' secrets)'')
          (chownLogged env (RC_MTProxyEnvPath cfg) ''root:mtproxy'' s))))) (\<lambda>_.
     whenE (CH_siteChanged ch)
       (bindE (callE (writeSiteDir env (CH_site ch))) (\<lambda>_.
        modifyE (log_line (''site deployed ('' @ Itoa (int (length (CH_site ch))) @ '' files)''))))))"

text \<open>A failed \<^verbatim>\<open>systemctl\<close> has its trimmed output and its error; the apply reports the first alone.\<close>

definition restart_unit :: "'w relay_env \<Rightarrow> (string \<times> string \<Rightarrow> string) \<Rightarrow> string \<Rightarrow> 'w relay \<Rightarrow> failure \<times> 'w relay" where
  "restart_unit env report u s = (let (e, s1) = outside (relay_restart env u (disk s)) s in (map_option report e, s1))"

definition output_and_error :: "string \<times> string \<Rightarrow> string" where
  "output_and_error r = fst r @ '': '' @ snd r"

definition restart_all :: "'w relay_env \<Rightarrow> changes \<Rightarrow> (unit, 'w relay) step" where
  "restart_all env ch =
     bindE (whenE (CH_envChanged ch)
       (bindE (wrapE ''restart mtproxy: '' (callE (restart_unit env fst ''mtproxy''))) (\<lambda>_.
        modifyE (\<lambda>s. log_line ''mtproxy restarted'' (s\<lparr>restarted_mtproxy := True\<rparr>))))) (\<lambda>_.
     bindE (wrapE ''restart tproxy-server: '' (callE (restart_unit env fst ''tproxy-server''))) (\<lambda>_.
        modifyE (\<lambda>s. log_line ''tproxy-server restarted'' (s\<lparr>restarted_relay := True\<rparr>))))"

subsection \<open>Waiting for the relay\<close>

text \<open>
  The polling loop; not returning is \<open>None\<close>. \<^verbatim>\<open>select_wait\<close> is the end of the context or of the
  quarter of a second.
\<close>

partial_function (option) wait_loop :: "'w relay_env \<Rightarrow> gotime \<Rightarrow> 'w \<Rightarrow> (failure \<times> 'w) option" where
  "wait_loop env deadline w =
     (let (a, w1) = relay_probe env ''/healthz'' w;
          (b, w2) = (if a then relay_probe env ''/readyz'' w1 else (False, w1))
      in if b then Some (None, w2)
         else if clock env w2 > deadline then Some (Some ''relay did not become healthy in time'', w2)
         else case select_wait env w2 of
                (Some e, w3) \<Rightarrow> Some (Some e, w3)
              | (None, w3) \<Rightarrow> wait_loop env deadline w3)"

definition waitHealthy :: "'w relay_env \<Rightarrow> relay_config \<Rightarrow> 'w relay \<Rightarrow> (failure \<times> 'w relay) option" where
  "waitHealthy env cfg s =
     map_option (\<lambda>(e, w). (e, s\<lparr>world := w\<rparr>)) (wait_loop env (clock env (world s) + RC_HealthWait cfg) (world s))"

subsection \<open>Rolling back\<close>

definition note_step :: "string \<Rightarrow> failure \<Rightarrow> bool \<times> 'w relay \<Rightarrow> bool \<times> 'w relay" where
  "note_step desc e r =
     (case e of None \<Rightarrow> r | Some x \<Rightarrow> (False, log_line (''rollback step failed: '' @ desc @ '': '' @ x) (snd r)))"

definition restore_file ::
  "'w relay_env \<Rightarrow> string \<Rightarrow> string \<Rightarrow> string \<Rightarrow> path \<Rightarrow> bool \<times> 'w relay \<Rightarrow> bool \<times> 'w relay" where
  "restore_file env name desc owner p r =
     (let (e, s1) = fault env (OpenOp (Join name (Base p))) (snd r)
      in case Option.bind (map_of (backup_dirs s1) name) (\<lambda>b. map_of (BK_files b) (Base p)) of
           None \<Rightarrow> (fst r, s1)
         | Some d \<Rightarrow>
             (case e of
                Some x \<Rightarrow> note_step (''read '' @ desc @ '' backup'') (Some x) (fst r, s1)
              | None \<Rightarrow>
                  (let (e2, s2) = writeAtomic env p d s1
                   in case e2 of
                        Some x \<Rightarrow> note_step (''restore '' @ desc) (Some x) (fst r, s2)
                      | None \<Rightarrow> (fst r, chownLogged env p owner s2))))"

definition noted :: "string \<Rightarrow> ('w relay \<Rightarrow> failure \<times> 'w relay) \<Rightarrow> bool \<times> 'w relay \<Rightarrow> bool \<times> 'w relay" where
  "noted desc f r = (let (e, s1) = f (snd r) in note_step desc e (fst r, s1))"

definition restore_all :: "'w relay_env \<Rightarrow> relay_config \<Rightarrow> string \<Rightarrow> changes \<Rightarrow> 'w relay \<Rightarrow> bool \<times> 'w relay" where
  "restore_all env cfg name ch s =
     (let r1 = restore_file env name ''profiles.json'' ''root:tproxy'' (RC_ProfilesPath cfg) (True, s);
          r2 = restore_file env name ''mtproxy.env'' ''root:mtproxy'' (RC_MTProxyEnvPath cfg) r1;
          r3 = (if CH_siteChanged ch
                then noted ''restore site'' (swapSiteDir env (Option.bind (map_of (backup_dirs (snd r2)) name) BK_site)) r2 else r2);
          r4 = (if CH_envChanged ch then noted ''restart mtproxy'' (restart_unit env output_and_error ''mtproxy'') r3 else r3)
      in noted ''restart tproxy-server'' (restart_unit env output_and_error ''tproxy-server'') r4)"

definition relay_result :: "bool \<Rightarrow> bool \<Rightarrow> 'w relay \<Rightarrow> RelayResult" where
  "relay_result ok rolled s =
     \<lparr>AR_Ok = ok, AR_RolledBack = rolled, AR_RestartedRelay = restarted_relay s, AR_RestartedMtproxy = restarted_mtproxy s,
      AR_Log = apply_log s\<rparr>"

definition rollback ::
  "'w relay_env \<Rightarrow> relay_config \<Rightarrow> string \<Rightarrow> changes \<Rightarrow> string \<Rightarrow> 'w relay \<Rightarrow> (RelayResult \<times> 'w relay) option" where
  "rollback env cfg name ch cause s =
     (let (ok, s1) = restore_all env cfg name ch (log_line (''rolling back: '' @ cause) s)
      in case waitHealthy env cfg s1 of
           None \<Rightarrow> None
         | Some (e, s2) \<Rightarrow>
             (let (restored, s3) = note_step ''wait healthy'' e (ok, s2);
                  s4 = (if restored then s3 else log_line ''rollback FAILED; manual intervention needed'' s3)
              in Some (relay_result False restored s4, s4)))"

subsection \<open>The whole apply\<close>

definition keptBackups :: nat where
  "keptBackups = 5"

fun remove_dirs :: "'w relay_env \<Rightarrow> string list \<Rightarrow> nat \<times> failure \<Rightarrow> 'w relay \<Rightarrow> (nat \<times> failure) \<times> 'w relay" where
  "remove_dirs env [] acc s = (acc, s)"
| "remove_dirs env (n # ns) (removed, first) s =
     (let (e, s1) = fault env (RemoveOp n) s
      in case e of
           Some x \<Rightarrow> remove_dirs env ns (removed, case first of None \<Rightarrow> Some x | Some y \<Rightarrow> Some y) s1
         | None \<Rightarrow> remove_dirs env ns (Suc removed, first) (s1\<lparr>backup_dirs := filter (\<lambda>(m, _). m \<noteq> n) (backup_dirs s1)\<rparr>))"

definition pruneBackups :: "'w relay_env \<Rightarrow> nat \<Rightarrow> 'w relay \<Rightarrow> (nat \<times> failure) \<times> 'w relay" where
  "pruneBackups env keep s =
     (let (e, s1) = fault env (OpenOp ''backup'') s
      in case e of
           Some x \<Rightarrow> ((0, Some x), s1)
         | None \<Rightarrow>
             (let names = map fst (backup_dirs s1)
              in if length names \<le> keep then ((0, None), s1)
                 else remove_dirs env (take (length names - keep) (sort names)) (0, None) s1))"

definition prune_logged :: "'w relay_env \<Rightarrow> 'w relay \<Rightarrow> 'w relay" where
  "prune_logged env s =
     (case pruneBackups env keptBackups s of
        ((n, Some x), s1) \<Rightarrow> log_line (''backup prune failed: '' @ x) s1
      | ((n, None), s1) \<Rightarrow>
          if n > 0 then log_line (''pruned '' @ Itoa (int n) @ '' old backup(s), keeping the newest '' @ Itoa (int keptBackups)) s1 else s1)"

definition fail_apply :: "string \<Rightarrow> 'w relay \<Rightarrow> RelayResult \<times> 'w relay" where
  "fail_apply e s = (let s1 = log_line (''error: '' @ e) s in (relay_result False False s1, s1))"

text \<open>The second half of an apply: write, restart, wait, and roll back when one of them fails.\<close>

definition put_in_force :: "'w relay_env \<Rightarrow> relay_config \<Rightarrow> string \<Rightarrow> RelayRequest \<Rightarrow> changes \<Rightarrow> 'w relay \<Rightarrow> (RelayResult \<times> 'w relay) option" where
  "put_in_force env cfg name req ch s =
     (case bindE (write_all env cfg req ch) (\<lambda>_. restart_all env ch) s of
        (Inl e, s3) \<Rightarrow> rollback env cfg name ch e s3
      | (Inr _, s3) \<Rightarrow>
          (case waitHealthy env cfg s3 of
             None \<Rightarrow> None
           | Some (Some e, s4) \<Rightarrow> rollback env cfg name ch e s4
           | Some (None, s4) \<Rightarrow>
               (let s5 = prune_logged env (log_line ''relay healthy'' s4) in Some (relay_result True False s5, s5))))"

definition unchanged :: "changes \<Rightarrow> bool" where
  "unchanged ch \<longleftrightarrow> \<not> CH_profilesChanged ch \<and> \<not> CH_envChanged ch \<and> \<not> CH_siteChanged ch"

definition prepare :: "'w relay_env \<Rightarrow> relay_config \<Rightarrow> string \<Rightarrow> RelayRequest \<Rightarrow> (changes, 'w relay) step" where
  "prepare env cfg name req =
     bindE (callE (new_backup name env)) (\<lambda>_. bindE (prepare_profiles env cfg req) (prepare_site env req))"

definition begin_apply :: "'w relay \<Rightarrow> 'w relay" where
  "begin_apply s = s\<lparr>apply_log := [], restarted_mtproxy := False, restarted_relay := False\<rparr>"

text \<open>
  The branch of \<^verbatim>\<open>Apply\<close> for a relay node, with the maintenance lock held; \<open>name\<close> is the backup
  directory's name, made of the time and two random bytes.
\<close>

definition applyRelay :: "'w relay_env \<Rightarrow> relay_config \<Rightarrow> string \<Rightarrow> RelayRequest \<Rightarrow> 'w relay \<Rightarrow> (RelayResult \<times> 'w relay) option" where
  "applyRelay env cfg name req s =
     (case prepare env cfg name req (begin_apply s) of
        (Inl e, s1) \<Rightarrow> Some (fail_apply e s1)
      | (Inr ch, s1) \<Rightarrow>
          if unchanged ch
          then (let s2 = log_line ''nothing changed'' s1 in Some (relay_result True False s2, s2))
          else (case backup_all env cfg name ch s1 of
                  (Inl e, s2) \<Rightarrow> Some (fail_apply e s2)
                | (Inr _, s2) \<Rightarrow> put_in_force env cfg name req ch s2))"

end
