(* ===== verification/Agent_Relay_Safety.thy ===== *)
theory Agent_Relay_Safety
  imports Agent_Relay
begin

text \<open>
  What each phase of a relay apply leaves alone and what it establishes: the lemmas behind the
  properties of \<open>Agent_Relay\<close>. A file operation changes only its own path; preparing changes nothing but
  the candidate file; the backup holds what was on disk; writing and restarting touch the two files and
  the site only; a restore without a failed step puts the backup back.
\<close>

subsection \<open>Operations that leave files, site and backups alone\<close>

definition still :: "'w relay \<Rightarrow> 'w relay \<Rightarrow> bool" where
  "still s s' \<longleftrightarrow> disk s' = disk s \<and> site_dir s' = site_dir s \<and> backup_dirs s' = backup_dirs s"

lemma still_refl [simp]: "still s s"
  by (simp add: still_def)

lemma still_trans: "still s s1 \<Longrightarrow> still s1 s2 \<Longrightarrow> still s s2"
  by (simp add: still_def)

lemma more_relay:
  fixes s s' :: "'w relay"
  assumes "machine.more s' = machine.more s"
  shows "site_dir s' = site_dir s" "backup_dirs s' = backup_dirs s"
  using assms by (cases s; cases s'; simp)+

lemma outside_relay [simp]:
  fixes s :: "'w relay"
  shows "site_dir (snd (outside f s)) = site_dir s" "backup_dirs (snd (outside f s)) = backup_dirs s"
  by (rule more_relay, simp)+

lemma still_outside [simp]: "still s (snd (outside f s))"
  by (simp add: still_def)

lemma still_pair: "outside f s = (r, s') \<Longrightarrow> still s s'"
  using still_outside [of s f] by simp

lemma log_line_simps [simp]:
  "disk (log_line l s) = disk s" "site_dir (log_line l s) = site_dir s" "backup_dirs (log_line l s) = backup_dirs s"
  "world (log_line l s) = world s" "apply_log (log_line l s) = apply_log s @ [l]"
  "restarted_mtproxy (log_line l s) = restarted_mtproxy s" "restarted_relay (log_line l s) = restarted_relay s"
  by (simp_all add: log_line_def)

lemma still_log_line [simp]: "still s (log_line l s)"
  by (simp add: still_def)

lemma still_chownLogged [simp]: "still s (chownLogged env p owner s)"
  by (auto simp: chownLogged_def Let_def split_beta still_def split: option.splits)

lemma still_read_or_empty: "read_or_empty env p s = (r, s') \<Longrightarrow> still s s'"
proof -
  have "still s (snd (ReadFile env p s))"
    unfolding still_def using more_relay [of "snd (ReadFile env p s)" s] by simp
  then show "read_or_empty env p s = (r, s') \<Longrightarrow> still s s'"
    by (cases "ReadFile env p s") (auto simp: read_or_empty_def split: read_result.splits)
qed

lemma read_files_still: "read_files env fs s = (c, s') \<Longrightarrow> still s s'"
proof (induction fs arbitrary: s c s')
  case (Cons f fs)
  obtain e s1 where 1: "fault env (OpenOp (fst f)) s = (e, s1)" by fastforce
  obtain rest s2 where 2: "read_files env fs s1 = (rest, s2)" by fastforce
  then show ?case
    using Cons.prems 1 2 still_trans [OF still_pair [OF 1] Cons.IH [OF 2]] by (cases f) simp
qed simp

lemma siteEquals_still: "siteEquals env m s = (b, s') \<Longrightarrow> still s s'"
  by (auto simp: siteEquals_def readSite_def Let_def split: option.splits prod.splits dest: read_files_still)

lemma restart_unit_still: "restart_unit env rep u s = (e, s') \<Longrightarrow> still s s'"
  by (auto simp: restart_unit_def Let_def split: prod.splits dest: still_pair)

lemma waitHealthy_still: "waitHealthy env cfg s = Some (e, s') \<Longrightarrow> still s s'"
  by (auto simp: waitHealthy_def still_def)

lemma writeAtomic_relay [simp]:
  fixes s :: "'w relay"
  shows "site_dir (snd (writeAtomic env p data s)) = site_dir s" "backup_dirs (snd (writeAtomic env p data s)) = backup_dirs s"
  by (rule more_relay, simp)+

lemma Remove_relay [simp]:
  fixes s :: "'w relay"
  shows "site_dir (snd (Remove env p s)) = site_dir s" "backup_dirs (snd (Remove env p s)) = backup_dirs s"
  by (rule more_relay, simp add: Remove_frame)+

lemma writeAtomic_other: "q \<noteq> p \<Longrightarrow> disk (snd (writeAtomic env p data s)) q = disk s q"
  by (rule writeAtomic_cases [of env p data s]) auto

lemma Remove_other: "q \<noteq> p \<Longrightarrow> disk (snd (Remove env p s)) q = disk s q"
  using Remove_frame(2) [of p "{p}" s env] within_disk [of "{p}" s "snd (Remove env p s)" q] by simp

lemma callE_result:
  "callE f s = (r, s') \<longleftrightarrow> s' = snd (f s) \<and> r = (case fst (f s) of None \<Rightarrow> Inr () | Some e \<Rightarrow> Inl e)"
  by (auto simp: callE_def split: prod.splits option.splits)

subsection \<open>Preparing\<close>

text \<open>
  \<open>apart A site s s'\<close>: files outside \<open>A\<close>, the backups and, unless \<open>site\<close>, the site are as they
  were.
\<close>

definition apart :: "path set \<Rightarrow> bool \<Rightarrow> 'w relay \<Rightarrow> 'w relay \<Rightarrow> bool" where
  "apart A site s s' \<longleftrightarrow>
     (\<forall>p. p \<notin> A \<longrightarrow> disk s' p = disk s p) \<and> backup_dirs s' = backup_dirs s \<and> (\<not> site \<longrightarrow> site_dir s' = site_dir s)"

lemma apart_refl [simp]: "apart A b s s"
  by (simp add: apart_def)

lemma apart_trans: "apart A b s s1 \<Longrightarrow> apart A b s1 s2 \<Longrightarrow> apart A b s s2"
  by (simp add: apart_def)

lemma still_apart: "still s s' \<Longrightarrow> apart A b s s'"
  by (simp add: apart_def still_def)

lemma apart_writeAtomic: "p \<in> A \<Longrightarrow> apart A b s (snd (writeAtomic env p data s))"
  unfolding apart_def using writeAtomic_other by (metis writeAtomic_relay)

lemma apart_Remove: "p \<in> A \<Longrightarrow> apart A b s (snd (Remove env p s))"
  unfolding apart_def using Remove_other by (metis Remove_relay)

lemma check_candidate_apart:
  assumes "check_candidate env cfg data s = (r, s')"
  shows "apart {candidate_path cfg} False s s'"
proof -
  let ?A = "{candidate_path cfg}"
  define s1 where "s1 = snd (writeAtomic env (candidate_path cfg) data s)"
  have 1: "apart ?A False s s1" unfolding s1_def by (rule apart_writeAtomic) simp
  define s2 where "s2 = snd (outside (relay_check env data) s1)"
  have 2: "apart ?A False s s2" unfolding s2_def by (rule apart_trans [OF 1 still_apart]) simp
  define s3 where "s3 = snd (Remove env (candidate_path cfg) s2)"
  have 3: "apart ?A False s s3" unfolding s3_def by (rule apart_trans [OF 2 apart_Remove]) simp
  have "apart ?A False s (log_line l s3)" for l
    by (rule apart_trans [OF 3 still_apart]) simp
  with 1 3 show ?thesis
    using assms unfolding check_candidate_def
    by (auto simp: callE_result s1_def [symmetric] s2_def [symmetric] s3_def [symmetric] Let_def split_beta
        elim!: bindE_cases split: option.splits)
qed

lemma prepare_profiles_apart:
  assumes "prepare_profiles env cfg req s = (r, s')"
  shows "apart {candidate_path cfg} False s s'"
proof (cases "RR_ApplyProfiles req")
  case False
  then show ?thesis using assms by (auto simp: prepare_profiles_def apart_def)
next
  case True
  show ?thesis
  proof (cases "RenderProfilesJSON env (RR_Profiles req)")
    case (Inl e)
    then show ?thesis using assms True by (auto simp: prepare_profiles_def apart_def)
  next
    case (Inr new)
    show ?thesis
      using assms True Inr
      by (auto simp: prepare_profiles_def Let_def whenE_result elim!: bindE_cases split: if_splits
          dest!: still_read_or_empty check_candidate_apart still_apart [of _ _ "{candidate_path cfg}" False]) (metis apart_trans)+
  qed
qed

lemma prepare_site_still: "prepare_site env req ch s = (r, s') \<Longrightarrow> still s s'"
  by (auto simp: prepare_site_def Let_def split: option.splits sum.splits if_splits prod.splits dest: siteEquals_still)

subsection \<open>The backup\<close>

definition empty_backup :: backup where
  "empty_backup = \<lparr>BK_files = [], BK_site = None\<rparr>"

lemma new_backup_ok:
  assumes "new_backup name env s = (e, s')"
  shows "disk s' = disk s" "site_dir s' = site_dir s"
    "e = None \<Longrightarrow> map_of (backup_dirs s) name = None \<Longrightarrow> map_of (backup_dirs s') name = Some empty_backup"
  using assms
  by (auto simp: new_backup_def Let_def empty_backup_def still_def map_add_def split: prod.splits option.splits if_splits dest!: still_pair)

lemma map_of_change_backup:
  "map_of (backup_dirs (change_backup name f s)) n = map_option (if n = name then f else id) (map_of (backup_dirs s) n)"
proof -
  have "map_of (map (\<lambda>(n, b). (n, if n = name then f b else b)) bs) n = map_option (if n = name then f else id) (map_of bs n)" for bs
    by (induction bs) auto
  then show ?thesis by (simp add: change_backup_def)
qed

lemma change_backup_simps [simp]: "disk (change_backup name f s) = disk s" "site_dir (change_backup name f s) = site_dir s"
  by (simp_all add: change_backup_def)

text \<open>\<open>has_backup name s b\<close>: the backup directory of this apply holds \<open>b\<close>.\<close>

definition has_backup :: "string \<Rightarrow> 'w relay \<Rightarrow> backup \<Rightarrow> bool" where
  "has_backup name s b \<longleftrightarrow> map_of (backup_dirs s) name = Some b"

lemma still_has_backup: "still s s' \<Longrightarrow> has_backup name s' b \<longleftrightarrow> has_backup name s b"
  by (simp add: still_def has_backup_def)

lemma backup_file_ok:
  assumes "backup_file env name p s = (r, s')"
  shows "disk s' = disk s" "site_dir s' = site_dir s"
    "r = Inr () \<Longrightarrow> has_backup name s b \<Longrightarrow>
       has_backup name s' (case disk s p of None \<Rightarrow> b | Some d \<Rightarrow> b\<lparr>BK_files := AList.update (Base p) d (BK_files b)\<rparr>)"
proof -
  obtain x s1 where 1: "ReadFile env p s = (x, s1)" by fastforce
  have s1: "disk s1 = disk s" "site_dir s1 = site_dir s" "backup_dirs s1 = backup_dirs s"
    using ReadFile_frame [of env p s] more_relay [of s1 s] 1 by simp_all
  obtain e s2 where 2: "fault env (WriteOp (Base p)) s1 = (e, s2)" by fastforce
  have s2: "disk s2 = disk s" "site_dir s2 = site_dir s" "backup_dirs s2 = backup_dirs s"
    using still_pair [OF 2] s1 by (simp_all add: still_def)
  have read: "x = Missing \<Longrightarrow> disk s p = None" "x = Contents d \<Longrightarrow> disk s p = Some d" for d
    using ReadFile_Missing [of env p s] ReadFile_Contents [of env p s] 1 by simp_all
  show "disk s' = disk s" "site_dir s' = site_dir s"
    using assms s1 s2 by (auto simp: backup_file_def 1 2 Let_def split: read_result.splits option.splits)
  show "r = Inr () \<Longrightarrow> has_backup name s b \<Longrightarrow>
       has_backup name s' (case disk s p of None \<Rightarrow> b | Some d \<Rightarrow> b\<lparr>BK_files := AList.update (Base p) d (BK_files b)\<rparr>)"
    using assms s1 s2 read
    by (auto simp: backup_file_def 1 2 Let_def has_backup_def map_of_change_backup split: read_result.splits option.splits)
qed

lemma backup_site_ok:
  assumes "backup_site env name s = (r, s')"
  shows "disk s' = disk s" "site_dir s' = site_dir s"
    "r = Inr () \<Longrightarrow> has_backup name s b \<Longrightarrow> site_dir s \<noteq> None \<and> has_backup name s' (b\<lparr>BK_site := site_dir s\<rparr>)"
  using assms
  by (auto simp: backup_site_def Let_def has_backup_def map_of_change_backup still_def
      split: prod.splits option.splits dest!: still_pair)

text \<open>
  The names under which the two files are backed up differ, the files are different ones and neither
  is the candidate file.
\<close>

definition relay_paths_ok :: "relay_config \<Rightarrow> bool" where
  "relay_paths_ok cfg \<longleftrightarrow>
     Base (RC_ProfilesPath cfg) \<noteq> Base (RC_MTProxyEnvPath cfg) \<and>
     RC_ProfilesPath cfg \<noteq> candidate_path cfg \<and> RC_MTProxyEnvPath cfg \<noteq> candidate_path cfg"

text \<open>The backup \<open>b\<close> holds the two files and, when it is about to change, the site of \<open>s\<close>.\<close>

definition backs_up :: "relay_config \<Rightarrow> changes \<Rightarrow> backup \<Rightarrow> 'w relay \<Rightarrow> bool" where
  "backs_up cfg ch b s \<longleftrightarrow>
     (\<forall>p \<in> {RC_ProfilesPath cfg, RC_MTProxyEnvPath cfg}. map_of (BK_files b) (Base p) = disk s p) \<and>
     (CH_siteChanged ch \<longrightarrow> site_dir s \<noteq> None \<and> BK_site b = site_dir s)"

lemma backup_all_frame:
  assumes "backup_all env cfg name ch s = (r, s')"
  shows "disk s' = disk s \<and> site_dir s' = site_dir s"
proof -
  have "disk v = disk u \<and> site_dir v = site_dir u" if "backup_file env name p u = (x, v) \<or> backup_site env name u = (x, v)" for p u v x
    using that backup_file_ok(1,2) backup_site_ok(1,2) by metis
  then show ?thesis
    using assms by (auto simp: backup_all_def whenE_result elim!: bindE_cases split: if_splits) metis+
qed

lemma backup_all_ok:
  assumes run: "backup_all env cfg name ch s = (Inr u, s')" and b: "has_backup name s empty_backup" and paths: "relay_paths_ok cfg"
  obtains b' where "has_backup name s' b'" "backs_up cfg ch b' s"
proof -
  let ?p = "RC_ProfilesPath cfg" and ?q = "RC_MTProxyEnvPath cfg"
  let ?add = "\<lambda>p b. case disk s p of None \<Rightarrow> b | Some d \<Rightarrow> b\<lparr>BK_files := AList.update (Base p) d (BK_files b)\<rparr>"
  obtain s1 s2 s3 where 1: "backup_file env name ?p s = (Inr (), s1)" and 2: "backup_file env name ?q s1 = (Inr (), s2)"
    and 3: "whenE (CH_siteChanged ch) (backup_site env name) s2 = (Inr (), s3)" and s': "s' = log_line (''backup written to '' @ name) s3"
    using run by (auto simp: backup_all_def elim!: bindE_Inr)
  define b2 where "b2 = ?add ?q (?add ?p empty_backup)"
  have b2: "has_backup name s2 b2"
    using backup_file_ok(3) [OF 2 refl backup_file_ok(3) [OF 1 refl b]] backup_file_ok(1) [OF 1] by (simp add: b2_def)
  define b3 where "b3 = (if CH_siteChanged ch then b2\<lparr>BK_site := site_dir s\<rparr> else b2)"
  have site: "site_dir s2 = site_dir s"
    using backup_file_ok(2) [OF 1] backup_file_ok(2) [OF 2] by simp
  have b3: "has_backup name s3 b3 \<and> (CH_siteChanged ch \<longrightarrow> site_dir s \<noteq> None)"
    using 3 b2 backup_site_ok(3) [of env name s2 "Inr ()" s3 b2] site by (auto simp: whenE_result b3_def split: if_splits)
  have "map_of (BK_files b2) (Base p) = disk s p" if "p \<in> {?p, ?q}" for p
    using that paths by (auto simp: b2_def empty_backup_def relay_paths_ok_def update_conv' split: option.splits)
  then have "backs_up cfg ch b3 s"
    using b3 by (auto simp: backs_up_def b3_def)
  with b3 show ?thesis
    using that by (simp add: s' has_backup_def)
qed

subsection \<open>Writing and restarting\<close>

abbreviation relay_paths :: "relay_config \<Rightarrow> path set" where
  "relay_paths cfg \<equiv> {RC_ProfilesPath cfg, RC_MTProxyEnvPath cfg}"

lemma stage_files_still: "stage_files env fs s = (e, s') \<Longrightarrow> still s s'"
proof (induction fs arbitrary: s)
  case (Cons f fs)
  obtain e1 s1 where 1: "fault env (MkdirOp (fst f)) s = (e1, s1)" by fastforce
  obtain e2 s2 where 2: "fault env (WriteOp (fst f)) s1 = (e2, s2)" by fastforce
  note o = still_pair [OF 1] still_trans [OF still_pair [OF 1] still_pair [OF 2]]
  show ?case
    using Cons 1 2 o by (cases f) (auto split: option.splits intro: still_trans)
qed simp

lemma swapSiteDir_result:
  assumes "swapSiteDir env src s = (e, s')"
  shows "disk s' = disk s \<and> backup_dirs s' = backup_dirs s" "e \<noteq> None \<Longrightarrow> still s s'"
    "e = None \<Longrightarrow> src \<noteq> None \<and> site_dir s' = src"
  using assms
  by (auto simp: swapSiteDir_def Let_def still_def split: option.splits prod.splits if_splits dest!: still_pair)

lemma writeSiteDir_result:
  assumes "writeSiteDir env m s = (e, s')"
  shows "disk s' = disk s \<and> backup_dirs s' = backup_dirs s" "e = None \<Longrightarrow> site_dir s' = Some m"
  using assms swapSiteDir_result [of env "Some m" _ e s']
  by (auto simp: writeSiteDir_def Let_def still_def split: option.splits prod.splits dest!: stage_files_still)

lemma write_file_apart:
  assumes "bindE (callE (writeAtomic env p data)) (\<lambda>_. modifyE (\<lambda>s. log_line l (chownLogged env p owner s))) s = (r, s')" "p \<in> A"
  shows "apart A b s s'" "r = Inr u \<Longrightarrow> disk s' = (disk s)(p \<mapsto> data)"
proof -
  define s1 where "s1 = snd (writeAtomic env p data s)"
  have 1: "apart A b s s1" unfolding s1_def by (rule apart_writeAtomic) (rule assms(2))
  have 2: "still s1 (log_line l (chownLogged env p owner s1))"
    using still_trans [OF still_chownLogged still_log_line] .
  show "apart A b s s'"
    using assms(1) 1 apart_trans [OF 1 still_apart [OF 2]] by (auto simp: callE_result s1_def [symmetric] elim!: bindE_cases)
  show "r = Inr u \<Longrightarrow> disk s' = (disk s)(p \<mapsto> data)"
    using assms(1) 2 writeAtomic_ok [of env p data s]
    by (auto simp: callE_result s1_def [symmetric] still_def split: option.splits elim!: bindE_Inr)
qed

lemma write_site_apart:
  assumes "bindE (callE (writeSiteDir env m)) (\<lambda>_. modifyE (log_line l)) s = (r, s')"
  shows "apart A True s s' \<and> disk s' = disk s" "r = Inr u \<Longrightarrow> site_dir s' = Some m"
proof -
  define s1 where "s1 = snd (writeSiteDir env m s)"
  have w: "writeSiteDir env m s = (fst (writeSiteDir env m s), s1)" by (simp add: s1_def)
  note 1 = writeSiteDir_result [OF w]
  show "apart A True s s' \<and> disk s' = disk s"
    using assms 1(1) by (auto simp: callE_result s1_def [symmetric] apart_def elim!: bindE_cases)
  show "r = Inr u \<Longrightarrow> site_dir s' = Some m"
    using assms 1(2) by (auto simp: callE_result s1_def [symmetric] split: option.splits elim!: bindE_Inr)
qed

lemma write_all_apart:
  assumes "write_all env cfg req ch s = (r, s')"
  shows "apart (relay_paths cfg) (CH_siteChanged ch) s s'"
  using assms unfolding write_all_def whenE_result
  by (auto simp: whenE_result elim!: bindE_cases [where m = "whenE _ _"] split: if_splits
      dest!: write_file_apart(1) [where A = "relay_paths cfg" and b = "CH_siteChanged ch"]
        write_site_apart(1) [where A = "relay_paths cfg"]) (metis apart_trans)+

lemma write_all_ok:
  assumes run: "write_all env cfg req ch s = (Inr u, s')" and paths: "relay_paths_ok cfg"
  shows "disk s' (RC_ProfilesPath cfg) = (if CH_profilesChanged ch then Some (CH_profiles ch) else disk s (RC_ProfilesPath cfg))"
    "disk s' (RC_MTProxyEnvPath cfg) = (if CH_envChanged ch then Some (CH_env ch) else disk s (RC_MTProxyEnvPath cfg))"
    "site_dir s' = (if CH_siteChanged ch then Some (CH_site ch) else site_dir s)"
proof -
  let ?P = "RC_ProfilesPath cfg" and ?Q = "RC_MTProxyEnvPath cfg"
  have ne: "?P \<noteq> ?Q" using paths by (auto simp: relay_paths_ok_def)
  obtain s1 s2 where
    1: "whenE (CH_profilesChanged ch) (bindE (callE (writeAtomic env ?P (CH_profiles ch))) (\<lambda>_.
        modifyE (\<lambda>s. log_line (''profiles.json written ('' @ Itoa (int (length (RR_Profiles req))) @ '' profiles)'')
          (chownLogged env ?P ''root:tproxy'' s)))) s = (Inr (), s1)"
    and 2: "whenE (CH_envChanged ch) (bindE (callE (writeAtomic env ?Q (CH_env ch))) (\<lambda>_.
        modifyE (\<lambda>s. log_line (''mtproxy.env written ('' @ Itoa (int (length (RR_MtproxySecrets req))) @ '' secrets)'')
          (chownLogged env ?Q ''root:mtproxy'' s)))) s1 = (Inr (), s2)"
    and 3: "whenE (CH_siteChanged ch) (bindE (callE (writeSiteDir env (CH_site ch))) (\<lambda>_.
        modifyE (log_line (''site deployed ('' @ Itoa (int (length (CH_site ch))) @ '' files)'')))) s2 = (Inr u, s')"
    using run unfolding write_all_def by (auto elim!: bindE_Inr)
  have d1: "disk s1 = (if CH_profilesChanged ch then (disk s)(?P \<mapsto> CH_profiles ch) else disk s)" "site_dir s1 = site_dir s"
    using 1 write_file_apart(1) [where A = "{?P}" and b = False and s = s and s' = s1 and p = ?P]
      write_file_apart(2) [where A = "{?P}" and s = s and s' = s1 and p = ?P]
    by (auto simp: whenE_result apart_def split: if_splits)
  have d2: "disk s2 = (if CH_envChanged ch then (disk s1)(?Q \<mapsto> CH_env ch) else disk s1)" "site_dir s2 = site_dir s1"
    using 2 write_file_apart(1) [where A = "{?Q}" and b = False and s = s1 and s' = s2 and p = ?Q]
      write_file_apart(2) [where A = "{?Q}" and s = s1 and s' = s2 and p = ?Q]
    by (auto simp: whenE_result apart_def split: if_splits)
  have d3: "disk s' = disk s2" "site_dir s' = (if CH_siteChanged ch then Some (CH_site ch) else site_dir s2)"
    using 3 write_site_apart(1) [where A = "{}" and s = s2 and s' = s'] write_site_apart(2) [where s = s2 and s' = s'] by (auto simp: whenE_result split: if_splits)
  show "disk s' ?P = (if CH_profilesChanged ch then Some (CH_profiles ch) else disk s ?P)"
    "disk s' ?Q = (if CH_envChanged ch then Some (CH_env ch) else disk s ?Q)"
    "site_dir s' = (if CH_siteChanged ch then Some (CH_site ch) else site_dir s)"
    using d1 d2 d3 ne by simp_all
qed

lemma restart_all_still:
  assumes "restart_all env ch s = (r, s')"
  shows "still s s'"
proof -
  have flag: "still v (v\<lparr>restarted_mtproxy := True\<rparr>)" "still v (v\<lparr>restarted_relay := True\<rparr>)" for v :: "'a relay"
    by (simp_all add: still_def)
  have one: "still v v'" if "wrapE pre (callE (restart_unit env fst u)) v = (x, v')" for pre u v x v'
    using that restart_unit_still [of env fst u v]
    by (auto simp: wrapE_def callE_def split: prod.splits sum.splits option.splits)
  show ?thesis
    using assms unfolding restart_all_def
    by (auto simp: whenE_result elim!: bindE_cases split: if_splits dest!: one)
      (simp_all add: still_def)
qed

subsection \<open>Restoring\<close>

lemma note_step_snd: "still (snd r) (snd (note_step desc e r))" and note_step_fst: "fst (note_step desc e r) \<longleftrightarrow> fst r \<and> e = None"
  by (auto simp: note_step_def split: option.splits)

text \<open>A restore that has not failed so far has put back what the backup holds.\<close>

lemma restore_file_result:
  assumes "has_backup name (snd r) b" "r' = restore_file env name desc owner p r"
  shows "apart {p} False (snd r) (snd r') \<and>
    (fst r' \<longrightarrow> fst r \<and> disk (snd r') p = (case map_of (BK_files b) (Base p) of None \<Rightarrow> disk (snd r) p | Some d \<Rightarrow> Some d))"
proof -
  obtain e s1 where 1: "fault env (OpenOp (Join name (Base p))) (snd r) = (e, s1)" by fastforce
  have s1: "still (snd r) s1" by (rule still_pair [OF 1])
  have b: "map_of (backup_dirs s1) name = Some b"
    using s1 assms(1) by (simp add: still_def has_backup_def)
  show "apart {p} False (snd r) (snd r') \<and>
    (fst r' \<longrightarrow> fst r \<and> disk (snd r') p = (case map_of (BK_files b) (Base p) of None \<Rightarrow> disk (snd r) p | Some d \<Rightarrow> Some d))"
  proof (cases "map_of (BK_files b) (Base p)")
    case None
    then have r': "r' = (fst r, s1)"
      using assms(2) by (simp add: restore_file_def 1 b)
    show ?thesis
      using s1 None by (simp add: r' still_apart) (simp add: still_def)
  next
    case (Some d)
    obtain e2 s2 where 2: "writeAtomic env p d s1 = (e2, s2)" by fastforce
    have s2: "apart {p} False (snd r) s2"
      using apart_trans [OF still_apart [OF s1] apart_writeAtomic [of p "{p}" False s1 env d]] by (simp add: 2)
    have r': "r' = (case e of Some x \<Rightarrow> note_step (''read '' @ desc @ '' backup'') (Some x) (fst r, s1)
        | None \<Rightarrow> (case e2 of Some x \<Rightarrow> note_step (''restore '' @ desc) (Some x) (fst r, s2)
                   | None \<Rightarrow> (fst r, chownLogged env p owner s2)))"
      using assms(2) by (simp add: restore_file_def 1 2 b Some cong: option.case_cong)
    have fin: "apart {p} False (snd r) v" if "still s1 v \<or> still s2 v" for v
      using that s1 s2 by (meson apart_trans still_apart)
    have "apart {p} False (snd r) (snd r')"
      using note_step_snd [of "(fst r, s1)"] note_step_snd [of "(fst r, s2)"]
      by (auto simp: r' intro!: fin split: option.splits)
    moreover have "fst r' \<longrightarrow> fst r \<and> disk (snd r') p = Some d"
      using writeAtomic_ok [of env p d s1] still_chownLogged [of s2 env p owner]
      by (auto simp: r' note_step_fst 2 still_def split: option.splits)
    ultimately show ?thesis
      using Some by simp
  qed
qed

lemma noted_result:
  assumes "r' = noted desc f r"
  shows "still (snd (f (snd r))) (snd r')" "fst r' \<longleftrightarrow> fst r \<and> fst (f (snd r)) = None"
  using note_step_snd [of "(fst r, snd (f (snd r)))"] by (auto simp: assms noted_def Let_def split_beta note_step_fst)

lemma noted_restart: "still (snd r) (snd (noted desc (restart_unit env rep u) r))"
proof -
  have "still (snd r) (snd (restart_unit env rep u (snd r)))"
    by (rule restart_unit_still [of env rep u _ "fst (restart_unit env rep u (snd r))"]) simp
  then show ?thesis
    using noted_result(1) [OF refl] still_trans by metis
qed

text \<open>
  After a restore that reports no failed step, every backed-up file and the site are as the backup
  has them; whatever it reports, nothing else has changed.
\<close>

lemma restore_all_result:
  assumes b: "has_backup name s b" and b0: "backs_up cfg ch b s0" and paths: "relay_paths_ok cfg"
    and run: "restore_all env cfg name ch s = (ok, s')"
  shows "apart (relay_paths cfg) (CH_siteChanged ch) s s'"
    "ok \<Longrightarrow> p \<in> relay_paths cfg \<Longrightarrow> disk s0 p \<noteq> None \<Longrightarrow> disk s' p = disk s0 p"
    "ok \<Longrightarrow> CH_siteChanged ch \<Longrightarrow> site_dir s' = site_dir s0"
proof -
  let ?P = "RC_ProfilesPath cfg" and ?Q = "RC_MTProxyEnvPath cfg"
  have ne: "?P \<noteq> ?Q" using paths by (auto simp: relay_paths_ok_def)
  define r1 where "r1 = restore_file env name ''profiles.json'' ''root:tproxy'' ?P (True, s)"
  define r2 where "r2 = restore_file env name ''mtproxy.env'' ''root:mtproxy'' ?Q r1"
  define r3 where "r3 = (if CH_siteChanged ch
     then noted ''restore site'' (swapSiteDir env (Option.bind (map_of (backup_dirs (snd r2)) name) BK_site)) r2 else r2)"
  define r4 where "r4 = (if CH_envChanged ch then noted ''restart mtproxy'' (restart_unit env output_and_error ''mtproxy'') r3 else r3)"
  have run': "noted ''restart tproxy-server'' (restart_unit env output_and_error ''tproxy-server'') r4 = (ok, s')"
    using run unfolding restore_all_def Let_def r4_def r3_def r2_def r1_def .
  have 1: "apart {?P} False s (snd r1)" "fst r1 \<Longrightarrow> disk s0 ?P \<noteq> None \<Longrightarrow> disk (snd r1) ?P = disk s0 ?P"
    using restore_file_result [OF _ r1_def, of b] b b0 by (auto simp: backs_up_def)
  have b1: "has_backup name (snd r1) b"
    using b 1(1) by (simp add: has_backup_def apart_def)
  have 2: "apart {?Q} False (snd r1) (snd r2)" "fst r2 \<Longrightarrow> fst r1 \<and> (disk s0 ?Q \<noteq> None \<longrightarrow> disk (snd r2) ?Q = disk s0 ?Q)"
    using restore_file_result [OF b1 r2_def] b0 by (auto simp: backs_up_def)
  have b2: "map_of (backup_dirs (snd r2)) name = Some b"
    using b1 2(1) by (simp add: has_backup_def apart_def)
  have r3: "CH_siteChanged ch \<Longrightarrow> r3 = noted ''restore site'' (swapSiteDir env (BK_site b)) r2"
    by (simp add: r3_def b2)
  have 3: "(disk (snd r3) = disk (snd r2) \<and> backup_dirs (snd r3) = backup_dirs (snd r2)) \<and> (fst r3 \<longrightarrow> fst r2) \<and>
    (if CH_siteChanged ch then fst r3 \<longrightarrow> site_dir (snd r3) = BK_site b else r3 = r2)"
  proof (cases "CH_siteChanged ch")
    case True
    obtain e v where v: "swapSiteDir env (BK_site b) (snd r2) = (e, v)" by fastforce
    show ?thesis
      using noted_result [OF r3 [OF True]] swapSiteDir_result [OF v] True by (auto simp: v still_def)
  qed (simp add: r3_def)
  have 4: "still (snd r3) s'" "ok \<Longrightarrow> fst r3"
    using noted_restart [of r4 "''restart tproxy-server''" env output_and_error "''tproxy-server''"]
      noted_restart [of r3 "''restart mtproxy''" env output_and_error "''mtproxy''"]
      noted_result(2) [of _ "''restart tproxy-server''" _ r4] noted_result(2) [of _ "''restart mtproxy''" _ r3] run'
    by (auto simp: r4_def intro: still_trans split: if_splits) (metis fst_conv)+
  show "apart (relay_paths cfg) (CH_siteChanged ch) s s'"
    using 1(1) 2(1) 3 4(1) by (auto simp: apart_def still_def)
  show "ok \<Longrightarrow> p \<in> relay_paths cfg \<Longrightarrow> disk s0 p \<noteq> None \<Longrightarrow> disk s' p = disk s0 p"
    using 1(2) 2 3 4 ne by (auto simp: apart_def still_def)
  show "ok \<Longrightarrow> CH_siteChanged ch \<Longrightarrow> site_dir s' = site_dir s0"
    using 3 4 b0 by (auto simp: backs_up_def still_def)
qed

end
