(* ===== verification/Agent_Relay_Properties.thy ===== *)
theory Agent_Relay_Properties
  imports Agent_Relay_Safety
begin

text \<open>
  A relay apply returns, a failed one keeps what the node had, and a repeated one does nothing; and two
  cases in which it does not do what it reports.
\<close>

subsection \<open>The wait ends\<close>

text \<open>
  The clock: a probe does not take it back, and a wait that is not ended by the context lasts a quarter of a
  second.
\<close>

definition clock_law :: "'w relay_env \<Rightarrow> bool" where
  "clock_law env \<longleftrightarrow>
     (\<forall>p w. clock env w \<le> clock env (snd (relay_probe env p w))) \<and>
     (\<forall>w w'. select_wait env w = (None, w') \<longrightarrow> clock env w + Second div 4 \<le> clock env w')"

lemma wait_loop_returns:
  assumes "clock_law env"
  shows "\<exists>e w'. wait_loop env deadline w = Some (e, w')"
proof (induction "nat (deadline + 1 - clock env w)" arbitrary: w rule: less_induct)
  case less
  obtain a w1 where 1: "relay_probe env ''/healthz'' w = (a, w1)" by fastforce
  obtain b w2 where 2: "(if a then relay_probe env ''/readyz'' w1 else (False, w1)) = (b, w2)" by fastforce
  obtain e w3 where 3: "select_wait env w2 = (e, w3)" by fastforce
  have forward: "clock env w \<le> clock env (snd (relay_probe env p w))" for p w
    using assms by (simp add: clock_law_def)
  have "clock env w \<le> clock env w2"
    using forward [of w "''/healthz''"] forward [of w1 "''/readyz''"] 1 2 by (auto split: if_splits)
  moreover have "clock env w2 + Second div 4 \<le> clock env w3" if "e = None"
    using assms 3 that by (simp add: clock_law_def)
  ultimately have "\<exists>e' w'. wait_loop env deadline w3 = Some (e', w')" if "e = None" "clock env w2 \<le> deadline"
    using that by (intro less) (auto simp: Second_def)
  then show ?case
    by (subst wait_loop.simps) (auto simp: 1 2 3 Let_def split: option.splits)
qed

lemma waitHealthy_returns: "clock_law env \<Longrightarrow> \<exists>e s'. waitHealthy env cfg s = Some (e, s')"
  using wait_loop_returns [of env "clock env (world s) + RC_HealthWait cfg" "world s"] by (auto simp: waitHealthy_def)

lemma rollback_returns: "clock_law env \<Longrightarrow> \<exists>r s'. rollback env cfg name ch cause s = Some (r, s')"
  using waitHealthy_returns [of env cfg]
  by (auto simp: rollback_def Let_def split_beta split: option.splits)

lemma put_in_force_returns:
  assumes "clock_law env"
  shows "\<exists>r s'. put_in_force env cfg name req ch s = Some (r, s')"
proof -
  obtain z s3 where 3: "bindE (write_all env cfg req ch) (\<lambda>_. restart_all env ch) s = (z, s3)" by fastforce
  obtain e s4 where 4: "waitHealthy env cfg s3 = Some (e, s4)"
    using waitHealthy_returns [OF assms] by blast
  show ?thesis
    using rollback_returns [OF assms] by (cases z; cases e) (simp_all add: put_in_force_def 3 4 Let_def)
qed

text \<open>
  C12: A relay apply always comes to an end with an answer. The wait for a healthy relay polls without
  a bound on its rounds, and it is entered a second time by the rollback; when the clock does not go back
  and every wait takes its quarter of a second, then for every request, whatever the node answers and
  whichever file operation fails, \<^verbatim>\<open>Apply\<close> returns a result.
\<close>

theorem relay_apply_returns:
  assumes "clock_law env"
  shows "\<exists>r s'. applyRelay env cfg name req s = Some (r, s')"
  using put_in_force_returns [OF assms, of cfg name req]
  by (auto simp: applyRelay_def fail_apply_def Let_def split: prod.splits sum.splits)

subsection \<open>A node\<close>

text \<open>
  A relay node for the examples: its world is the clock and the number of restarts of the relay that
  will still fail. Nothing else fails.
\<close>

definition relay_node :: "(gotime \<times> nat) relay_env" where
  "relay_node =
     \<lparr>api_SystemInfo = (\<lambda>w. (Inr [], w)), api_Capabilities = (\<lambda>w. (Inl [], w)), api_WebStatus = (\<lambda>w. (Inr None, w)),
      api_WebPause = (\<lambda>w. (None, w)), api_WebResume = (\<lambda>w. (None, w)), api_WebDrain = (\<lambda>_ w. (None, w)),
      api_Ready = (\<lambda>w. (Inr (True, []), w)), sys_restart = (\<lambda>_ w. (None, w)), check_decoy = (\<lambda>w. (None, w)),
      http_get = (\<lambda>_ w. (Inl [], w)), select_wait = (\<lambda>w. (None, (fst w + Second div 4, snd w))),
      past_deadline = (\<lambda>w. (False, w)), io_fault = (\<lambda>_ w. (None, w)), clock = fst, tar_read = (\<lambda>_. ([], None)),
      sha256_hex = id,
      relay_check = (\<lambda>_ w. (None, w)),
      relay_restart = (\<lambda>u _ w. if u = ''tproxy-server'' \<and> snd w > 0 then (Some (''failed'', ''exit status 1''), (fst w, snd w - 1)) else (None, w)),
      relay_chown = (\<lambda>_ _ w. (None, w)), relay_probe = (\<lambda>_ w. (True, w)),
      marshal_limits = (\<lambda>_. []), marshal_profiles = (\<lambda>ps. concat (map PJ_Secret ps))\<rparr>"

definition relay_paths_sample :: relay_config where
  "relay_paths_sample = \<lparr>RC_ProfilesPath = ''/t/p.json'', RC_MTProxyEnvPath = ''/m/env'', RC_StateDir = ''/s'', RC_HealthWait = Second\<rparr>"

definition relay_start :: "disk \<Rightarrow> website option \<Rightarrow> nat \<Rightarrow> (gotime \<times> nat) relay" where
  "relay_start d site n = \<lparr>disk = d, dlog = [], world = (0, n), site_dir = site, backup_dirs = [], apply_log = [],
     restarted_mtproxy = False, restarted_relay = False\<rparr>"

definition relay_request :: RelayRequest where
  "relay_request = \<lparr>RR_ApplyProfiles = True,
     RR_Profiles = [\<lparr>RPr_Name = ''k'', RPr_Secret = ''ab'', RPr_Backend = [], RPr_CarrierMode = [], RPr_Limits = None\<rparr>],
     RR_MtproxySecrets = [''ab''], RR_Site = None\<rparr>"

lemma relay_node_clock: "clock_law relay_node"
  by (simp add: clock_law_def relay_node_def)

lemma relay_sample_paths: "relay_paths_ok relay_paths_sample"
  by (simp add: relay_paths_ok_def relay_paths_sample_def candidate_path_def Base_def Join_def)

theorem relay_apply_returns_witness:
  "\<exists>r s'. applyRelay relay_node relay_paths_sample ''b'' relay_request (relay_start Map.empty None 1) = Some (r, s')"
  by (rule relay_apply_returns) (rule relay_node_clock)

subsection \<open>A failed apply\<close>

lemma rollback_result:
  assumes b: "has_backup name s b" and b0: "backs_up cfg ch b s0" and paths: "relay_paths_ok cfg"
    and run: "rollback env cfg name ch cause s = Some (r, s')"
  shows "apart (relay_paths cfg) (CH_siteChanged ch) s s' \<and> \<not> AR_Ok r \<and>
    (AR_RolledBack r \<or> ''rollback FAILED; manual intervention needed'' \<in> set (AR_Log r)) \<and>
    (AR_RolledBack r \<longrightarrow> (\<forall>p \<in> relay_paths cfg. disk s0 p \<noteq> None \<longrightarrow> disk s' p = disk s0 p) \<and>
       (CH_siteChanged ch \<longrightarrow> site_dir s' = site_dir s0))"
proof -
  let ?s = "log_line (''rolling back: '' @ cause) s"
  obtain ok s1 where 1: "restore_all env cfg name ch ?s = (ok, s1)" by fastforce
  have "has_backup name ?s b" using b by (simp add: has_backup_def)
  note R = restore_all_result [OF this b0 paths 1]
  note run1 = run [unfolded rollback_def 1 Let_def prod.case]
  obtain e s2 where 2: "waitHealthy env cfg s1 = Some (e, s2)"
    using run1 by (auto split: option.splits)
  define n where "n = note_step ''wait healthy'' e (ok, s2)"
  define s4 where "s4 = (if fst n then snd n else log_line ''rollback FAILED; manual intervention needed'' (snd n))"
  have r: "r = relay_result False (fst n) s4" "s' = s4"
    using run1 [unfolded 2 option.case prod.case n_def [symmetric]] by (auto simp: s4_def split_beta)
  have s4: "still s1 s4"
    using waitHealthy_still [OF 2] note_step_snd [of "(ok, s2)" "''wait healthy''" e]
    by (auto simp: s4_def n_def still_def)
  have ok: "fst n \<Longrightarrow> ok"
    by (simp add: n_def note_step_fst)
  show ?thesis
    using R s4 ok by (auto simp: r relay_result_def s4_def apart_def still_def)
qed

lemma rollback_not_ok: "rollback env cfg name ch cause s = Some (r, s') \<Longrightarrow> \<not> AR_Ok r"
  by (auto simp: rollback_def relay_result_def Let_def split_beta split: option.splits)

text \<open>What the steps up to the first write leave: everything but the candidate file and the backup directory.\<close>

lemma prepare_result:
  assumes run: "prepare env cfg name req s = (r, s')"
  shows "(\<forall>p. p \<noteq> candidate_path cfg \<longrightarrow> disk s' p = disk s p) \<and> site_dir s' = site_dir s \<and>
    (\<not> isl r \<longrightarrow> map_of (backup_dirs s) name = None \<longrightarrow> has_backup name s' empty_backup)"
proof -
  obtain e s1 where 1: "new_backup name env s = (e, s1)" by fastforce
  note n = new_backup_ok [OF 1]
  show ?thesis
  proof (cases e)
    case (Some x)
    then show ?thesis using run n by (auto simp: prepare_def callE_def 1 bindE_def)
  next
    case None
    have "bindE (prepare_profiles env cfg req) (prepare_site env req) s1 = (r, s')"
      using run by (simp add: prepare_def callE_def 1 None bindE_def)
    then have "apart {candidate_path cfg} False s1 s'"
      by (auto elim!: bindE_cases dest!: prepare_profiles_apart prepare_site_still still_apart [where A = "{candidate_path cfg}" and b = False])
        (metis apart_trans)+
    then show ?thesis
      using n None by (auto simp: apart_def has_backup_def)
  qed
qed

lemma fail_apply_result:
  "fail_apply e s = (r, s') \<Longrightarrow> disk s' = disk s \<and> site_dir s' = site_dir s \<and> \<not> AR_Ok r \<and> \<not> AR_RolledBack r"
  by (auto simp: fail_apply_def relay_result_def Let_def)

lemma put_in_force_cases:
  assumes "put_in_force env cfg name req ch s = Some (r, s')"
  obtains cause s4 where "rollback env cfg name ch cause s4 = Some (r, s')" "apart (relay_paths cfg) (CH_siteChanged ch) s s4"
    | s3 s4 where "bindE (write_all env cfg req ch) (\<lambda>_. restart_all env ch) s = (Inr (), s3)" "still s3 s4"
      "s' = prune_logged env (log_line ''relay healthy'' s4)" "r = relay_result True False s'"
proof -
  obtain z s3 where 3: "bindE (write_all env cfg req ch) (\<lambda>_. restart_all env ch) s = (z, s3)" by fastforce
  have W: "apart (relay_paths cfg) (CH_siteChanged ch) s s3"
    using 3 by (auto elim!: bindE_cases dest!: write_all_apart restart_all_still intro: apart_trans still_apart)
  show ?thesis
  proof (cases z)
    case (Inl e)
    then show ?thesis using that(1) [of e s3] W assms 3 by (simp add: put_in_force_def)
  next
    case (Inr v)
    obtain e s4 where w: "waitHealthy env cfg s3 = Some (e, s4)"
      using assms 3 Inr by (auto simp: put_in_force_def split: option.splits)
    have "apart (relay_paths cfg) (CH_siteChanged ch) s s4"
      using W waitHealthy_still [OF w] by (meson apart_trans still_apart)
    then show ?thesis
      using that waitHealthy_still [OF w] assms 3 Inr w by (cases e) (auto simp: put_in_force_def Let_def)
  qed
qed

lemma begin_apply_simps [simp]:
  "disk (begin_apply s) = disk s" "site_dir (begin_apply s) = site_dir s" "backup_dirs (begin_apply s) = backup_dirs s"
  "apply_log (begin_apply s) = []" "restarted_mtproxy (begin_apply s) = False" "restarted_relay (begin_apply s) = False"
  by (simp_all add: begin_apply_def)

text \<open>The three ways an apply goes: stopped before the first write, found nothing to change, or put the changes in force.\<close>

lemma applyRelay_cases:
  assumes paths: "relay_paths_ok cfg" and fresh: "map_of (backup_dirs s) name = None"
    and run: "applyRelay env cfg name req s = Some (r, s')"
  obtains (stopped) "\<forall>p. p \<noteq> candidate_path cfg \<longrightarrow> disk s' p = disk s p" "site_dir s' = site_dir s" "\<not> AR_Ok r"
    | (same) ch s1 where "prepare env cfg name req (begin_apply s) = (Inr ch, s1)" "unchanged ch"
        "s' = log_line ''nothing changed'' s1" "r = relay_result True False s'"
    | (changed) ch s1 s2 b where "prepare env cfg name req (begin_apply s) = (Inr ch, s1)"
        "disk s2 = disk s1 \<and> site_dir s2 = site_dir s1" "has_backup name s2 b" "backs_up cfg ch b s1"
        "put_in_force env cfg name req ch s2 = Some (r, s')"
proof -
  obtain x s1 where 1: "prepare env cfg name req (begin_apply s) = (x, s1)" by fastforce
  note P = prepare_result [OF 1]
  show ?thesis
  proof (cases x)
    case (Inl e)
    then show ?thesis using stopped run P 1 by (auto simp: applyRelay_def dest!: fail_apply_result)
  next
    case (Inr ch)
    obtain y s2 where 2: "backup_all env cfg name ch s1 = (y, s2)" by fastforce
    note B = backup_all_frame [OF 2]
    have b: "has_backup name s1 empty_backup" using P fresh Inr by simp
    consider "unchanged ch" | e where "\<not> unchanged ch" "y = Inl e" | u where "\<not> unchanged ch" "y = Inr u"
      by (cases y) blast+
    then show ?thesis
    proof cases
      case 1
      then show ?thesis using same [of ch s1] run \<open>prepare _ _ _ _ _ = _\<close> Inr by (auto simp: applyRelay_def Let_def)
    next
      case 2
      then have "fail_apply e s2 = (r, s')"
        using run \<open>prepare _ _ _ _ _ = _\<close> Inr \<open>backup_all _ _ _ _ _ = _\<close> by (simp add: applyRelay_def)
      then show ?thesis using stopped P B by (auto dest!: fail_apply_result)
    next
      case 3
      then obtain b' where "has_backup name s2 b'" "backs_up cfg ch b' s1"
        using backup_all_ok [OF _ b paths] \<open>backup_all _ _ _ _ _ = _\<close> by metis
      then show ?thesis
        using changed [of ch s1 s2 b'] run \<open>prepare _ _ _ _ _ = _\<close> Inr B 3 \<open>backup_all _ _ _ _ _ = _\<close> by (simp add: applyRelay_def)
    qed
  qed
qed


subsection \<open>A successful apply\<close>

definition no_faults :: "'w relay_env \<Rightarrow> bool" where
  "no_faults env \<longleftrightarrow> (\<forall>op w. fst (io_fault env op w) = None)"

definition content :: "'w relay \<Rightarrow> path \<Rightarrow> string" where
  "content s p = (case disk s p of None \<Rightarrow> [] | Some d \<Rightarrow> d)"

definition site_now :: "'w relay \<Rightarrow> website" where
  "site_now s = (case site_dir s of None \<Rightarrow> [] | Some m \<Rightarrow> m)"

text \<open>
  A request is in force on a node when the profiles file is the rendering of its profiles up to trailing
  newlines, the environment file renders the same with the secrets it has as with those of the request, and the
  site has as many files as the request and every requested file that is not empty.
\<close>

definition profiles_in_force :: "'w relay_env \<Rightarrow> relay_config \<Rightarrow> RelayRequest \<Rightarrow> 'w relay \<Rightarrow> bool" where
  "profiles_in_force env cfg req s \<longleftrightarrow>
     (case RenderProfilesJSON env (RR_Profiles req) of
        Inl _ \<Rightarrow> False
      | Inr new \<Rightarrow>
          (let old = content s (RC_MTProxyEnvPath cfg)
           in trim_newlines (content s (RC_ProfilesPath cfg)) = trim_newlines new \<and>
              RenderMTProxyEnv old (existingMTProxySecrets old) = RenderMTProxyEnv old (RR_MtproxySecrets req)))"

definition site_in_force :: "(string \<times> string) list \<Rightarrow> 'w relay \<Rightarrow> bool" where
  "site_in_force files s \<longleftrightarrow>
     (case site_files files [] of Inl _ \<Rightarrow> False | Inr m \<Rightarrow> map_of m ''index.html'' \<noteq> None \<and> same_files (site_now s) m)"

definition in_force :: "'w relay_env \<Rightarrow> relay_config \<Rightarrow> RelayRequest \<Rightarrow> 'w relay \<Rightarrow> bool" where
  "in_force env cfg req s \<longleftrightarrow>
     (RR_ApplyProfiles req \<longrightarrow> profiles_in_force env cfg req s) \<and>
     (case RR_Site req of None \<Rightarrow> True | Some files \<Rightarrow> site_in_force files s)"

lemma in_force_cong:
  assumes "content s' (RC_ProfilesPath cfg) = content s (RC_ProfilesPath cfg)"
    "content s' (RC_MTProxyEnvPath cfg) = content s (RC_MTProxyEnvPath cfg)" "site_dir s' = site_dir s"
  shows "in_force env cfg req s' = in_force env cfg req s"
proof -
  have "profiles_in_force env cfg req s' = profiles_in_force env cfg req s"
    unfolding profiles_in_force_def assms(1,2) ..
  moreover have "site_in_force files s' = site_in_force files s" for files
    unfolding site_in_force_def site_now_def assms(3) ..
  ultimately show ?thesis by (simp add: in_force_def split: option.split)
qed

text \<open>\<open>alike s s'\<close>: nothing of the node or of the result so far differs but the world and the backups.\<close>

definition alike :: "'w relay \<Rightarrow> 'w relay \<Rightarrow> bool" where
  "alike s s' \<longleftrightarrow> disk s' = disk s \<and> site_dir s' = site_dir s \<and> apply_log s' = apply_log s \<and>
     restarted_mtproxy s' = restarted_mtproxy s \<and> restarted_relay s' = restarted_relay s"

lemma alike_trans: "alike s s1 \<Longrightarrow> alike s1 s2 \<Longrightarrow> alike s s2"
  by (simp add: alike_def)

lemma in_force_alike: "alike s s' \<Longrightarrow> in_force env cfg req s' = in_force env cfg req s"
  by (rule in_force_cong) (simp_all add: alike_def content_def)

lemma alike_outside: "alike s (snd (outside f s))"
  by (simp add: alike_def outside_def split_beta)

lemma fault_none: "no_faults env \<Longrightarrow> \<exists>s'. fault env op s = (None, s') \<and> alike s s'"
  using alike_outside [of s "io_fault env op"] by (cases "fault env op s") (auto simp: no_faults_def outside_def split_beta)

lemma read_or_empty_content:
  assumes "no_faults env"
  shows "\<exists>s'. read_or_empty env p s = (Inr (content s p), s') \<and> alike s s'"
  using fault_none [OF assms, of "OpenOp p" s] by (auto simp: read_or_empty_def ReadFile_def content_def split: option.splits)

lemma read_files_all: "no_faults env \<Longrightarrow> \<exists>s'. read_files env fs s = (fs, s') \<and> alike s s'"
proof (induction fs arbitrary: s)
  case Nil
  show ?case by (simp add: alike_def)
next
  case (Cons f fs)
  obtain s1 where 1: "fault env (OpenOp (fst f)) s = (None, s1)" "alike s s1"
    using fault_none [OF Cons.prems] by blast
  obtain s2 where 2: "read_files env fs s1 = (fs, s2)" "alike s1 s2"
    using Cons.IH [OF Cons.prems] by blast
  then show ?case
    using 1 2 alike_trans [OF 1(2) 2(2)] by (cases f) auto
qed

lemma siteEquals_now:
  assumes "no_faults env"
  shows "\<exists>s'. siteEquals env m s = (same_files (site_now s) m, s') \<and> alike s s'"
  using read_files_all [OF assms, of "site_now s" s]
  by (cases "site_dir s") (auto simp: siteEquals_def readSite_def site_now_def alike_def)

lemma new_backup_none: "no_faults env \<Longrightarrow> \<exists>s'. new_backup name env s = (None, s') \<and> alike s s'"
  using fault_none [of env "MkdirOp name" s] by (auto simp: new_backup_def alike_def)

lemma prepare_profiles_none:
  assumes nf: "no_faults env" and f: "RR_ApplyProfiles req \<longrightarrow> profiles_in_force env cfg req s"
  shows "\<exists>ch s'. prepare_profiles env cfg req s = (Inr ch, s') \<and> unchanged ch \<and> alike s s'"
proof (cases "RR_ApplyProfiles req")
  case False
  then show ?thesis by (simp add: prepare_profiles_def returnE_def unchanged_def alike_def)
next
  case True
  then obtain new where new: "RenderProfilesJSON env (RR_Profiles req) = Inr new"
    using f by (auto simp: profiles_in_force_def split: sum.splits)
  obtain s1 where 1: "read_or_empty env (RC_ProfilesPath cfg) s = (Inr (content s (RC_ProfilesPath cfg)), s1)" "alike s s1"
    using read_or_empty_content [OF nf] by blast
  obtain s2 where 2: "read_or_empty env (RC_MTProxyEnvPath cfg) s1 = (Inr (content s (RC_MTProxyEnvPath cfg)), s2)" "alike s1 s2"
    using read_or_empty_content [OF nf, of "RC_MTProxyEnvPath cfg" s1] 1(2) by (auto simp: content_def alike_def)
  show ?thesis
    using True f 1 2 alike_trans [OF 1(2) 2(2)]
    by (simp add: prepare_profiles_def new bindE_def whenE_def returnE_def Let_def profiles_in_force_def unchanged_def)
qed

lemma prepare_none:
  assumes nf: "no_faults env" and f: "in_force env cfg req s"
  shows "\<exists>ch s'. prepare env cfg name req s = (Inr ch, s') \<and> unchanged ch \<and> alike s s'"
proof -
  obtain s1 where 1: "new_backup name env s = (None, s1)" "alike s s1"
    using new_backup_none [OF nf] by blast
  have f1: "in_force env cfg req s1"
    using f in_force_alike [OF 1(2)] by simp
  obtain ch s2 where 2: "prepare_profiles env cfg req s1 = (Inr ch, s2)" "unchanged ch" "alike s1 s2"
    using prepare_profiles_none [OF nf] f1 by (metis in_force_def)
  have f2: "in_force env cfg req s2"
    using f1 in_force_alike [OF 2(3)] by simp
  have "\<exists>ch' s3. prepare_site env req ch s2 = (Inr ch', s3) \<and> unchanged ch' \<and> alike s2 s3"
  proof (cases "RR_Site req")
    case None
    then show ?thesis using 2(2) by (simp add: prepare_site_def alike_def)
  next
    case (Some files)
    then obtain m where m: "site_files files [] = Inr m" "map_of m ''index.html'' \<noteq> None" "same_files (site_now s2) m"
      using f2 by (auto simp: in_force_def site_in_force_def split: sum.splits)
    then show ?thesis
      using siteEquals_now [OF nf, of m s2] 2(2) Some by (auto simp: prepare_site_def unchanged_def)
  qed
  then obtain ch' s3 where "prepare_site env req ch s2 = (Inr ch', s3)" "unchanged ch'" "alike s2 s3" by blast
  then show ?thesis
    using 1 2 alike_trans [OF alike_trans [OF 1(2) 2(3)]] by (auto simp: prepare_def callE_def bindE_def)
qed

text \<open>What the prepared changes say of the node they were prepared on.\<close>

definition profiles_planned :: "'w relay_env \<Rightarrow> relay_config \<Rightarrow> RelayRequest \<Rightarrow> 'w relay \<Rightarrow> changes \<Rightarrow> bool" where
  "profiles_planned env cfg req s ch \<longleftrightarrow>
     (let old = content s (RC_MTProxyEnvPath cfg)
      in RenderProfilesJSON env (RR_Profiles req) = Inr (CH_profiles ch) \<and>
         CH_profilesChanged ch = (trim_newlines (content s (RC_ProfilesPath cfg)) \<noteq> trim_newlines (CH_profiles ch)) \<and>
         CH_env ch = RenderMTProxyEnv old (RR_MtproxySecrets req) \<and>
         CH_envChanged ch = (RenderMTProxyEnv old (existingMTProxySecrets old) \<noteq> CH_env ch))"

definition planned :: "'w relay_env \<Rightarrow> relay_config \<Rightarrow> RelayRequest \<Rightarrow> 'w relay \<Rightarrow> changes \<Rightarrow> bool" where
  "planned env cfg req s ch \<longleftrightarrow>
     (if RR_ApplyProfiles req then profiles_planned env cfg req s ch else \<not> CH_profilesChanged ch \<and> \<not> CH_envChanged ch) \<and>
     (case RR_Site req of
        None \<Rightarrow> \<not> CH_siteChanged ch
      | Some files \<Rightarrow> site_files files [] = Inr (CH_site ch) \<and> map_of (CH_site ch) ''index.html'' \<noteq> None \<and>
          CH_siteChanged ch = (\<not> same_files (site_now s) (CH_site ch)))"

lemma prepare_profiles_planned:
  assumes nf: "no_faults env" and run: "prepare_profiles env cfg req s = (Inr ch, s')"
  shows "(if RR_ApplyProfiles req then profiles_planned env cfg req s ch else \<not> CH_profilesChanged ch \<and> \<not> CH_envChanged ch) \<and>
    \<not> CH_siteChanged ch"
proof (cases "RR_ApplyProfiles req")
  case False
  then show ?thesis using run by (auto simp: prepare_profiles_def)
next
  case True
  then obtain new where new: "RenderProfilesJSON env (RR_Profiles req) = Inr new"
    using run by (auto simp: prepare_profiles_def split: sum.splits)
  obtain s1 where 1: "read_or_empty env (RC_ProfilesPath cfg) s = (Inr (content s (RC_ProfilesPath cfg)), s1)" "alike s s1"
    using read_or_empty_content [OF nf] by blast
  obtain s2 where 2: "read_or_empty env (RC_MTProxyEnvPath cfg) s1 = (Inr (content s (RC_MTProxyEnvPath cfg)), s2)"
    using read_or_empty_content [OF nf, of "RC_MTProxyEnvPath cfg" s1] 1(2) by (auto simp: content_def alike_def)
  have "ch = \<lparr>CH_profiles = new, CH_profilesChanged = (trim_newlines (content s (RC_ProfilesPath cfg)) \<noteq> trim_newlines new),
      CH_env = RenderMTProxyEnv (content s (RC_MTProxyEnvPath cfg)) (RR_MtproxySecrets req),
      CH_envChanged = (RenderMTProxyEnv (content s (RC_MTProxyEnvPath cfg)) (existingMTProxySecrets (content s (RC_MTProxyEnvPath cfg)))
        \<noteq> RenderMTProxyEnv (content s (RC_MTProxyEnvPath cfg)) (RR_MtproxySecrets req)),
      CH_site = [], CH_siteChanged = False\<rparr>"
    using run True 1(1) 2 by (auto simp: prepare_profiles_def new Let_def elim!: bindE_Inr)
  then show ?thesis
    using True new by (simp add: profiles_planned_def Let_def)
qed

lemma prepare_planned:
  assumes nf: "no_faults env" and paths: "relay_paths_ok cfg" and run: "prepare env cfg name req s = (Inr ch, s')"
  shows "planned env cfg req s ch"
proof -
  obtain s1 where 1: "new_backup name env s = (None, s1)" "alike s s1"
    using new_backup_none [OF nf] by blast
  obtain ch0 s2 where 2: "prepare_profiles env cfg req s1 = (Inr ch0, s2)" and 3: "prepare_site env req ch0 s2 = (Inr ch, s')"
    using run 1(1) by (auto simp: prepare_def callE_def elim!: bindE_Inr)
  have p: "(if RR_ApplyProfiles req then profiles_planned env cfg req s ch0 else \<not> CH_profilesChanged ch0 \<and> \<not> CH_envChanged ch0)"
    "\<not> CH_siteChanged ch0"
    using prepare_profiles_planned [OF nf 2] 1(2) by (auto simp: profiles_planned_def content_def alike_def)
  have now: "site_now s2 = site_now s"
    using prepare_profiles_apart [OF 2] 1(2) by (simp add: site_now_def apart_def alike_def)
  show ?thesis
  proof (cases "RR_Site req")
    case None
    then show ?thesis using 3 p by (auto simp: prepare_site_def planned_def)
  next
    case (Some files)
    then obtain m where m: "site_files files [] = Inr m" "map_of m ''index.html'' \<noteq> None"
      using 3 by (auto simp: prepare_site_def split: sum.splits if_splits)
    have "ch = ch0\<lparr>CH_site := m, CH_siteChanged := \<not> same_files (site_now s) m\<rparr>"
      using 3 Some m siteEquals_now [OF nf, of m s2] now by (auto simp: prepare_site_def)
    then show ?thesis
      using p m Some by (simp add: planned_def profiles_planned_def Let_def split: if_splits)
  qed
qed

text \<open>The site that was written is the same as itself.\<close>

lemma site_files_distinct: "site_files fs m = Inr m' \<Longrightarrow> distinct (map fst m) \<Longrightarrow> distinct (map fst m')"
  by (induction fs arbitrary: m) (auto split: sum.splits, metis distinct_update)

lemma same_files_refl: "distinct (map fst m) \<Longrightarrow> same_files m m"
  by (auto simp: same_files_def list_all_iff)

lemma remove_dirs_frame: "remove_dirs env ns acc s = (x, s') \<Longrightarrow> disk s' = disk s \<and> site_dir s' = site_dir s"
proof (induction ns arbitrary: acc s)
  case (Cons n ns)
  obtain e s1 where 1: "fault env (RemoveOp n) s = (e, s1)" by fastforce
  show ?case
    using Cons 1 still_pair [OF 1] by (cases acc) (fastforce simp: still_def split: option.splits)
qed simp

lemma prune_logged_frame: "disk (prune_logged env s) = disk s" "site_dir (prune_logged env s) = site_dir s"
proof -
  obtain x s1 where 1: "pruneBackups env keptBackups s = (x, s1)" by fastforce
  have "disk s1 = disk s \<and> site_dir s1 = site_dir s"
    using 1 by (auto simp: pruneBackups_def Let_def still_def split: prod.splits option.splits if_splits
        dest!: still_pair remove_dirs_frame)
  then show "disk (prune_logged env s) = disk s" "site_dir (prune_logged env s) = site_dir s"
    by (auto simp: prune_logged_def 1 split: prod.splits option.splits)
qed

lemma written_in_force:
  assumes plan: "planned env cfg req s ch" and words: "\<forall>x \<in> set (RR_MtproxySecrets req). secret_word x"
    and P: "disk s' (RC_ProfilesPath cfg) = (if CH_profilesChanged ch then Some (CH_profiles ch) else disk s (RC_ProfilesPath cfg))"
    and Q: "disk s' (RC_MTProxyEnvPath cfg) = (if CH_envChanged ch then Some (CH_env ch) else disk s (RC_MTProxyEnvPath cfg))"
    and S: "site_dir s' = (if CH_siteChanged ch then Some (CH_site ch) else site_dir s)"
  shows "in_force env cfg req s'"
proof -
  have "profiles_in_force env cfg req s'" if "RR_ApplyProfiles req"
  proof -
    let ?old = "content s (RC_MTProxyEnvPath cfg)" and ?new = "content s' (RC_MTProxyEnvPath cfg)"
    have pl: "profiles_planned env cfg req s ch" using plan that by (simp add: planned_def)
    have "RenderMTProxyEnv ?new (existingMTProxySecrets ?new) = RenderMTProxyEnv ?new (RR_MtproxySecrets req)"
      using pl Q existing_rendered [OF words, of ?old]
      by (cases "CH_envChanged ch") (simp_all add: profiles_planned_def content_def Let_def)
    then show ?thesis
      using pl P by (cases "CH_profilesChanged ch") (simp_all add: profiles_planned_def profiles_in_force_def content_def Let_def)
  qed
  moreover have "site_in_force files s'" if "RR_Site req = Some files" for files
    using plan that S same_files_refl [OF site_files_distinct [of files "[]" "CH_site ch"]]
    by (cases "CH_siteChanged ch") (auto simp: planned_def site_in_force_def site_now_def)
  ultimately show ?thesis
    by (auto simp: in_force_def split: option.splits)
qed

lemma apply_ok_in_force:
  assumes nf: "no_faults env" and paths: "relay_paths_ok cfg" and fresh: "map_of (backup_dirs s) name = None"
    and words: "\<forall>x \<in> set (RR_MtproxySecrets req). secret_word x"
    and run: "applyRelay env cfg name req s = Some (r, s')" and ok: "AR_Ok r"
  shows "in_force env cfg req s'"
  using paths fresh run
proof (cases rule: applyRelay_cases)
  case stopped
  then show ?thesis using ok by simp
next
  case (same ch s1)
  note P = prepare_result [OF same(1)]
  show ?thesis
    using written_in_force [OF prepare_planned [OF nf paths same(1)] words, of s'] same(2,3) P paths
    by (auto simp: unchanged_def relay_paths_ok_def)
next
  case (changed ch s1 s2 b)
  note P = prepare_result [OF changed(1)]
  from changed(5) show ?thesis
  proof (cases rule: put_in_force_cases)
    case (1 cause s4)
    then show ?thesis using ok rollback_not_ok by blast
  next
    case (2 s3 s4)
    obtain u s2' where w: "write_all env cfg req ch s2 = (Inr u, s2')" "still s2' s3"
      using 2(1) by (auto elim!: bindE_Inr dest!: restart_all_still)
    have "disk s' = disk s2'" "site_dir s' = site_dir s2'"
      using 2(2,3) w(2) by (simp_all add: prune_logged_frame still_def)
    then show ?thesis
      using written_in_force [OF prepare_planned [OF nf paths changed(1)] words, of s'] write_all_ok [OF w(1) paths] P changed(2) paths
      by (auto simp: relay_paths_ok_def)
  qed
qed

text \<open>
  C11: A relay apply that reports success has put the request in force, and applying the same request again
  does nothing. When the file operations do not fail and the secrets are words of printable characters, then
  after a result that is ok the profiles file is the rendering of the requested profiles, the environment file
  stands for the requested secrets and the website has as many files as requested, among them every requested file that
  is not empty, with its contents; and in every later state with the same files
  and site, whatever else has happened, the same request answers ok with the one line ``nothing changed'',
  restarts neither service and changes no file and no page.
\<close>

theorem relay_apply_delivers:
  assumes "no_faults env" "relay_paths_ok cfg" "map_of (backup_dirs s) name = None"
    and "\<forall>x \<in> set (RR_MtproxySecrets req). secret_word x"
    and "applyRelay env cfg name req s = Some (r, s')" "AR_Ok r"
    and "disk t = disk s'" "site_dir t = site_dir s'"
  shows "in_force env cfg req s' \<and>
    (\<exists>r' t'. applyRelay env cfg name' req t = Some (r', t') \<and> AR_Ok r' \<and> AR_Log r' = [''nothing changed''] \<and>
       \<not> AR_RestartedRelay r' \<and> \<not> AR_RestartedMtproxy r' \<and> disk t' = disk t \<and> site_dir t' = site_dir t)"
proof -
  have f: "in_force env cfg req s'"
    by (rule apply_ok_in_force) (use assms in auto)
  then have "in_force env cfg req (begin_apply t)"
    using in_force_cong [of "begin_apply t" cfg s'] assms(7,8) by (simp add: content_def)
  then obtain ch t1 where "prepare env cfg name' req (begin_apply t) = (Inr ch, t1)" "unchanged ch" "alike (begin_apply t) t1"
    using prepare_none [OF assms(1)] by blast
  then show ?thesis
    using f by (simp add: applyRelay_def relay_result_def Let_def alike_def)
qed

subsection \<open>Runs on the example node\<close>

text \<open>On the node of the examples a probe succeeds at once, so the wait ends in its first round.\<close>

lemma relay_node_wait: "wait_loop relay_node d w = Some (None, w)"
  by (subst wait_loop.simps) (simp add: relay_node_def)

lemma relay_node_faults: "no_faults relay_node"
  by (simp add: no_faults_def relay_node_def)

lemmas relay_run =
  applyRelay_def prepare_def begin_apply_def prepare_profiles_def prepare_site_def check_candidate_def callE_def bindE_def wrapE_def
  whenE_def returnE_def modifyE_def failE_def new_backup_def backup_all_def backup_file_def backup_site_def change_backup_def
  write_all_def restart_all_def restart_unit_def put_in_force_def rollback_def restore_all_def restore_file_def noted_def note_step_def
  waitHealthy_def relay_node_wait read_or_empty_def ReadFile_def writeAtomic_def Remove_def chownLogged_def log_line_def outside_def
  set_disk_def relay_result_def fail_apply_def unchanged_def candidate_path_def Join_def relay_paths_sample_def relay_start_def
  relay_request_def RenderProfilesJSON_def render_profile_def limitsJSON_def Let_def split_beta

lemma relay_node_ops [simp]:
  "io_fault relay_node op w = (None, w)" "relay_check relay_node data w = (None, w)" "relay_chown relay_node p o1 w = (None, w)"
  "clock relay_node w = fst w" "marshal_profiles relay_node ps = concat (map PJ_Secret ps)"
  "relay_restart relay_node u d w = (if u = ''tproxy-server'' \<and> snd w > 0 then (Some (''failed'', ''exit status 1''), (fst w, snd w - 1)) else (None, w))"
  by (simp_all add: relay_node_def)

text \<open>The example's first environment file is a change, and so is its profiles file over an old one.\<close>

lemma example_changes:
  "RenderMTProxyEnv [] (existingMTProxySecrets []) \<noteq> RenderMTProxyEnv [] [''ab'']"
  "trim_newlines ''old'' \<noteq> trim_newlines (''ab'' @ [newline])"
proof -
  have "RenderMTProxyEnv [] [] \<noteq> RenderMTProxyEnv [] [''ab'']"
    by (simp add: RenderMTProxyEnv_def secret_lines_def write_lines_def)
  moreover have "existingMTProxySecrets [] = []"
    by (simp add: existingMTProxySecrets_def env_lines_def CutPrefix_def HasPrefix_def TrimSpace_Nil map_filter_def)
  ultimately show "RenderMTProxyEnv [] (existingMTProxySecrets []) \<noteq> RenderMTProxyEnv [] [''ab'']" by simp
qed (simp add: trim_newlines_def newline_def)

definition example_disk :: disk where
  "example_disk = [''/t/p.json'' \<mapsto> ''old'']"

definition example_changes_of :: changes where
  "example_changes_of = \<lparr>CH_profiles = ''ab'' @ [newline], CH_profilesChanged = True, CH_env = RenderMTProxyEnv [] [''ab''], CH_envChanged = True,
     CH_site = [], CH_siteChanged = False\<rparr>"

lemma example_prepare:
  "\<exists>l. prepare relay_node relay_paths_sample ''b'' relay_request (begin_apply (relay_start example_disk site n)) =
    (Inr example_changes_of, (relay_start example_disk site n)\<lparr>dlog := l, backup_dirs := [(''b'', empty_backup)], apply_log := [''relay -check ok'']\<rparr>)"
  using example_changes
  by (simp add: relay_run example_disk_def example_changes_of_def empty_backup_def fun_upd_twist)

lemma example_write:
  "\<exists>l lg. write_all relay_node relay_paths_sample relay_request example_changes_of s =
    (Inr (), s\<lparr>disk := (disk s)(''/t/p.json'' \<mapsto> ''ab'' @ [newline], ''/m/env'' \<mapsto> RenderMTProxyEnv [] [''ab'']), dlog := l, apply_log := lg\<rparr>)"
  by (simp add: relay_run example_changes_of_def) (intro exI, rule refl)

lemma example_restart:
  "\<exists>s'. restart_all relay_node example_changes_of s = (if snd (world s) = 0 then Inr () else Inl ''restart tproxy-server: failed'', s') \<and>
    world s' = (fst (world s), snd (world s) - 1) \<and> disk s' = disk s \<and> backup_dirs s' = backup_dirs s"
  by (cases "world s") (auto simp: relay_run example_changes_of_def)

lemma example_rollback:
  assumes "snd (world s) = 0" "backup_dirs s = [(''b'', \<lparr>BK_files = [(''p.json'', ''old'')], BK_site = None\<rparr>)]"
  shows "\<exists>r s'. rollback relay_node relay_paths_sample ''b'' example_changes_of cause s = Some (r, s') \<and> AR_RolledBack r \<and> \<not> AR_Ok r \<and>
    disk s' = (disk s)(''/t/p.json'' \<mapsto> ''old'') \<and> site_dir s' = site_dir s"
  using assms by (cases "world s") (simp add: relay_run example_changes_of_def Base_def)

lemma example_backup:
  "\<exists>lg. backup_all relay_node relay_paths_sample ''b'' example_changes_of
      ((relay_start example_disk site n)\<lparr>dlog := l, backup_dirs := [(''b'', empty_backup)], apply_log := lg0\<rparr>) =
    (Inr (), (relay_start example_disk site n)\<lparr>dlog := l,
       backup_dirs := [(''b'', \<lparr>BK_files = [(''p.json'', ''old'')], BK_site = None\<rparr>)], apply_log := lg\<rparr>)"
  by (simp add: relay_run example_disk_def example_changes_of_def empty_backup_def Base_def)

text \<open>
  Applied to a node with a profiles file and no environment file: with a relay that restarts the request is put
  in force, with one that fails once it is rolled back.
\<close>

lemma example_run:
  assumes "n \<le> 1"
  shows "\<exists>r s'. applyRelay relay_node relay_paths_sample ''b'' relay_request (relay_start example_disk site n) = Some (r, s') \<and>
    AR_Ok r = (n = 0) \<and> AR_RolledBack r = (n = 1) \<and> disk s' ''/m/env'' = Some (RenderMTProxyEnv [] [''ab''])"
proof -
  obtain l where 1: "prepare relay_node relay_paths_sample ''b'' relay_request (begin_apply (relay_start example_disk site n)) =
    (Inr example_changes_of, (relay_start example_disk site n)\<lparr>dlog := l, backup_dirs := [(''b'', empty_backup)], apply_log := [''relay -check ok'']\<rparr>)"
    using example_prepare by blast
  obtain s2 where 2: "backup_all relay_node relay_paths_sample ''b'' example_changes_of
      ((relay_start example_disk site n)\<lparr>dlog := l, backup_dirs := [(''b'', empty_backup)], apply_log := [''relay -check ok'']\<rparr>) = (Inr (), s2)"
    "world s2 = (0, n)" "backup_dirs s2 = [(''b'', \<lparr>BK_files = [(''p.json'', ''old'')], BK_site = None\<rparr>)]"
    using example_backup [where site = site and n = n and l = l and ?lg0.0 = "[''relay -check ok'']"] by (auto simp: relay_start_def)
  obtain s3 where 3: "write_all relay_node relay_paths_sample relay_request example_changes_of s2 = (Inr (), s3)"
    "world s3 = (0, n)" "backup_dirs s3 = backup_dirs s2" "disk s3 ''/m/env'' = Some (RenderMTProxyEnv [] [''ab''])"
    using example_write [of s2] 2(2) by auto
  obtain s4 where 4: "restart_all relay_node example_changes_of s3 = (if n = 0 then Inr () else Inl ''restart tproxy-server: failed'', s4)"
    "world s4 = (0, 0)" "backup_dirs s4 = backup_dirs s2" "disk s4 = disk s3"
    using example_restart [of s3] 3(2,3) assms by auto
  have run: "applyRelay relay_node relay_paths_sample ''b'' relay_request (relay_start example_disk site n) =
    put_in_force relay_node relay_paths_sample ''b'' relay_request example_changes_of s2"
    using 2(1) by (simp add: applyRelay_def 1) (simp add: unchanged_def example_changes_of_def)
  have healthy: "waitHealthy relay_node relay_paths_sample s4 = Some (None, s4)"
    by (simp add: waitHealthy_def relay_node_wait)
  have "\<exists>r s'. put_in_force relay_node relay_paths_sample ''b'' relay_request example_changes_of s2 = Some (r, s') \<and>
    AR_Ok r = (n = 0) \<and> AR_RolledBack r = (n = 1) \<and> disk s' ''/m/env'' = Some (RenderMTProxyEnv [] [''ab''])"
  proof (cases "n = 0")
    case True
    then show ?thesis
      using 3 4 healthy
      by (simp add: put_in_force_def bindE_def Let_def prune_logged_frame) (simp add: relay_result_def)
  next
    case False
    then show ?thesis
      using assms 3 4 2(3) example_rollback [of s4 "''restart tproxy-server: failed''"]
      by (auto simp: put_in_force_def bindE_def)
  qed
  then show ?thesis
    by (simp only: run)
qed


theorem relay_apply_delivers_witness:
  "\<exists>r s'. applyRelay relay_node relay_paths_sample ''b'' relay_request (relay_start example_disk None 0) = Some (r, s') \<and>
    (\<exists>r' t'. applyRelay relay_node relay_paths_sample ''c'' relay_request s' = Some (r', t') \<and> AR_Log r' = [''nothing changed''])"
proof -
  obtain r s' where run: "applyRelay relay_node relay_paths_sample ''b'' relay_request (relay_start example_disk None 0) = Some (r, s')" "AR_Ok r"
    using example_run [of 0 None] by auto
  have "map_of (backup_dirs (relay_start example_disk None 0)) ''b'' = None" "\<forall>x \<in> set (RR_MtproxySecrets relay_request). secret_word x"
    by (simp_all add: relay_start_def relay_request_def secret_word_def plain_def)
  from relay_apply_delivers [OF relay_node_faults relay_sample_paths this run refl refl, of "''c''"] run(1)
  show ?thesis by blast
qed

subsection \<open>What the result does not say\<close>

text \<open>
  C32: A rollback that reports success does not take away what the apply brought. A configuration file that
  was not there before the apply is not in the backup, and the rollback restores only what the backup has: on a
  node without an environment file, when the restart of the relay fails once, the result says rolled back while the new
  environment file, with the new secrets, stays in place (and mtproxy has been restarted with it).
\<close>

theorem rolled_back_file_stays:
  "\<exists>r s'. applyRelay relay_node relay_paths_sample ''b'' relay_request (relay_start example_disk None 1) = Some (r, s') \<and>
    AR_RolledBack r \<and> \<not> AR_Ok r \<and>
    disk (relay_start example_disk None 1) (RC_MTProxyEnvPath relay_paths_sample) = None \<and>
    disk s' (RC_MTProxyEnvPath relay_paths_sample) = Some (RenderMTProxyEnv [] (RR_MtproxySecrets relay_request))"
proof -
  have "RR_MtproxySecrets relay_request = [''ab'']" "RC_MTProxyEnvPath relay_paths_sample = ''/m/env''"
    "disk (relay_start example_disk None 1) ''/m/env'' = None"
    by (simp_all add: relay_request_def relay_paths_sample_def relay_start_def example_disk_def)
  then show ?thesis
    using example_run [of 1 None] by auto
qed

text \<open>
  C33: A changed website can be taken for the same one. The comparison reads a missing file as an empty one and then
  compares the number of files, so when the request replaces a page by an empty file under another name, and nothing else
  differs, the apply answers ok, nothing changed; the old page stays up and the new file is not written.
\<close>

theorem replaced_page_stays:
  assumes "no_faults env" "\<not> RR_ApplyProfiles req" "RR_Site req = Some files"
    and "site_files files [] = Inr ((q, []) # m)" "site_dir s = Some ((p, c) # m)"
    and "q \<noteq> p" "q \<notin> fst ` set m" "p \<notin> fst ` set m" "map_of m ''index.html'' \<noteq> None"
  shows "\<exists>r s'. applyRelay env cfg name req s = Some (r, s') \<and> AR_Ok r \<and> AR_Log r = [''nothing changed''] \<and>
    site_dir s' = Some ((p, c) # m)"
proof -
  have "distinct (map fst ((q, []) # m))"
    using site_files_distinct [OF assms(4)] by simp
  then have "map_of ((p, c) # m) x = Some d" if "(x, d) \<in> set m" for x d
    using that assms(8) by (auto simp: image_iff)
  moreover have "map_of ((p, c) # m) q = None"
    using assms(6,7) by (simp add: map_of_eq_None_iff)
  ultimately have "same_files ((p, c) # m) ((q, []) # m)"
    by (auto simp: same_files_def list_all_iff)
  then have "in_force env cfg req (begin_apply s)"
    using assms by (auto simp: in_force_def site_in_force_def site_now_def)
  then obtain ch t1 where "prepare env cfg name req (begin_apply s) = (Inr ch, t1)" "unchanged ch" "alike (begin_apply s) t1"
    using prepare_none [OF assms(1)] by blast
  then show ?thesis
    using assms(5) by (simp add: applyRelay_def relay_result_def Let_def alike_def)
qed

theorem replaced_page_stays_witness:
  "\<exists>r s'. applyRelay relay_node relay_paths_sample ''b'' (relay_request\<lparr>RR_ApplyProfiles := False, RR_Site := Some [(''new'', []), (''index.html'', ''x'')]\<rparr>)
      (relay_start Map.empty (Some [(''old'', ''y''), (''index.html'', ''x'')]) 0) = Some (r, s') \<and> AR_Ok r \<and>
    AR_Log r = [''nothing changed''] \<and> site_dir s' = Some [(''old'', ''y''), (''index.html'', ''x'')]"
proof (rule replaced_page_stays [OF relay_node_faults])
  show "site_files [(''new'', []), (''index.html'', ''x'')] [] = Inr ((''new'', []) # [(''index.html'', ''x'')])"
    by (simp add: safeSitePath_def clean_segments_def HasPrefix_def)
qed (simp_all add: relay_start_def relay_request_def)

end
