(* ===== verification/Spec2Isabelle.thy ===== *)
theory Spec2Isabelle
  imports Rate_Limit Quota_Reset Web_Policy Web_Capacity Token_Policy Apply_Schedule Reliability_Alerts Key_Properties Key_Import Key_Links Agent_Update_Properties Agent_Recovery_Properties Agent_Users_Properties Worker_Apply_Properties Agent_Relay_Properties
begin

text \<open>
  A verification development of tgproxy-panel, the control panel and node agent of a fleet of
  Telegram proxies.

  \<^bold>\<open>The program.\<close> The panel keeps keys (the access of one person), their bindings to nodes and the
  profiles the nodes have to serve in a PostgreSQL database. The key service changes these tables and marks
  every node it touched as dirty. Workers of the panel send a dirty node its desired state and record
  the outcome, expire keys, start quota periods, turn health reports into findings and incidents, and
  deliver alerts. On the node an agent receives the desired state. A Telemt node gets it as users of Telemt's control API,
  a relay node as two configuration files and a website; the agent also updates the Telemt binary, restarts it and
  switches its route when it fails. The API in front of the panel is guarded by a rate limiter and by the scopes and
  roles of API tokens.

  \<^bold>\<open>Theories and sources\<close> (paths under \<^verbatim>\<open>src/internal\<close>).

  \<^item> \<open>Prelude\<close>: Go's saturating time arithmetic, error values, runs of calls. \<open>Go_Strings\<close>, \<open>Go_Fields\<close>, \<open>Go_Json\<close>,
    \<open>Encodings\<close>, \<open>Calendar\<close>: what the code uses of the standard library (trimming, splitting, numbers, JSON
    decoding of objects, hexadecimal, base64 and percent encoding, civil dates).
  \<^item> \<open>Domain_Types\<close>, \<open>Web_Policy\<close>, \<open>Web_Capacity\<close>: \<^verbatim>\<open>domain/types.go\<close>, \<^verbatim>\<open>webpolicy.go\<close>, \<^verbatim>\<open>webcapacity.go\<close>,
    \<^verbatim>\<open>diagnostics.go\<close>: validation, presets, quota periods. Validators return their first error; a loop over a
    Go map is modelled for every order.
  \<^item> \<open>Rate_Limit\<close>: \<^verbatim>\<open>api/ratelimit.go\<close>. \<open>Token_Policy\<close>: \<^verbatim>\<open>api/api_token_policy.go\<close> and \<^verbatim>\<open>rbac.go\<close>.
  \<^item> \<open>Key_Store\<close>: the tables and SQL statements of \<^verbatim>\<open>store/db\<close> the key service runs. \<open>Key_Service\<close>, \<open>Key_Import\<close>: the
    operations of \<^verbatim>\<open>keys/service.go\<close>, \<^verbatim>\<open>users.go\<close>, \<^verbatim>\<open>import.go\<close> and \<^verbatim>\<open>worker/expiry.go\<close>, each with its
    transaction, which has no effect when it returns an error. \<open>Key_Invariants\<close>, \<open>Key_Operations\<close>, \<open>Key_Dirty\<close>,
    \<open>Key_Properties\<close>: what every statement and operation keeps. \<open>Key_Links\<close>: \<^verbatim>\<open>qrlink/qrlink.go\<close> and the links of a key.
  \<^item> \<open>Apply_Schedule\<close>: \<^verbatim>\<open>worker/applyschedule.go\<close>. \<open>Node_Versions\<close>: version gates of \<^verbatim>\<open>telemt/capabilities.go\<close> and
    \<^verbatim>\<open>nodesvc\<close>. \<open>Worker_Desired\<close>, \<open>Worker_Apply\<close>: \<^verbatim>\<open>worker/desired.go\<close>, \<^verbatim>\<open>worker/apply.go\<close>, from building the request to the
    two recording transactions. \<open>Worker_Apply_Safety\<close>, \<open>Worker_Apply_Properties\<close>: an apply as a sequence of steps between which
    other transactions commit.
  \<^item> \<open>Quota_Reset\<close>: \<^verbatim>\<open>worker/quotareset.go\<close>. \<open>Findings\<close>: \<^verbatim>\<open>reliability/findings.go\<close> and \<^verbatim>\<open>worker/incidents.go\<close>.
    \<open>Notifications\<close>, \<open>Reliability_Alerts\<close>: \<^verbatim>\<open>worker/notification_state.go\<close>, \<^verbatim>\<open>alerts.go\<close>,
    \<^verbatim>\<open>reliability_notifications.go\<close>.
  \<^item> \<open>Agent_Disk\<close>, \<open>Agent_Steps\<close>, \<open>Agent_State\<close>: the node's files, the steps and the state of the agent
    (\<^verbatim>\<open>agent/files.go\<close>, \<^verbatim>\<open>upgraderun.go\<close>, \<^verbatim>\<open>handler.go\<close>). \<open>Agent_Update\<close> with \<open>_Frames\<close>, \<open>_Safety\<close>, \<open>_Properties\<close>:
    \<^verbatim>\<open>telemtupdate.go\<close> and \<^verbatim>\<open>updatejournal.go\<close>. \<open>Agent_Recovery\<close> with \<open>_Safety\<close>, \<open>_Properties\<close>: \<^verbatim>\<open>recovery.go\<close>.
    \<open>Agent_Users\<close> with \<open>_Laws\<close>, \<open>_Safety\<close>, \<open>_Properties\<close>: the users half of \<^verbatim>\<open>telemt.go\<close>. \<open>Relay_Env\<close>, \<open>Agent_Relay\<close> with
    \<open>_Safety\<close>, \<open>_Properties\<close>: \<^verbatim>\<open>apply.go\<close>. \<open>Agent_Sample\<close>: a concrete node for the examples.

  \<^bold>\<open>State and effects.\<close> A database is a record of lists of rows, a statement a function on it; a table's order is not
  observed. The agent acts on a record with the disk (a map from paths to contents), the list of all disks it has gone
  through, and a world only the operations of an environment record can look into: Telemt, \<^verbatim>\<open>systemctl\<close>, the
  network, the clock and the faults of the file system are such operations, so every theorem about the agent holds for
  every answer and every fault. Errors are values that carry the texts of the code. Machine integers are \<open>int\<close> with the
  code's own range checks and, for durations, Go's saturation.

  \<^bold>\<open>What is shown.\<close>

  \<^item> Keys: the tables stay consistent under every sequence of calls; whatever changes what a node serves marks it
    dirty; a failed call changes nothing; revocation, rotation, import and the links do what they promise on every node.
  \<^item> From the tables to the nodes: \<open>Worker_Apply_Safety\<close> gives an inductive step relation in which an apply interleaves with
    the key service and other writers. A node that is not dirty has been given what the tables say, a profile shown as
    synced was delivered, and an undisturbed apply settles its node. The contract between the worker and whoever writes profiles is
    the locale \<open>profile_writer\<close> with its extension \<open>strict_writer\<close>, interpreted with the key service's own steps.
  \<^item> Telemt update: at whatever disk of its log a run is cut off, the start of the agent brings the node back to a matching
    binary, configuration and journal; the reported outcome is true of the files; no swap without the drain that was asked for.
  \<^item> Recovery: never more actions in an hour than the policy allows, across restarts of the agent.
  \<^item> Users: a successful apply leaves exactly the wanted users with the wanted policies; no quota is granted twice for a period.
  \<^item> Relay: the apply returns; a failed one leaves the files and the website it found; a successful one has put the
    request in force, and repeating it does nothing; the environment file carries the secrets through a round trip.
  \<^item> The limiter's bound and the invisibility of its sweeps (a refinement of the limiter without sweeps), the exact decision of
    token requests, the reservation of applies, the alternation of outage alerts, the thresholds of incidents and server
    alerts, quota periods, version gates.
  \<^item> Where the code does something else than it means to, a theorem says so: a revocation that races with a binding, a
    rotation during the recording of an apply, an attempt spent on nothing, a limit that is not restored, a failed update with the new
    binary, a rollback that leaves a new file, a website that is taken for unchanged.

  \<^bold>\<open>Termination and fuel.\<close> Recursion is structural or has a measure. The polling loops of the Telemt update and of its drain take
  the number of polls as fuel from the configuration (\<open>health_polls\<close>, \<open>drain_polls\<close>), because the code bounds them by a deadline
  and a fixed interval; running out of polls is the code's timeout branch. The polling loop of the relay is a
  \<^verbatim>\<open>partial_function\<close>: that it returns is a theorem under the law that a wait advances the clock.

  \<^bold>\<open>Not modelled.\<close> HTTP handlers, routing, rendering of pages and messages, and the gRPC and SSH transports (glue around the
  services); statistics and presence queries (aggregation inside SQL); cryptography, TOTP, PNG and TOML
  libraries (parameters where the model meets them); file modes and owners; the initial set-up and the upgrade command of the
  agent, its firewall and health sampling (commands whose effect is outside the program); the configuration half of an apply to
  Telemt beyond virtual hosts, restart and readiness; ticker loops, which call the modelled functions. Mutexes are taken as
  making the calls they guard atomic.
\<close>

end
